(* ===== verification/Prelude.thy ===== *)
theory Prelude
  imports Main "HOL-Library.Word" "HOL-Library.Multiset"
begin

text \<open>
  The names every component of the development shares: machine integers, the outcome of a
  Rust function, little-endian numbers, and generic lemmas on lists and association lists.

  A Rust function that returns a \<open>Result\<close> and may panic is a function into
  \<open>('e, 'a) res\<close>: \<open>Ok\<close> and \<open>Err\<close> are the two constructors of \<open>Result\<close>, and
  \<open>Panic\<close> is an unwinding panic (a failed \<open>unwrap\<close>, an index out of range).
\<close>

named_theorems std_simps \<open>characteristic equations of the standard-library functions\<close>
named_theorems tracker_simps \<open>characteristic equations of the job tracker\<close>

type_synonym u8 = "8 word"
type_synonym u16 = "16 word"
type_synonym u32 = "32 word"
type_synonym u64 = "64 word"
type_synonym i32 = "32 word"
type_synonym i64 = "64 word"

section \<open>Outcomes\<close>

datatype ('e, 'a) res = Ok 'a | Err 'e | Panic

primrec bind_res :: "('e, 'a) res \<Rightarrow> ('a \<Rightarrow> ('e, 'b) res) \<Rightarrow> ('e, 'b) res" where
  "bind_res (Ok x) f = f x"
| "bind_res (Err e) f = Err e"
| "bind_res Panic f = Panic"

lemma bind_res_Ok_iff: "bind_res m f = Ok y \<longleftrightarrow> (\<exists>x. m = Ok x \<and> f x = Ok y)"
  by (cases m) auto

lemma bind_res_Panic_iff: "bind_res m f = Panic \<longleftrightarrow> m = Panic \<or> (\<exists>x. m = Ok x \<and> f x = Panic)"
  by (cases m) auto

text \<open>\<open>unwrap\<close> on an option: the panic is a value.\<close>

primrec unwrap :: "'a option \<Rightarrow> ('e, 'a) res" where
  "unwrap None = Panic"
| "unwrap (Some x) = Ok x"

lemma unwrap_Ok_iff [simp]: "unwrap x = Ok y \<longleftrightarrow> x = Some y"
  by (cases x) auto

lemma unwrap_Panic_iff [simp]: "unwrap x = Panic \<longleftrightarrow> x = None"
  by (cases x) auto

lemma unwrap_no_err [simp]: "unwrap x \<noteq> Err e"
  by (cases x) auto

lemma bind_res_Err_iff: "bind_res m f = Err e \<longleftrightarrow> m = Err e \<or> (\<exists>x. m = Ok x \<and> f x = Err e)"
  by (cases m) auto

text \<open>Indexing \<open>xs[i]\<close> and slicing \<open>xs[i..]\<close> panic out of range.\<close>

definition vec_index :: "'a list \<Rightarrow> nat \<Rightarrow> ('e, 'a) res" where
  "vec_index xs i = (if i < length xs then Ok (xs ! i) else Panic)"

definition slice_from :: "'a list \<Rightarrow> nat \<Rightarrow> ('e, 'a list) res" where
  "slice_from xs i = (if i \<le> length xs then Ok (drop i xs) else Panic)"

section \<open>Little-endian numbers\<close>

definition u16_from_le :: "u8 \<Rightarrow> u8 \<Rightarrow> u16" where
  "u16_from_le b0 b1 = word_of_nat (unat b0 + 256 * unat b1)"

definition u32_from_le :: "u8 \<Rightarrow> u8 \<Rightarrow> u8 \<Rightarrow> u8 \<Rightarrow> u32" where
  "u32_from_le b0 b1 b2 b3 =
     word_of_nat (unat b0 + 256 * unat b1 + 65536 * unat b2 + 16777216 * unat b3)"

definition u32_to_le :: "nat \<Rightarrow> u8 list" where
  "u32_to_le n = [word_of_nat n, word_of_nat (n div 256), word_of_nat (n div 65536),
                  word_of_nat (n div 16777216)]"

lemma unat_u8_less: "unat (b :: u8) < 256"
  using unsigned_less [of b] by simp

lemma unat_u32_of_nat: "n < 2 ^ 32 \<Longrightarrow> unat (word_of_nat n :: u32) = n"
  by (simp add: unsigned_of_nat take_bit_nat_eq_self)

lemma unat_u8_of_nat: "unat (word_of_nat n :: u8) = n mod 256"
  by (simp add: unsigned_of_nat take_bit_eq_mod)

lemma unat_u32_from_le:
  "unat (u32_from_le b0 b1 b2 b3) =
     unat b0 + 256 * unat b1 + 65536 * unat b2 + 16777216 * unat b3"
proof -
  have "unat b0 + 256 * unat b1 + 65536 * unat b2 + 16777216 * unat b3 < 2 ^ 32"
    using unat_u8_less [of b0] unat_u8_less [of b1] unat_u8_less [of b2] unat_u8_less [of b3]
    by simp
  then show ?thesis
    unfolding u32_from_le_def by (rule unat_u32_of_nat)
qed

lemma length_u32_to_le [simp]: "length (u32_to_le n) = 4"
  by (simp add: u32_to_le_def)

lemma u32_le_roundtrip:
  assumes "n < 2 ^ 32"
  shows "\<exists>b0 b1 b2 b3. u32_to_le n = [b0, b1, b2, b3] \<and> unat (u32_from_le b0 b1 b2 b3) = n"
proof -
  define q1 where "q1 = n div 256"
  define q2 where "q2 = q1 div 256"
  define q3 where "q3 = q2 div 256"
  have div: "n div 65536 = q2" "n div 16777216 = q3" "n div 256 = q1"
    by (simp_all add: q1_def q2_def q3_def div_mult2_eq [symmetric])
  have "q3 < 256"
    using assms by (simp add: div(2) [symmetric] less_mult_imp_div_less)
  then have q3: "q3 mod 256 = q3" by simp
  have "n = 256 * q1 + n mod 256" "q1 = 256 * q2 + q1 mod 256" "q2 = 256 * q3 + q2 mod 256"
    unfolding q1_def q2_def q3_def by (simp_all only: mult_div_mod_eq)
  then have sum: "n mod 256 + 256 * (q1 mod 256) + 65536 * (q2 mod 256) + 16777216 * (q3 mod 256) = n"
    unfolding q3 by linarith
  have "unat (u32_from_le (word_of_nat n) (word_of_nat q1) (word_of_nat q2) (word_of_nat q3)) = n"
    by (simp only: unat_u32_from_le unat_u8_of_nat sum)
  then show ?thesis
    unfolding u32_to_le_def div by blast
qed

section \<open>Lists\<close>

lemma sort_key_unique:
  assumes "mset xs = mset ys" and "inj_on f (set xs)" and "sorted (map f ys)" and "distinct xs"
  shows "sort_key f xs = ys"
proof -
  have set: "set xs = set ys" using assms(1) by (rule mset_eq_setD)
  have "distinct ys" using mset_eq_imp_distinct_iff [OF assms(1)] assms(4) by simp
  then have d: "distinct (map f (sort_key f xs))" "distinct (map f ys)"
    using assms(2,4) set by (simp_all add: distinct_map)
  show ?thesis
    by (rule map_sorted_distinct_set_unique [of f])
      (use assms(2,3) set d in \<open>auto simp: sorted_sort_key\<close>)
qed

end
