(* ===== verification/Rust_Text.thy ===== *)
theory Rust_Text
  imports Prelude
begin

text \<open>
  The functions of Rust's standard library on text that the program calls. A Rust string is
  modelled as a \<open>string\<close> whose characters are Unicode scalar values of the Latin-1 block
  (U+0000 to U+00FF): \<open>u8 as char\<close> is exact on it, and \<open>char::is_whitespace\<close> holds for
  the eight values listed in \<open>is_ws\<close>. Lengths in bytes are those of UTF-8.
\<close>

section \<open>Characters\<close>

definition is_ws :: "char \<Rightarrow> bool" where
  "is_ws c = (let n = of_char c :: nat in (9 \<le> n \<and> n \<le> 13) \<or> n = 32 \<or> n = 133 \<or> n = 160)"

definition char_of_u8 :: "u8 \<Rightarrow> char" where
  "char_of_u8 b = char_of (unat b)"

definition u8_of_char :: "char \<Rightarrow> u8" where
  "u8_of_char c = word_of_nat (of_char c)"

lemma char_u8_roundtrip [simp]: "char_of_u8 (u8_of_char c) = c"
proof -
  have "(of_char c :: nat) < 256" by (metis nat_of_char_less_256)
  then show ?thesis by (simp add: char_of_u8_def u8_of_char_def unat_u8_of_nat)
qed

lemma u8_of_char_inj: "u8_of_char c = u8_of_char d \<Longrightarrow> c = d"
  by (metis char_u8_roundtrip)

definition to_lower :: "char \<Rightarrow> char" where
  "to_lower c = (let n = of_char c :: nat in if 65 \<le> n \<and> n \<le> 90 then char_of (n + 32) else c)"

definition to_upper :: "char \<Rightarrow> char" where
  "to_upper c = (let n = of_char c :: nat in if 97 \<le> n \<and> n \<le> 122 then char_of (n - 32) else c)"

definition is_alnum :: "char \<Rightarrow> bool" where
  "is_alnum c = (let n = of_char c :: nat in
     (48 \<le> n \<and> n \<le> 57) \<or> (65 \<le> n \<and> n \<le> 90) \<or> (97 \<le> n \<and> n \<le> 122))"

definition utf8_len :: "string \<Rightarrow> nat" where
  "utf8_len s = sum_list (map (\<lambda>c. if (of_char c :: nat) < 128 then 1 else 2) s)"

section \<open>Trimming and splitting\<close>

definition trim :: "string \<Rightarrow> string" where
  "trim s = rev (dropWhile is_ws (rev (dropWhile is_ws s)))"

function split_whitespace :: "string \<Rightarrow> string list" where
  "split_whitespace s =
     (let t = dropWhile is_ws s
      in if t = [] then []
         else takeWhile (\<lambda>c. \<not> is_ws c) t # split_whitespace (dropWhile (\<lambda>c. \<not> is_ws c) t))"
  by pat_completeness auto
termination
proof (relation "measure length", simp, goal_cases)
  case (1 s t)
  then have hd: "\<not> is_ws (hd t)" using hd_dropWhile by blast
  from 1 have len: "length t \<le> length s" by (simp add: length_dropWhile_le)
  from 1(2) obtain c cs where "t = c # cs" by (cases t) auto
  then have "length (dropWhile (\<lambda>c. \<not> is_ws c) t) \<le> length cs"
    using hd by (simp add: length_dropWhile_le)
  with len \<open>t = c # cs\<close> show ?case by simp
qed

declare split_whitespace.simps [simp del]

lemma dropWhile_no_ws: "\<forall>c \<in> set w. \<not> is_ws c \<Longrightarrow> w \<noteq> [] \<Longrightarrow> dropWhile is_ws (w @ r) = w @ r"
  by (cases w) auto

lemma split_ws_word [std_simps]:
  assumes "\<forall>c \<in> set w. \<not> is_ws c" and "w \<noteq> []"
  shows "split_whitespace w = [w]"
proof -
  have "dropWhile is_ws w = w" using dropWhile_no_ws [OF assms, of "[]"] by simp
  moreover have "takeWhile (\<lambda>c. \<not> is_ws c) w = w"
    using assms by (simp add: takeWhile_eq_all_conv)
  moreover have "dropWhile (\<lambda>c. \<not> is_ws c) w = []"
    using assms by simp
  ultimately show ?thesis
    using assms(2) by (simp del: dropWhile_eq_Nil_conv dropWhile_eq_self_iff takeWhile_eq_all_conv add: split_whitespace.simps [of w] split_whitespace.simps [of "[]"])
qed

lemma split_ws_cons [std_simps]:
  assumes "\<forall>c \<in> set w. \<not> is_ws c" and "w \<noteq> []" and "is_ws d"
  shows "split_whitespace (w @ d # r) = w # split_whitespace r"
proof -
  have "dropWhile is_ws (w @ d # r) = w @ d # r" by (rule dropWhile_no_ws) fact+
  moreover have "takeWhile (\<lambda>c. \<not> is_ws c) (w @ d # r) = w"
    "dropWhile (\<lambda>c. \<not> is_ws c) (w @ d # r) = d # r"
    using assms by (auto simp: takeWhile_append dropWhile_append)
  moreover have "split_whitespace (d # r) = split_whitespace r"
    using assms(3) by (simp add: split_whitespace.simps [of "d # r"] split_whitespace.simps [of r])
  ultimately show ?thesis
    using assms(2) by (simp add: split_whitespace.simps [of "w @ d # r"])
qed

lemma trim_id: "s \<noteq> [] \<Longrightarrow> \<not> is_ws (hd s) \<Longrightarrow> \<not> is_ws (last s) \<Longrightarrow> trim s = s"
proof -
  assume s: "s \<noteq> []" "\<not> is_ws (hd s)" "\<not> is_ws (last s)"
  then have "dropWhile is_ws s = s" by (cases s) auto
  moreover have "dropWhile is_ws (rev s) = rev s"
    using s by (cases s rule: rev_cases) auto
  ultimately show "trim s = s" by (simp add: trim_def)
qed

section \<open>Numbers\<close>

definition digit_char :: "nat \<Rightarrow> char" where
  "digit_char d = (if d < 10 then char_of (48 + d) else char_of (87 + d))"

fun show_base :: "nat \<Rightarrow> nat \<Rightarrow> string" where
  "show_base b n = (if b < 2 \<or> n < b then [digit_char n]
                    else show_base b (n div b) @ [digit_char (n mod b)])"

declare show_base.simps [simp del]

definition show_dec :: "nat \<Rightarrow> string" where "show_dec n = show_base 10 n"
definition show_hex :: "nat \<Rightarrow> string" where "show_hex n = show_base 16 n"

definition pad_left :: "nat \<Rightarrow> char \<Rightarrow> string \<Rightarrow> string" where
  "pad_left w c s = replicate (w - length s) c @ s"

text \<open>\<open>str::parse::<u32>\<close>: an optional plus sign, at least one digit, and no overflow.\<close>

definition digit_val :: "char \<Rightarrow> nat option" where
  "digit_val c = (let n = of_char c :: nat in if 48 \<le> n \<and> n \<le> 57 then Some (n - 48) else None)"

fun parse_digits :: "nat \<Rightarrow> string \<Rightarrow> nat option" where
  "parse_digits acc [] = Some acc"
| "parse_digits acc (c # cs) =
     (case digit_val c of
        None \<Rightarrow> None
      | Some d \<Rightarrow> if 10 * acc + d < 2 ^ 32 then parse_digits (10 * acc + d) cs else None)"

definition parse_u32 :: "string \<Rightarrow> u32 option" where
  "parse_u32 s =
     (let ds = (case s of c # cs \<Rightarrow> if c = CHR ''+'' then cs else s | [] \<Rightarrow> s)
      in if ds = [] then None else map_option word_of_nat (parse_digits 0 ds))"

lemma digit_val_digit_char: "d < 10 \<Longrightarrow> digit_val (digit_char d) = Some d"
  by (simp add: digit_val_def digit_char_def Let_def)

lemma digit_char_not_ws: "d < 10 \<Longrightarrow> \<not> is_ws (digit_char d)"
  by (simp add: is_ws_def digit_char_def Let_def)

lemma show_dec_digits: "\<forall>c \<in> set (show_dec n). \<exists>d < 10. c = digit_char d"
  unfolding show_dec_def
proof (induction "10 :: nat" n rule: show_base.induct)
  case (1 n)
  have "\<exists>d<10. digit_char (n mod 10) = digit_char d"
    by (rule exI [of _ "n mod 10"]) simp
  with 1 show ?case by (cases "n < 10") (auto simp: show_base.simps [of 10 n])
qed

lemma show_dec_not_empty [simp]: "show_dec n \<noteq> []"
  by (simp add: show_dec_def show_base.simps [of 10 n])

lemma show_dec_not_ws: "\<forall>c \<in> set (show_dec n). \<not> is_ws c"
  using show_dec_digits [of n] digit_char_not_ws by auto

lemma parse_digits_snoc:
  "parse_digits acc (s @ [c]) =
     (case parse_digits acc s of None \<Rightarrow> None | Some m \<Rightarrow> parse_digits m [c])"
  by (induction acc s rule: parse_digits.induct) (auto split: option.splits)

lemma parse_digits_show_dec: "n < 2 ^ 32 \<Longrightarrow> parse_digits 0 (show_dec n) = Some n"
  unfolding show_dec_def
proof (induction "10 :: nat" n rule: show_base.induct)
  case (1 n)
  show ?case
  proof (cases "n < 10")
    case True
    then show ?thesis
      by (simp add: show_base.simps [of 10 n] digit_val_digit_char)
  next
    case False
    then have "parse_digits 0 (show_base 10 (n div 10)) = Some (n div 10)"
      using 1 by simp
    moreover have "10 * (n div 10) + n mod 10 = n" by simp
    ultimately show ?thesis
      using False 1(2)
      by (simp add: show_base.simps [of 10 n] parse_digits_snoc digit_val_digit_char)
  qed
qed

theorem parse_show_u32: "parse_u32 (show_dec (unat p)) = Some p"
proof -
  obtain c cs where s: "show_dec (unat p) = c # cs" by (cases "show_dec (unat p)") auto
  have "c \<in> set (show_dec (unat p))" by (simp add: s)
  then obtain d where "d < 10" "c = digit_char d" using show_dec_digits by blast
  then have "digit_val c = Some d" by (simp add: digit_val_digit_char)
  then have "c \<noteq> CHR ''+''" by (auto simp: digit_val_def)
  moreover have "unat p < 2 ^ 32" using unsigned_less [of p] by simp
  ultimately show ?thesis
    using parse_digits_show_dec [of "unat p"] by (simp add: parse_u32_def s)
qed

end
