(* ===== verification/Job_Tracker.thy ===== *)
theory Job_Tracker
  imports Rust_Text
begin

text \<open>
  The \<open>JobTracker\<close> of \<open>crates/malbox-controller/src/job.rs\<close>: the table of jobs that HTTP
  handlers and job tasks share, and the event channel of each job. Every operation holds the
  table's lock for its whole body, so it is one atomic step here.

  A broadcast channel is the list of the values sent on it, in a store indexed by channel
  number; a receiver is a channel and the number of values sent before it subscribed. A
  channel is open while the job's entry holds its sender.
\<close>

section \<open>Data\<close>

datatype job_status =
    Queued | SpawningVm | Bootstrapping | Uploading | Analyzing | Completed | Failed

datatype job_event =
    StatusChanged string
  | ErrorEvent string
  | CompletedEvent i32 u64

record analysis_result =
  ar_exit_code :: i32
  ar_runtime_ms :: u64
  ar_features_json :: string

record job =
  jb_id :: string
  jb_status :: job_status
  jb_sample_name :: string
  jb_sample_path :: string
  jb_timeout_secs :: u32
  jb_created_at :: u64
  jb_result :: "analysis_result option"
  jb_tx :: "nat option"

record job_info =
  ji_id :: string
  ji_status :: job_status
  ji_sample_name :: string
  ji_created_at :: u64
  ji_result :: "analysis_result option"

record job_tracker =
  tk_jobs :: "string \<rightharpoonup> job"
  tk_sent :: "nat \<Rightarrow> job_event list"
  tk_next :: nat

text \<open>
  The two spellings of a status: the derived \<open>Debug\<close> name in lower case, which \<open>set_status\<close>
  sends, and the snake case of \<open>serde\<close>, which \<open>GET /jobs/{id}\<close> returns.
\<close>

fun status_debug :: "job_status \<Rightarrow> string" where
  "status_debug Queued = ''Queued''"
| "status_debug SpawningVm = ''SpawningVm''"
| "status_debug Bootstrapping = ''Bootstrapping''"
| "status_debug Uploading = ''Uploading''"
| "status_debug Analyzing = ''Analyzing''"
| "status_debug Completed = ''Completed''"
| "status_debug Failed = ''Failed''"

definition status_event_name :: "job_status \<Rightarrow> string" where
  "status_event_name s = map to_lower (status_debug s)"

fun status_json :: "job_status \<Rightarrow> string" where
  "status_json Queued = ''queued''"
| "status_json SpawningVm = ''spawning_vm''"
| "status_json Bootstrapping = ''bootstrapping''"
| "status_json Uploading = ''uploading''"
| "status_json Analyzing = ''analyzing''"
| "status_json Completed = ''completed''"
| "status_json Failed = ''failed''"

lemma status_event_names:
  "status_event_name Queued = ''queued''" "status_event_name SpawningVm = ''spawningvm''"
  "status_event_name Bootstrapping = ''bootstrapping''" "status_event_name Uploading = ''uploading''"
  "status_event_name Analyzing = ''analyzing''" "status_event_name Completed = ''completed''"
  "status_event_name Failed = ''failed''"
  by code_simp+

section \<open>Operations\<close>

definition new_tracker :: job_tracker where
  "new_tracker = \<lparr>tk_jobs = Map.empty, tk_sent = (\<lambda>_. []), tk_next = 0\<rparr>"

definition tx_send :: "job_tracker \<Rightarrow> nat option \<Rightarrow> job_event \<Rightarrow> job_tracker" where
  "tx_send t tx e = (case tx of
       None \<Rightarrow> t
     | Some k \<Rightarrow> t\<lparr>tk_sent := (tk_sent t)(k := tk_sent t k @ [e])\<rparr>)"

definition submit :: "job_tracker \<Rightarrow> string \<Rightarrow> string \<Rightarrow> string \<Rightarrow> u32 \<Rightarrow> u64 \<Rightarrow> job_tracker \<times> string" where
  "submit t jid sample_path sample_name timeout_secs created_at =
     (let tx = tk_next t;
          jb = \<lparr>jb_id = jid, jb_status = Queued, jb_sample_name = sample_name,
                jb_sample_path = sample_path, jb_timeout_secs = timeout_secs,
                jb_created_at = created_at, jb_result = None, jb_tx = Some tx\<rparr>
      in (t\<lparr>tk_jobs := (tk_jobs t)(jid \<mapsto> jb), tk_next := Suc tx\<rparr>, jid))"

definition get_info :: "job_tracker \<Rightarrow> string \<Rightarrow> job_info option" where
  "get_info t jid = map_option (\<lambda>j.
     \<lparr>ji_id = jb_id j, ji_status = jb_status j, ji_sample_name = jb_sample_name j,
      ji_created_at = jb_created_at j, ji_result = jb_result j\<rparr>) (tk_jobs t jid)"

definition subscribe :: "job_tracker \<Rightarrow> string \<Rightarrow> (nat \<times> nat) option" where
  "subscribe t jid = Option.bind (tk_jobs t jid) (\<lambda>j.
     map_option (\<lambda>tx. (tx, length (tk_sent t tx))) (jb_tx j))"

definition cancel :: "job_tracker \<Rightarrow> string \<Rightarrow> job_tracker \<times> bool" where
  "cancel t jid = (t\<lparr>tk_jobs := (tk_jobs t)(jid := None)\<rparr>, tk_jobs t jid \<noteq> None)"

definition has :: "job_tracker \<Rightarrow> string \<Rightarrow> bool" where
  "has t jid = (tk_jobs t jid \<noteq> None)"

definition set_status :: "job_status \<Rightarrow> job_tracker \<Rightarrow> string \<Rightarrow> job_tracker" where
  "set_status status t jid = (case tk_jobs t jid of
       None \<Rightarrow> t
     | Some j \<Rightarrow>
         (let t1 = tx_send t (jb_tx j) (StatusChanged (status_event_name status))
          in t1\<lparr>tk_jobs := (tk_jobs t1)(jid \<mapsto> j\<lparr>jb_status := status\<rparr>)\<rparr>))"

definition set_result :: "analysis_result \<Rightarrow> job_tracker \<Rightarrow> string \<Rightarrow> job_tracker" where
  "set_result r t jid = (case tk_jobs t jid of
       None \<Rightarrow> t
     | Some j \<Rightarrow>
         (let t1 = tx_send t (jb_tx j) (CompletedEvent (ar_exit_code r) (ar_runtime_ms r))
          in t1\<lparr>tk_jobs := (tk_jobs t1)(jid \<mapsto>
               j\<lparr>jb_tx := None, jb_result := Some r, jb_status := Completed\<rparr>)\<rparr>))"

definition emit_error :: "string \<Rightarrow> job_tracker \<Rightarrow> string \<Rightarrow> job_tracker" where
  "emit_error msg t jid = (case tk_jobs t jid of
       None \<Rightarrow> t
     | Some j \<Rightarrow>
         (let t1 = tx_send t (jb_tx j) (ErrorEvent msg)
          in t1\<lparr>tk_jobs := (tk_jobs t1)(jid \<mapsto> j\<lparr>jb_tx := None\<rparr>)\<rparr>))"

section \<open>The contract of the operations of a job task\<close>

text \<open>
  \<open>set_status\<close>, \<open>set_result\<close> and \<open>emit_error\<close> share a contract: they rewrite the entry of their
  own job if it is there, and touch nothing else. So a task can neither bring a cancelled job
  back nor disturb another job.
\<close>

locale keyed_update =
  fixes op :: "'t \<Rightarrow> string \<Rightarrow> 't"
    and look :: "'t \<Rightarrow> string \<Rightarrow> 'j option"
    and upd :: "'j \<Rightarrow> 'j"
  assumes look_op: "look (op t jid) k = (if k = jid then map_option upd (look t k) else look t k)"
begin

lemma absent_stays: "look t k = None \<Longrightarrow> look (op t jid) k = None"
  by (auto simp: look_op)

lemma present_stays: "look t k \<noteq> None \<Longrightarrow> look (op t jid) k \<noteq> None"
  by (auto simp: look_op)

lemma other_untouched: "k \<noteq> jid \<Longrightarrow> look (op t jid) k = look t k"
  by (simp add: look_op)

lemma own_updated: "look t jid = Some j \<Longrightarrow> look (op t jid) jid = Some (upd j)"
  by (simp add: look_op)

end

text \<open>The operations also send: one value, on the channel of their own job if it is open.\<close>

locale job_update = keyed_update +
  fixes sent :: "'a \<Rightarrow> nat \<Rightarrow> job_event list"
    and tx :: "'b \<Rightarrow> nat option"
    and ev :: job_event
  assumes sent_op: "sent (op t jid) c = sent t c @
      (if Option.bind (look t jid) tx = Some c then [ev] else [])"
begin

lemma absent_sends_nothing: "look t jid = None \<Longrightarrow> sent (op t jid) = sent t"
  by (simp add: fun_eq_iff sent_op)

lemma closed_sends_nothing: "look t jid = Some j \<Longrightarrow> tx j = None \<Longrightarrow> sent (op t jid) = sent t"
  by (simp add: fun_eq_iff sent_op)

lemma other_channel: "Option.bind (look t jid) tx \<noteq> Some c \<Longrightarrow> sent (op t jid) c = sent t c"
  by (simp add: sent_op)

end

lemma tx_send_simps [tracker_simps]:
  "tk_jobs (tx_send t tx e) = tk_jobs t"
  "tk_next (tx_send t tx e) = tk_next t"
  "tk_sent (tx_send t tx e) c = tk_sent t c @ (if tx = Some c then [e] else [])"
  by (auto simp: tx_send_def split: option.splits)

interpretation status: job_update "set_status s" tk_jobs "\<lambda>j. j\<lparr>jb_status := s\<rparr>" tk_sent jb_tx
    "StatusChanged (status_event_name s)" for s
  by unfold_locales (auto simp: set_status_def tracker_simps Let_def split: option.splits)

interpretation result: job_update "set_result r" tk_jobs
    "\<lambda>j. j\<lparr>jb_tx := None, jb_result := Some r, jb_status := Completed\<rparr>" tk_sent jb_tx
    "CompletedEvent (ar_exit_code r) (ar_runtime_ms r)" for r
  by unfold_locales (auto simp: set_result_def tracker_simps Let_def split: option.splits)

interpretation err: job_update "emit_error msg" tk_jobs "\<lambda>j. j\<lparr>jb_tx := None\<rparr>" tk_sent jb_tx
    "ErrorEvent msg" for msg
  by unfold_locales (auto simp: emit_error_def tracker_simps Let_def split: option.splits)

lemmas task_updates = status.look_op result.look_op err.look_op
lemmas task_sends = status.sent_op result.sent_op err.sent_op

lemma task_next [tracker_simps]:
  "tk_next (set_status s t jid) = tk_next t"
  "tk_next (set_result r t jid) = tk_next t"
  "tk_next (emit_error m t jid) = tk_next t"
  by (simp_all add: set_status_def set_result_def emit_error_def tracker_simps Let_def
      split: option.splits)

lemma submit_simps [tracker_simps]:
  "tk_sent (fst (submit t jid path name timeout now)) = tk_sent t"
  "tk_next (fst (submit t jid path name timeout now)) = Suc (tk_next t)"
  "tk_jobs (fst (submit t jid path name timeout now)) k =
     (if k = jid then Some \<lparr>jb_id = jid, jb_status = Queued, jb_sample_name = name,
        jb_sample_path = path, jb_timeout_secs = timeout, jb_created_at = now, jb_result = None,
        jb_tx = Some (tk_next t)\<rparr> else tk_jobs t k)"
  by (simp_all add: submit_def Let_def)

lemma cancel_simps [tracker_simps]:
  "tk_sent (fst (cancel t jid)) = tk_sent t"
  "tk_next (fst (cancel t jid)) = tk_next t"
  "tk_jobs (fst (cancel t jid)) k = (if k = jid then None else tk_jobs t k)"
  by (simp_all add: cancel_def)

end
