(* ===== verification/Rust_Path.thy ===== *)
theory Rust_Path
  imports Rust_Text
begin

text \<open>
  \<open>std::path\<close> as the program uses it: \<open>components\<close>, \<open>file_name\<close>, \<open>join\<close> and
  \<open>starts_with\<close>, for Unix (the controller) and for Windows (the agent). A component list
  is compared component by component; repeated separators and inner \<open>.\<close> components
  disappear, \<open>..\<close> components stay: nothing in \<open>std::path\<close> resolves them.
\<close>

section \<open>Components\<close>

datatype win_prefix =
    Disk char
  | Verbatim string
  | VerbatimUNC string string
  | VerbatimDisk char
  | DeviceNS string
  | UNC string string

datatype component = Prefix win_prefix | RootDir | CurDir | ParentDir | Normal string

fun split_on :: "(char \<Rightarrow> bool) \<Rightarrow> string \<Rightarrow> string list" where
  "split_on p [] = [[]]"
| "split_on p (c # cs) =
     (if p c then [] # split_on p cs
      else (case split_on p cs of [] \<Rightarrow> [[c]] | x # xs \<Rightarrow> (c # x) # xs))"

definition seg_component :: "bool \<Rightarrow> string \<Rightarrow> component list" where
  "seg_component verbatim s =
     (if s = [] then []
      else if s = ''.'' then (if verbatim then [CurDir] else [])
      else if s = ''..'' then [ParentDir] else [Normal s])"

definition body_components :: "bool \<Rightarrow> (char \<Rightarrow> bool) \<Rightarrow> string \<Rightarrow> component list" where
  "body_components verbatim sep s = concat (map (seg_component verbatim) (split_on sep s))"

definition leading_cur_dir :: "(char \<Rightarrow> bool) \<Rightarrow> string \<Rightarrow> bool" where
  "leading_cur_dir sep s = (case s of
       [] \<Rightarrow> False
     | c # cs \<Rightarrow> c = CHR ''.'' \<and> (case cs of [] \<Rightarrow> True | d # _ \<Rightarrow> sep d))"

definition last_normal :: "component list \<Rightarrow> string option" where
  "last_normal cs = (if cs = [] then None else case last cs of Normal s \<Rightarrow> Some s | _ \<Rightarrow> None)"

lemma split_on_nonempty [simp]: "split_on p s \<noteq> []"
  by (cases s) (auto split: list.splits)

lemma split_on_append:
  "p c \<Longrightarrow> split_on p (a @ c # b) = split_on p a @ split_on p b"
  by (induction a) (auto split: list.splits)

lemma split_on_none: "\<forall>c \<in> set s. \<not> p c \<Longrightarrow> split_on p s = [s]"
  by (induction s) auto

lemma split_on_no_sep: "x \<in> set (split_on p s) \<Longrightarrow> c \<in> set x \<Longrightarrow> \<not> p c \<and> c \<in> set s"
  by (induction s arbitrary: x) (fastforce split: if_splits list.splits)+

lemma body_append [std_simps]:
  "sep c \<Longrightarrow> body_components v sep (a @ c # b) = body_components v sep a @ body_components v sep b"
  by (simp add: body_components_def split_on_append)

lemma body_sep_cons [std_simps]:
  "sep c \<Longrightarrow> body_components v sep (c # b) = body_components v sep b"
  using body_append [of sep c v "[]" b] by (simp add: body_components_def seg_component_def)

lemma body_single [std_simps]:
  "\<forall>c \<in> set s. \<not> sep c \<Longrightarrow> body_components v sep s = seg_component v s"
  by (simp add: body_components_def split_on_none)

lemma body_Normal_no_sep:
  assumes "Normal x \<in> set (body_components v sep s)"
  shows "x \<noteq> [] \<and> x \<noteq> ''.'' \<and> x \<noteq> ''..'' \<and> (\<forall>c \<in> set x. \<not> sep c \<and> c \<in> set s)"
proof -
  from assms obtain y where y: "y \<in> set (split_on sep s)" "Normal x \<in> set (seg_component v y)"
    by (auto simp: body_components_def)
  then have "y = x" "x \<noteq> []" "x \<noteq> ''.''" "x \<noteq> ''..''"
    by (auto simp: seg_component_def split: if_splits)
  with y(1) show ?thesis using split_on_no_sep [of x sep s] by blast
qed

lemma last_normal_SomeD: "last_normal cs = Some s \<Longrightarrow> Normal s \<in> set cs"
  by (auto simp: last_normal_def split: if_splits component.splits dest: last_in_set)

lemma last_normal_append [simp]: "last_normal (cs @ [Normal s]) = Some s"
  by (simp add: last_normal_def)

section \<open>Unix paths\<close>

definition unix_sep :: "char \<Rightarrow> bool" where "unix_sep c = (c = CHR ''/'')"

definition unix_components :: "string \<Rightarrow> component list" where
  "unix_components s =
     (if s \<noteq> [] \<and> unix_sep (hd s) then RootDir # body_components False unix_sep s
      else if leading_cur_dir unix_sep s then CurDir # body_components False unix_sep s
      else body_components False unix_sep s)"

definition unix_file_name :: "string \<Rightarrow> string option" where
  "unix_file_name s = last_normal (unix_components s)"

definition unix_join :: "string \<Rightarrow> string \<Rightarrow> string" where
  "unix_join a b =
     (if b \<noteq> [] \<and> unix_sep (hd b) then b
      else if a = [] \<or> unix_sep (last a) then a @ b else a @ CHR ''/'' # b)"

definition unix_normal :: "string \<Rightarrow> bool" where
  "unix_normal s \<longleftrightarrow> s \<noteq> [] \<and> s \<noteq> ''.'' \<and> s \<noteq> ''..'' \<and> (\<forall>c \<in> set s. \<not> unix_sep c)"

lemma unix_file_name_normal:
  assumes "unix_file_name s = Some n"
  shows "unix_normal n"
proof -
  have "Normal n \<in> set (unix_components s)"
    using assms by (auto simp: unix_file_name_def dest: last_normal_SomeD)
  then have "Normal n \<in> set (body_components False unix_sep s)"
    by (auto simp: unix_components_def split: if_splits)
  then show ?thesis using body_Normal_no_sep unfolding unix_normal_def by blast
qed

lemma leading_cur_dir_append:
  assumes "a \<noteq> []" and "sep c"
  shows "leading_cur_dir sep (a @ c # b) = leading_cur_dir sep a"
  using assms by (cases a) (auto simp: leading_cur_dir_def split: list.splits)

lemma unix_components_join:
  assumes n: "unix_normal n"
  shows "unix_components (unix_join d n) = unix_components d @ [Normal n]"
proof -
  have hn: "\<not> unix_sep (hd n)" "n \<noteq> []" "\<not> leading_cur_dir unix_sep n"
    using n by (auto simp: unix_normal_def leading_cur_dir_def split: list.splits)
  have body: "body_components False unix_sep n = [Normal n]"
    using n by (simp add: unix_normal_def std_simps seg_component_def)
  have slash: "unix_sep CHR ''/''" by (simp add: unix_sep_def)
  consider "d = []" | e where "d = e @ ''/''" | "d \<noteq> []" "\<not> unix_sep (last d)"
    by (cases d rule: rev_cases) (auto simp: unix_sep_def)
  then show ?thesis
  proof cases
    case 1
    then show ?thesis using hn body
      by (simp add: unix_join_def unix_components_def leading_cur_dir_def
          body_components_def [of _ _ "[]"] seg_component_def)
  next
    case 2
    have e: "body_components False unix_sep (e @ CHR ''/'' # n) = body_components False unix_sep (e @ ''/'') @ [Normal n]"
      using body_append [of unix_sep "CHR ''/''" False e n] body_append [of unix_sep "CHR ''/''" False e "[]"]
        body slash by (simp add: body_components_def [of _ _ "[]"] seg_component_def)
    show ?thesis
    proof (cases "e = []")
      case True
      with 2 e hn slash show ?thesis by (simp add: unix_join_def unix_components_def)
    next
      case False
      with 2 e hn slash show ?thesis
        by (simp add: unix_join_def unix_components_def leading_cur_dir_append)
    qed
  next
    case 3
    then show ?thesis using hn body slash
      by (simp add: unix_join_def unix_components_def leading_cur_dir_append body_append)
  qed
qed

lemma unix_normal_hd: "unix_normal n \<Longrightarrow> n \<noteq> [] \<and> \<not> unix_sep (hd n)"
  by (auto simp: unix_normal_def)

section \<open>Windows paths\<close>

abbreviation bslash :: char where "bslash \<equiv> CHR 0x5C"

definition win_sep :: "char \<Rightarrow> bool" where "win_sep c = (c = bslash \<or> c = CHR ''/'')"
definition verbatim_sep :: "char \<Rightarrow> bool" where "verbatim_sep c = (c = bslash)"

definition is_alpha :: "char \<Rightarrow> bool" where
  "is_alpha c = (let n = of_char c :: nat in (65 \<le> n \<and> n \<le> 90) \<or> (97 \<le> n \<and> n \<le> 122))"

text \<open>The prefix parser reads forward slashes as backslashes in the first eight characters.\<close>

definition norm8 :: "string \<Rightarrow> string" where
  "norm8 s = map (\<lambda>c. if c = CHR ''/'' then bslash else c) (take 8 s) @ drop 8 s"

definition begins :: "string \<Rightarrow> string \<Rightarrow> bool" where
  "begins p s \<longleftrightarrow> take (length p) s = p"

definition next_component :: "(char \<Rightarrow> bool) \<Rightarrow> string \<Rightarrow> string \<times> string" where
  "next_component sep s = (takeWhile (\<lambda>c. \<not> sep c) s, drop 1 (dropWhile (\<lambda>c. \<not> sep c) s))"

definition parse_drive :: "string \<Rightarrow> char option" where
  "parse_drive s = (case s of c # d # _ \<Rightarrow> if is_alpha c \<and> d = CHR '':'' then Some (to_upper c) else None
                    | _ \<Rightarrow> None)"

definition parse_drive_exact :: "string \<Rightarrow> char option" where
  "parse_drive_exact s = (if length s \<le> 2 \<or> win_sep (s ! 2) then parse_drive s else None)"

definition parse_prefix :: "string \<Rightarrow> win_prefix option" where
  "parse_prefix s =
     (if begins [bslash, bslash] (norm8 s) then
        (if begins [CHR ''?'', bslash] (drop 2 (norm8 s)) \<and> CHR ''/'' \<notin> set (take 4 s) then
           (if begins (''UNC'' @ [bslash]) (drop 4 (norm8 s)) then
              (let (server, r) = next_component verbatim_sep (drop 8 s);
                   (share, _) = next_component verbatim_sep r
               in Some (VerbatimUNC server share))
            else
              (case parse_drive_exact (drop 4 s) of
                 Some d \<Rightarrow> Some (VerbatimDisk d)
               | None \<Rightarrow> Some (Verbatim (fst (next_component verbatim_sep (drop 4 s))))))
         else if begins [CHR ''.'', bslash] (drop 2 (norm8 s)) then
           Some (DeviceNS (fst (next_component win_sep (drop 4 s))))
         else
           (let (server, r) = next_component win_sep (drop 2 s);
                (share, _) = next_component win_sep r
            in if server \<noteq> [] \<and> share \<noteq> [] then Some (UNC server share) else None))
      else map_option Disk (parse_drive s))"

fun prefix_len :: "win_prefix \<Rightarrow> nat" where
  "prefix_len (Verbatim x) = 4 + length x"
| "prefix_len (VerbatimUNC x y) = 8 + length x + (if y = [] then 0 else 1 + length y)"
| "prefix_len (VerbatimDisk _) = 6"
| "prefix_len (UNC x y) = 2 + length x + (if y = [] then 0 else 1 + length y)"
| "prefix_len (DeviceNS x) = 4 + length x"
| "prefix_len (Disk _) = 2"

fun is_verbatim :: "win_prefix \<Rightarrow> bool" where
  "is_verbatim (Verbatim _) = True"
| "is_verbatim (VerbatimUNC _ _) = True"
| "is_verbatim (VerbatimDisk _) = True"
| "is_verbatim _ = False"

fun implicit_root :: "win_prefix \<Rightarrow> bool" where
  "implicit_root (Disk _) = False"
| "implicit_root _ = True"

definition starts_sep :: "string \<Rightarrow> bool" where
  "starts_sep s \<longleftrightarrow> s \<noteq> [] \<and> win_sep (hd s)"

definition win_components :: "string \<Rightarrow> component list" where
  "win_components s = (case parse_prefix s of
       None \<Rightarrow>
         (if starts_sep s then RootDir # body_components False win_sep (tl s)
          else if leading_cur_dir win_sep s then CurDir # body_components False win_sep s
          else body_components False win_sep s)
     | Some p \<Rightarrow>
         (let r = drop (prefix_len p) s; v = is_verbatim p;
              sep = (if v then verbatim_sep else win_sep)
          in Prefix p #
             (if starts_sep r then RootDir # body_components v sep (tl r)
              else (if implicit_root p \<and> \<not> v then [RootDir] else []) @ body_components v sep r)))"

definition win_file_name :: "string \<Rightarrow> string option" where
  "win_file_name s = last_normal (win_components s)"

definition win_prefix_len :: "string \<Rightarrow> nat" where
  "win_prefix_len s = (case parse_prefix s of None \<Rightarrow> 0 | Some p \<Rightarrow> prefix_len p)"

text \<open>
  \<open>Path::join\<close> for a base that is not a verbatim path: an argument with a prefix replaces
  the base, one with a root keeps only the prefix of the base, any other is appended.
\<close>

definition win_join :: "string \<Rightarrow> string \<Rightarrow> string" where
  "win_join a b =
     (if parse_prefix b \<noteq> None then b
      else if starts_sep b then take (win_prefix_len a) a @ b
      else if a = [] \<or> win_sep (last a) \<or>
              (\<exists>d \<in> set_option (parse_prefix a). \<exists>c. d = Disk c \<and> length a = 2)
           then a @ b
      else a @ bslash # b)"

definition win_starts_with :: "string \<Rightarrow> string \<Rightarrow> bool" where
  "win_starts_with a b =
     (take (length (win_components b)) (win_components a) = win_components b)"

lemma win_file_name_no_sep:
  assumes "win_file_name s = Some n"
  shows "n \<noteq> [] \<and> n \<noteq> ''.'' \<and> n \<noteq> ''..'' \<and> bslash \<notin> set n"
proof -
  have "Normal n \<in> set (win_components s)"
    using assms by (auto simp: win_file_name_def dest: last_normal_SomeD)
  then have "\<exists>v sep r. (sep = win_sep \<or> sep = verbatim_sep) \<and> Normal n \<in> set (body_components v sep r)"
    by (auto simp: win_components_def Let_def split: option.splits if_splits)
  then show ?thesis
    using body_Normal_no_sep by (metis win_sep_def verbatim_sep_def)
qed

end
