(* ===== verification/Vm.thy ===== *)
theory Vm
  imports Rust_Path
begin

text \<open>
  \<open>crates/malbox-controller/src/vm.rs\<close> and the paths of \<open>config.rs\<close>: the virtual machine of a
  job, from the disk overlay to the domain and its address, and its removal.

  The host is the set of existing files and the sets of defined and running libvirt domains.
  What \<open>qemu-img\<close>, libvirt, the clock and the random generator answer is in a \<open>vm_env\<close> record;
  a libvirt call that succeeds has its documented effect on the host, one that fails has none.
  An \<open>anyhow\<close> error is its chain of messages, outermost first; \<open>context\<close> adds to the front
  and \<open>to_string\<close> shows the head. Log lines are not modelled.
\<close>

section \<open>Errors with context\<close>

type_synonym anyhow = "string list"

definition context_msg :: "string \<Rightarrow> (anyhow, 'a) res \<Rightarrow> (anyhow, 'a) res" where
  "context_msg c r = (case r of Ok x \<Rightarrow> Ok x | Err e \<Rightarrow> Err (c # e) | Panic \<Rightarrow> Panic)"

definition anyhow_to_string :: "anyhow \<Rightarrow> string" where
  "anyhow_to_string e = (case e of [] \<Rightarrow> [] | m # _ \<Rightarrow> m)"

section \<open>Data\<close>

record paths_config =
  pc_master_nvram :: string
  pc_master_image :: string
  pc_overlay_dir :: string
  pc_report_dir :: string
  pc_nvram_dir :: string

record host =
  ho_files :: "string set"
  ho_defined :: "string set"
  ho_running :: "string set"

record job_domain =
  jd_job_uuid :: string
  jd_vm_name :: string
  jd_overlay_path :: string
  jd_nvram_path :: string
  jd_mac :: string
  jd_ip_addr :: string

datatype domain_state =
    NoState | Running | Blocked | Paused | Shutdown | Shutoff | Crashed | PMSuspended | Unknown

definition VM_NAME_PREFIX :: string where "VM_NAME_PREFIX = ''malbox-job-''"

record vm_env =
  ve_uuid :: string
  ve_qemu :: "(string, bool \<times> string) res"      \<comment> \<open>spawn error, or exit success and stderr\<close>
  ve_copy :: "string option"                     \<comment> \<open>error of \<open>fs::copy\<close>\<close>
  ve_mac_suffix :: "u8 \<times> u8 \<times> u8"
  ve_define :: "string option"                   \<comment> \<open>errors of the libvirt calls\<close>
  ve_create :: "string option"
  ve_undefine_nvram :: "string option"
  ve_undefine :: "string option"
  ve_networks :: "(string, string option list) res"  \<comment> \<open>names; \<open>None\<close> if \<open>get_name\<close> fails\<close>
  ve_leases :: "nat \<Rightarrow> string option list"        \<comment> \<open>lease table at the n-th poll\<close>
  ve_poll_cost :: "nat \<Rightarrow> nat"                    \<comment> \<open>milliseconds the n-th poll takes\<close>
  ve_rm_fails :: "string \<Rightarrow> bool"

section \<open>Random identifiers\<close>

definition generate_alphanumeric :: "string \<Rightarrow> string" where
  "generate_alphanumeric sample = map to_upper sample"

definition generate_wwn :: "nat \<Rightarrow> nat \<Rightarrow> string" where
  "generate_wwn part1 part2 =
     ''0x5'' @ pad_left 7 (CHR ''0'') (show_hex part1) @ pad_left 8 (CHR ''0'') (show_hex part2)"

definition generate_disk_serial :: "string \<Rightarrow> string" where
  "generate_disk_serial sample = ''WD-WCC6Y'' @ generate_alphanumeric sample"

definition byte_HEX :: "u8 \<Rightarrow> string" where
  "byte_HEX b = map to_upper (pad_left 2 (CHR ''0'') (show_hex (unat b)))"

definition generate_mac :: "u8 \<times> u8 \<times> u8 \<Rightarrow> string" where
  "generate_mac suffix = (case suffix of (s0, s1, s2) \<Rightarrow>
     byte_HEX 0 @ '':'' @ byte_HEX 27 @ '':'' @ byte_HEX 33 @ '':'' @
     byte_HEX s0 @ '':'' @ byte_HEX s1 @ '':'' @ byte_HEX s2)"

section \<open>The domain description\<close>

text \<open>\<open>str::replace\<close> for a non-empty pattern: left to right, without overlaps.\<close>

fun str_replace :: "string \<Rightarrow> string \<Rightarrow> string \<Rightarrow> string" where
  "str_replace pat new [] = []"
| "str_replace pat new (c # cs) =
     (if pat \<noteq> [] \<and> take (length pat) (c # cs) = pat
      then new @ str_replace pat new (drop (length pat - 1) cs)
      else c # str_replace pat new cs)"

record serials =
  se_vm :: string
  se_chassis :: string
  se_disk :: string
  se_wwn1 :: nat
  se_wwn2 :: nat

definition render_domain ::
    "string \<Rightarrow> serials \<Rightarrow> string \<Rightarrow> string \<Rightarrow> string \<Rightarrow> string \<Rightarrow> string \<Rightarrow> string" where
  "render_domain template se name uuid overlay_path nvram_path mac =
     (let vm_serial = generate_alphanumeric (se_vm se);
          board_serial = ''/'' @ vm_serial @ ''/CN123456789012'';
          chassis_serial = generate_alphanumeric (se_chassis se);
          disk_serial = generate_disk_serial (se_disk se);
          disk_wwn = generate_wwn (se_wwn1 se) (se_wwn2 se)
      in fold (\<lambda>(key, new) s. str_replace (''{{'' @ key @ ''}}'') new s)
           [(''NAME'', name), (''UUID'', uuid), (''OVERLAY_PATH'', overlay_path),
            (''MAC_ADDRESS'', mac), (''NVRAM_PATH'', nvram_path), (''VM_SERIAL'', vm_serial),
            (''BOARD_SERIAL'', board_serial), (''CHASSIS_SERIAL'', chassis_serial),
            (''DISK_SERIAL'', disk_serial), (''DISK_WWN'', disk_wwn)] template)"

section \<open>Disk and firmware files\<close>

definition create_nvram :: "paths_config \<Rightarrow> vm_env \<Rightarrow> host \<Rightarrow> string \<Rightarrow> host \<times> (anyhow, unit) res" where
  "create_nvram cfg env h nvram_path =
     (if pc_master_nvram cfg \<notin> ho_files h then
        (h, Err [''master nvram not found at '' @ pc_master_nvram cfg])
      else if nvram_path \<in> ho_files h then
        (h, Err [''nvram already exists at '' @ nvram_path])
      else (case ve_copy env of
          Some e \<Rightarrow> (h, Err [e])
        | None \<Rightarrow> (h\<lparr>ho_files := insert nvram_path (ho_files h)\<rparr>, Ok ())))"

definition create_overlay :: "paths_config \<Rightarrow> vm_env \<Rightarrow> host \<Rightarrow> string \<Rightarrow> host \<times> (anyhow, unit) res" where
  "create_overlay cfg env h overlay_path =
     (if pc_master_image cfg \<notin> ho_files h then
        (h, Err [''master image not found at '' @ pc_master_image cfg])
      else if overlay_path \<in> ho_files h then
        (h, Err [''overlay already exists at '' @ overlay_path])
      else (case ve_qemu env of
          Err e \<Rightarrow> (h, Err [''invoking qemu-img'', e])
        | Panic \<Rightarrow> (h, Panic)
        | Ok (success, stderr) \<Rightarrow>
            (if success then (h\<lparr>ho_files := insert overlay_path (ho_files h)\<rparr>, Ok ())
             else (h, Err [''Failed to create overlay from golden image: '' @ trim stderr]))))"

definition remove_file :: "vm_env \<Rightarrow> string \<Rightarrow> host \<Rightarrow> host" where
  "remove_file env path h =
     (if ve_rm_fails env path then h else h\<lparr>ho_files := ho_files h - {path}\<rparr>)"

section \<open>Domains\<close>

text \<open>
  \<open>define_and_start\<close>; the description names the domain and its NVRAM file, which undefining
  with \<open>VIR_DOMAIN_UNDEFINE_NVRAM\<close> deletes. When the domain does not start and cannot be undefined with its NVRAM
  either, the inner \<open>e\<close> shadows the outer one, so the message reports the second failure.
\<close>

definition define_and_start ::
    "vm_env \<Rightarrow> host \<Rightarrow> string \<Rightarrow> string \<Rightarrow> host \<times> (anyhow, unit) res" where
  "define_and_start env h vm_name nvram_path = (case ve_define env of
       Some e \<Rightarrow> (h, Err [''defining libvirt domain'', e])
     | None \<Rightarrow>
         (let h1 = h\<lparr>ho_defined := insert vm_name (ho_defined h)\<rparr>
          in case ve_create env of
               None \<Rightarrow> (h1\<lparr>ho_running := insert vm_name (ho_running h1)\<rparr>, Ok ())
             | Some e \<Rightarrow>
                 (case ve_undefine_nvram env of
                    Some e2 \<Rightarrow>
                      (case ve_undefine env of
                         Some e3 \<Rightarrow> (h1, Err [e3])
                       | None \<Rightarrow> (h1\<lparr>ho_defined := ho_defined h1 - {vm_name}\<rparr>,
                                  Err [''starting domain: '' @ e2]))
                  | None \<Rightarrow> (h1\<lparr>ho_defined := ho_defined h1 - {vm_name},
                                 ho_files := ho_files h1 - {nvram_path}\<rparr>,
                             Err [''starting domain: '' @ e]))))"

section \<open>The address of the machine\<close>

definition get_ip_from_mac :: "string \<Rightarrow> string option list \<Rightarrow> string option" where
  "get_ip_from_mac mac leases =
     (if CHR 0x00 \<in> set mac then None
      else case leases of [] \<Rightarrow> None | first_lease # _ \<Rightarrow> first_lease)"

text \<open>
  \<open>wait_for_ip_from_mac\<close> in milliseconds; \<open>now\<close> is the clock at the test of the loop, \<open>k\<close> the
  number of polls so far. \<open>None\<close> is a loop that never ends.
\<close>

partial_function (option) wait_loop ::
    "(nat \<Rightarrow> string option list) \<Rightarrow> (nat \<Rightarrow> nat) \<Rightarrow> string \<Rightarrow> nat \<Rightarrow> nat \<Rightarrow> nat \<Rightarrow> nat \<Rightarrow>
       string option option" where
  "wait_loop leases cost mac poll deadline now k =
     (if now < deadline then
        (case get_ip_from_mac mac (leases k) of
           Some ip \<Rightarrow> Some (Some ip)
         | None \<Rightarrow> wait_loop leases cost mac poll deadline (now + cost k + poll) (Suc k))
      else Some None)"

definition wait_for_ip_from_mac :: "vm_env \<Rightarrow> string \<Rightarrow> nat \<Rightarrow> nat \<Rightarrow> string option option" where
  "wait_for_ip_from_mac env mac timeout poll_interval =
     wait_loop (ve_leases env) (ve_poll_cost env) mac poll_interval timeout 0 0"

section \<open>Creating and removing the machine of a job\<close>

definition overlay_path_of :: "paths_config \<Rightarrow> string \<Rightarrow> string" where
  "overlay_path_of cfg uuid = unix_join (pc_overlay_dir cfg) (uuid @ ''.qcow2'')"

definition nvram_path_of :: "paths_config \<Rightarrow> string \<Rightarrow> string" where
  "nvram_path_of cfg uuid = unix_join (pc_nvram_dir cfg) (uuid @ ''_vars.fd'')"

text \<open>The loop over the networks: a name that cannot be read panics, the last match wins.\<close>

fun find_default :: "string option list \<Rightarrow> bool \<Rightarrow> (anyhow, bool) res" where
  "find_default [] found = Ok found"
| "find_default (None # ns) found = Panic"
| "find_default (Some n # ns) found = find_default ns (if n = ''default'' then True else found)"

definition remove_both :: "vm_env \<Rightarrow> string \<Rightarrow> string \<Rightarrow> host \<Rightarrow> host" where
  "remove_both env overlay_path nvram_path h =
     remove_file env nvram_path (remove_file env overlay_path h)"

text \<open>\<open>create_job_domain\<close> from the listing of the networks on, with the domain running.\<close>

definition await_network ::
    "paths_config \<Rightarrow> vm_env \<Rightarrow> host \<Rightarrow> (host \<times> (anyhow, job_domain) res) option" where
  "await_network cfg env h =
     (let overlay_path = overlay_path_of cfg (ve_uuid env);
          nvram_path = nvram_path_of cfg (ve_uuid env);
          mac = generate_mac (ve_mac_suffix env);
          h' = remove_both env overlay_path nvram_path h
      in case ve_networks env of
           Err e \<Rightarrow> Some (h', Err [e])
         | Panic \<Rightarrow> Some (h, Panic)
         | Ok networks \<Rightarrow>
             (case find_default networks False of
                Err e \<Rightarrow> Some (h, Err e)
              | Panic \<Rightarrow> Some (h, Panic)
              | Ok found \<Rightarrow>
                  (if found then
                     (case wait_for_ip_from_mac env mac 60000 5000 of
                        None \<Rightarrow> None
                      | Some None \<Rightarrow> Some (h', Err [''Obtaining ip address timed out.''])
                      | Some (Some ip) \<Rightarrow> Some (h, Ok
                          \<lparr>jd_job_uuid = ve_uuid env, jd_vm_name = VM_NAME_PREFIX @ ve_uuid env,
                           jd_overlay_path = overlay_path, jd_nvram_path = nvram_path,
                           jd_mac = mac, jd_ip_addr = ip\<rparr>))
                   else Some (h', Err [''could not find associated network (maybe the network was deleted after creation)'']))))"

definition create_job_domain ::
    "paths_config \<Rightarrow> vm_env \<Rightarrow> host \<Rightarrow> (host \<times> (anyhow, job_domain) res) option" where
  "create_job_domain cfg env h =
     (let overlay_path = overlay_path_of cfg (ve_uuid env);
          nvram_path = nvram_path_of cfg (ve_uuid env);
          vm_name = VM_NAME_PREFIX @ ve_uuid env;
          (h1, r1) = create_overlay cfg env h overlay_path
      in case context_msg ''creating qcow2 overlay'' r1 of
           Err e \<Rightarrow> Some (h1, Err e)
         | Panic \<Rightarrow> Some (h1, Panic)
         | Ok _ \<Rightarrow>
             (let (h2, r2) = create_nvram cfg env h1 nvram_path
              in case r2 of
                   Err e \<Rightarrow> Some (remove_file env overlay_path h2, Err e)
                 | Panic \<Rightarrow> Some (h2, Panic)
                 | Ok _ \<Rightarrow>
                     (let (h3, r3) = define_and_start env h2 vm_name nvram_path
                      in case r3 of
                           Err e \<Rightarrow> Some (remove_both env overlay_path nvram_path h3, Err e)
                         | Panic \<Rightarrow> Some (h3, Panic)
                         | Ok _ \<Rightarrow> await_network cfg env h3)))"

text \<open>
  \<open>teardown\<close>: \<open>destroy\<close> and \<open>undefine_flags\<close> may fail, which is only logged; every step is
  attempted.
\<close>

definition teardown :: "vm_env \<Rightarrow> bool \<Rightarrow> bool \<Rightarrow> job_domain \<Rightarrow> host \<Rightarrow> host" where
  "teardown env destroy_ok undefine_ok jd h =
     (let h1 = (if destroy_ok then h\<lparr>ho_running := ho_running h - {jd_vm_name jd}\<rparr> else h);
          h2 = (if undefine_ok
                then h1\<lparr>ho_defined := ho_defined h1 - {jd_vm_name jd},
                        ho_files := ho_files h1 - {jd_nvram_path jd}\<rparr> else h1)
      in remove_both env (jd_overlay_path jd) (jd_nvram_path jd) h2)"

definition get_state :: "(string, nat) res \<Rightarrow> (anyhow, domain_state) res" where
  "get_state r = (case r of
       Err e \<Rightarrow> Err [''retrieving domain state'', e]
     | Panic \<Rightarrow> Panic
     | Ok state \<Rightarrow> Ok
         (if state = 0 then NoState else if state = 1 then Running else if state = 2 then Blocked
          else if state = 3 then Paused else if state = 4 then Shutdown
          else if state = 5 then Shutoff else if state = 6 then Crashed
          else if state = 7 then PMSuspended else Unknown))"

definition dump_memory :: "(string \<Rightarrow> nat \<Rightarrow> string option) \<Rightarrow> string \<Rightarrow> (anyhow, unit) res" where
  "dump_memory core_dump output_path = (case core_dump output_path 16 of
       None \<Rightarrow> Ok ()
     | Some e \<Rightarrow> Err [''Failed to create memory dump'', e])"

section \<open>Identifiers have the right shape\<close>

lemma length_show_base:
  "2 \<le> b \<Longrightarrow> 0 < k \<Longrightarrow> n < b ^ k \<Longrightarrow> length (show_base b n) \<le> k"
proof (induction k arbitrary: n)
  case (Suc k)
  show ?case
  proof (cases "n < b")
    case True
    then show ?thesis by (simp add: show_base.simps [of b n])
  next
    case False
    then have "0 < k" using Suc.prems by (cases k) auto
    have "n div b < b ^ k"
      using Suc.prems by (simp add: less_mult_imp_div_less mult.commute)
    with Suc.IH [OF Suc.prems(1) \<open>0 < k\<close>] show ?thesis
      by (simp add: show_base.simps [of b n])
  qed
qed simp

lemma length_pad_hex:
  assumes "0 < k" and "n < 16 ^ k"
  shows "length (pad_left k c (show_hex n)) = k"
  using length_show_base [of 16 k n] assms by (simp add: pad_left_def show_hex_def)

definition is_HEX :: "char \<Rightarrow> bool" where
  "is_HEX c = (let n = of_char c :: nat in (48 \<le> n \<and> n \<le> 57) \<or> (65 \<le> n \<and> n \<le> 70))"

lemma upper_digit: "d < 16 \<Longrightarrow> is_HEX (to_upper (digit_char d))"
  by (cases "d < 10") (simp_all add: is_HEX_def to_upper_def digit_char_def Let_def)

lemma show_hex_digits: "\<forall>c \<in> set (show_hex n). \<exists>d < 16. c = digit_char d"
  unfolding show_hex_def
proof (induction "16 :: nat" n rule: show_base.induct)
  case (1 n)
  have "\<exists>d<16. digit_char (n mod 16) = digit_char d"
    by (rule exI [of _ "n mod 16"]) simp
  with 1 show ?case by (cases "n < 16") (auto simp: show_base.simps [of 16 n])
qed

lemma byte_HEX_shape: "length (byte_HEX b) = 2 \<and> (\<forall>c \<in> set (byte_HEX b). is_HEX c)"
proof -
  have "unat b < 16 ^ 2" using unat_u8_less [of b] by simp
  then have "length (byte_HEX b) = 2"
    using length_pad_hex [of 2 "unat b"] by (simp add: byte_HEX_def)
  moreover have "is_HEX (to_upper CHR ''0'')" by (simp add: is_HEX_def to_upper_def)
  ultimately show ?thesis
    using show_hex_digits [of "unat b"] upper_digit by (auto simp: byte_HEX_def pad_left_def)
qed

section \<open>Waiting for the address ends\<close>

lemma wait_loop_ends:
  assumes "0 < poll"
  shows "\<exists>r. wait_loop leases cost mac poll deadline now k = Some r"
proof (induction "deadline - now" arbitrary: now k rule: less_induct)
  case less
  show ?case
  proof (cases "now < deadline")
    case True
    then have "deadline - (now + cost k + poll) < deadline - now" using assms by simp
    from less.hyps [OF this, of "Suc k"] show ?thesis
      by (cases "get_ip_from_mac mac (leases k)") (simp_all add: wait_loop.simps [of _ _ _ _ _ now])
  qed (simp add: wait_loop.simps [of _ _ _ _ _ now])
qed

lemma wait_loop_found:
  assumes "0 < poll" and "wait_loop leases cost mac poll deadline now k = Some (Some ip)"
  shows "\<exists>j \<ge> k. get_ip_from_mac mac (leases j) = Some ip \<and>
           (\<forall>i. k \<le> i \<and> i < j \<longrightarrow> get_ip_from_mac mac (leases i) = None) \<and>
           now + (j - k) * poll < deadline"
  using assms(2)
proof (induction "deadline - now" arbitrary: now k rule: less_induct)
  case less
  have now: "now < deadline"
    using less.prems by (rule contrapos_pp) (simp add: wait_loop.simps [of _ _ _ _ _ now])
  show ?case
  proof (cases "get_ip_from_mac mac (leases k)")
    case None
    then have rec: "wait_loop leases cost mac poll deadline (now + cost k + poll) (Suc k) = Some (Some ip)"
      using less.prems now by (simp add: wait_loop.simps [of _ _ _ _ _ now])
    have "deadline - (now + cost k + poll) < deadline - now" using assms(1) now by simp
    from less.hyps [OF this rec] obtain j where j: "j \<ge> Suc k"
      "get_ip_from_mac mac (leases j) = Some ip"
      "\<forall>i. Suc k \<le> i \<and> i < j \<longrightarrow> get_ip_from_mac mac (leases i) = None"
      "now + cost k + poll + (j - Suc k) * poll < deadline" by blast
    have "(j - k) * poll = poll + (j - Suc k) * poll"
      using j(1) by (metis Suc_diff_Suc Suc_le_lessD mult_Suc)
    moreover have "get_ip_from_mac mac (leases i) = None" if "k \<le> i" "i < j" for i
      using that j(3) None by (cases "i = k") auto
    ultimately show ?thesis using j by (intro exI [of _ j]) auto
  next
    case (Some ip')
    with less.prems now show ?thesis
      by (intro exI [of _ k]) (auto simp: wait_loop.simps [of _ _ _ _ _ now])
  qed
qed

section \<open>Creation and removal\<close>

definition vm_started :: "paths_config \<Rightarrow> vm_env \<Rightarrow> host \<Rightarrow> bool" where
  "vm_started cfg env h \<longleftrightarrow>
     (\<exists>h1 h2. create_overlay cfg env h (overlay_path_of cfg (ve_uuid env)) = (h1, Ok ()) \<and>
        create_nvram cfg env h1 (nvram_path_of cfg (ve_uuid env)) = (h2, Ok ()) \<and>
        ve_define env = None \<and> ve_create env = None)"

definition with_domain :: "string \<Rightarrow> host \<Rightarrow> host" where
  "with_domain n h = h\<lparr>ho_defined := insert n (ho_defined h), ho_running := insert n (ho_running h)\<rparr>"

definition with_files :: "string \<Rightarrow> string \<Rightarrow> host \<Rightarrow> host" where
  "with_files a b h = h\<lparr>ho_files := insert b (insert a (ho_files h))\<rparr>"

lemma create_overlay_cases:
  "create_overlay cfg env h p = (h1, r) \<Longrightarrow>
     (r = Ok () \<and> p \<notin> ho_files h \<and> h1 = h\<lparr>ho_files := insert p (ho_files h)\<rparr>) \<or> (r \<noteq> Ok () \<and> h1 = h)"
  by (auto simp: create_overlay_def split: if_splits res.splits prod.splits)

lemma create_nvram_cases:
  "create_nvram cfg env h p = (h1, r) \<Longrightarrow>
     (r = Ok () \<and> p \<notin> ho_files h \<and> h1 = h\<lparr>ho_files := insert p (ho_files h)\<rparr>) \<or>
     (r \<noteq> Ok () \<and> r \<noteq> Panic \<and> h1 = h)"
  by (auto simp: create_nvram_def split: if_splits option.splits)

lemma remove_both_files:
  assumes "\<And>p. \<not> ve_rm_fails env p"
  shows "remove_both env a b h = h\<lparr>ho_files := ho_files h - {a, b}\<rparr>"
proof -
  have "ho_files h - {a} - {b} = ho_files h - {a, b}" by blast
  then show ?thesis by (simp add: remove_both_def remove_file_def assms)
qed

text \<open>The host just after the machine has started.\<close>

definition started_host :: "paths_config \<Rightarrow> vm_env \<Rightarrow> host \<Rightarrow> host" where
  "started_host cfg env h = with_domain (VM_NAME_PREFIX @ ve_uuid env)
     (with_files (overlay_path_of cfg (ve_uuid env)) (nvram_path_of cfg (ve_uuid env)) h)"

lemma create_started:
  assumes "vm_started cfg env h"
  shows "create_job_domain cfg env h = await_network cfg env (started_host cfg env h)"
    and "overlay_path_of cfg (ve_uuid env) \<notin> ho_files h"
    and "nvram_path_of cfg (ve_uuid env) \<notin> ho_files h"
proof -
  let ?ov = "overlay_path_of cfg (ve_uuid env)" and ?nv = "nvram_path_of cfg (ve_uuid env)"
  from assms obtain h1 h2 where h: "create_overlay cfg env h ?ov = (h1, Ok ())"
    "create_nvram cfg env h1 ?nv = (h2, Ok ())" "ve_define env = None" "ve_create env = None"
    unfolding vm_started_def by blast
  from create_overlay_cases [OF h(1)] have h1: "?ov \<notin> ho_files h" "h1 = h\<lparr>ho_files := insert ?ov (ho_files h)\<rparr>"
    by auto
  from create_nvram_cases [OF h(2)] have h2: "?nv \<notin> ho_files h1" "h2 = h1\<lparr>ho_files := insert ?nv (ho_files h1)\<rparr>"
    by auto
  show "?ov \<notin> ho_files h" by (rule h1(1))
  show "?nv \<notin> ho_files h" using h2(1) h1(2) by simp
  have "h2\<lparr>ho_defined := insert (VM_NAME_PREFIX @ ve_uuid env) (ho_defined h2),
      ho_running := insert (VM_NAME_PREFIX @ ve_uuid env) (ho_running h2)\<rparr> = started_host cfg env h"
    using h1(2) h2(2) by (simp add: started_host_def with_domain_def with_files_def)
  with h show "create_job_domain cfg env h = await_network cfg env (started_host cfg env h)"
    by (simp add: create_job_domain_def define_and_start_def context_msg_def Let_def)
qed

lemma define_and_start_fails:
  assumes "define_and_start env h vm nv = (h', r)" and "ve_define env \<noteq> None \<or> ve_create env \<noteq> None"
    and "ve_undefine_nvram env = None \<or> ve_undefine env = None" and "vm \<notin> ho_defined h"
  shows "\<exists>e. r = Err e \<and> (h' = h \<or> h' = h\<lparr>ho_files := ho_files h - {nv}\<rparr>)"
proof (cases "ve_define env")
  case None
  then obtain e where e: "ve_create env = Some e" using assms(2) by auto
  have "h\<lparr>ho_defined := insert vm (ho_defined h) - {vm}\<rparr> = h" using assms(4) by simp
  then show ?thesis
    using assms(1,3) None e by (auto simp: define_and_start_def Let_def split: option.splits)
qed (use assms(1) in \<open>auto simp: define_and_start_def\<close>)

lemma create_not_started:
  assumes "\<not> vm_started cfg env h" and "\<And>p. \<not> ve_rm_fails env p"
    and "ve_undefine_nvram env = None \<or> ve_undefine env = None"
    and "VM_NAME_PREFIX @ ve_uuid env \<notin> ho_defined h"
  shows "\<exists>r. create_job_domain cfg env h = Some (h, r) \<and> (\<forall>jd. r \<noteq> Ok jd)"
proof -
  let ?ov = "overlay_path_of cfg (ve_uuid env)" and ?nv = "nvram_path_of cfg (ve_uuid env)"
  let ?vm = "VM_NAME_PREFIX @ ve_uuid env"
  obtain h1 r1 where o: "create_overlay cfg env h ?ov = (h1, r1)" by (cases "create_overlay cfg env h ?ov")
  show ?thesis
  proof (cases "r1 = Ok ()")
    case False
    then have "h1 = h" using create_overlay_cases [OF o] by blast
    with o False show ?thesis
      by (cases r1) (simp_all add: create_job_domain_def context_msg_def Let_def)
  next
    case True
    from create_overlay_cases [OF o] True
    have h1: "?ov \<notin> ho_files h" "h1 = h\<lparr>ho_files := insert ?ov (ho_files h)\<rparr>" by auto
    obtain h2 r2 where n: "create_nvram cfg env h1 ?nv = (h2, r2)" by (cases "create_nvram cfg env h1 ?nv")
    show ?thesis
    proof (cases "r2 = Ok ()")
      case False
      then have "h2 = h1" "r2 \<noteq> Panic" using create_nvram_cases [OF n] by blast+
      moreover have "remove_file env ?ov h1 = h" using h1 assms(2) by (simp add: remove_file_def)
      ultimately show ?thesis using o n True False
        by (cases r2) (simp_all add: create_job_domain_def context_msg_def Let_def)
    next
      case ok: True
      from create_nvram_cases [OF n] ok
      have h2: "?nv \<notin> ho_files h1" "h2 = h1\<lparr>ho_files := insert ?nv (ho_files h1)\<rparr>" by auto
      have fresh: "h2\<lparr>ho_files := ho_files h2 - {?ov, ?nv}\<rparr> = h"
        "h2\<lparr>ho_files := ho_files h2 - {?nv} - {?ov, ?nv}\<rparr> = h"
        using h1 h2 by simp_all
      obtain h3 r3 where d: "define_and_start env h2 ?vm ?nv = (h3, r3)"
        by (cases "define_and_start env h2 ?vm ?nv")
      have "ve_define env \<noteq> None \<or> ve_create env \<noteq> None"
        using assms(1) o n by (auto simp: True ok vm_started_def)
      from define_and_start_fails [OF d this assms(3)] assms(4) h1(2) h2(2)
      obtain e where e: "r3 = Err e" "h3 = h2 \<or> h3 = h2\<lparr>ho_files := ho_files h2 - {?nv}\<rparr>"
        by auto
      have "remove_both env ?ov ?nv h3 = h"
        using e(2) fresh remove_both_files [OF assms(2)] by (elim disjE) simp_all
      with o n d True ok e(1) show ?thesis
        by (simp add: create_job_domain_def context_msg_def Let_def)
    qed
  qed
qed

lemma find_default_found: "find_default ns b = Ok f \<Longrightarrow> f = (b \<or> Some ''default'' \<in> set ns)"
  by (induction ns b rule: find_default.induct) auto

lemma wait_ends: "\<exists>r. wait_for_ip_from_mac env mac timeout 5000 = Some r"
  unfolding wait_for_ip_from_mac_def by (rule wait_loop_ends) simp

lemma await_network_cases:
  obtains ip where "await_network cfg env h = Some (h, Ok
      \<lparr>jd_job_uuid = ve_uuid env, jd_vm_name = VM_NAME_PREFIX @ ve_uuid env,
       jd_overlay_path = overlay_path_of cfg (ve_uuid env),
       jd_nvram_path = nvram_path_of cfg (ve_uuid env), jd_mac = generate_mac (ve_mac_suffix env),
       jd_ip_addr = ip\<rparr>)"
      "wait_for_ip_from_mac env (generate_mac (ve_mac_suffix env)) 60000 5000 = Some (Some ip)"
  | e where "await_network cfg env h = Some (remove_both env (overlay_path_of cfg (ve_uuid env))
      (nvram_path_of cfg (ve_uuid env)) h, Err e)"
  | "await_network cfg env h = Some (h, Panic)"
proof (cases "ve_networks env")
  case (Ok networks)
  note nets = Ok
  show ?thesis
  proof (cases "find_default networks False")
    case (Ok found)
    obtain r where r: "wait_for_ip_from_mac env (generate_mac (ve_mac_suffix env)) 60000 5000 = Some r"
      using wait_ends by blast
    show ?thesis
    proof (cases found)
      case True
      then show ?thesis using that(1,2) nets Ok r
        by (cases r) (simp_all add: await_network_def Let_def)
    next
      case False
      then show ?thesis using that(2) nets Ok by (simp add: await_network_def Let_def)
    qed
  next
    case (Err e)
    have "find_default ns b \<noteq> Err e" for ns b by (induction ns b rule: find_default.induct) auto
    with Err show ?thesis by blast
  next
    case Panic
    then show ?thesis using that(3) nets by (simp add: await_network_def Let_def)
  qed
next
  case (Err e)
  then show ?thesis using that(2) by (simp add: await_network_def Let_def)
next
  case Panic
  then show ?thesis using that(3) by (simp add: await_network_def Let_def)
qed

lemma define_and_start_Ok:
  "define_and_start env h vm nv = (h', Ok ()) \<Longrightarrow> ve_define env = None \<and> ve_create env = None"
  by (auto simp: define_and_start_def Let_def split: option.splits)

lemma create_Ok_started:
  assumes "create_job_domain cfg env h = Some (h', Ok jd)"
  shows "vm_started cfg env h"
proof -
  have ctx: "context_msg c r = Ok () \<longleftrightarrow> r = Ok ()" for c and r :: "(anyhow, unit) res"
    by (cases r) (simp_all add: context_msg_def)
  from assms obtain h1 h2 h3 where "create_overlay cfg env h (overlay_path_of cfg (ve_uuid env)) = (h1, Ok ())"
    "create_nvram cfg env h1 (nvram_path_of cfg (ve_uuid env)) = (h2, Ok ())"
    "define_and_start env h2 (VM_NAME_PREFIX @ ve_uuid env) (nvram_path_of cfg (ve_uuid env)) = (h3, Ok ())"
    by (auto simp: create_job_domain_def Let_def ctx split: prod.splits res.splits)
  then show ?thesis unfolding vm_started_def using define_and_start_Ok by blast
qed

lemma created_host:
  "create_job_domain cfg env h = Some (h', Ok jd) \<Longrightarrow> h' = started_host cfg env h"
  using create_started(1) [OF create_Ok_started, of cfg env h h' jd]
  by (cases rule: await_network_cases [of cfg env "started_host cfg env h"]) simp_all

lemma created_torn_down:
  assumes "create_job_domain cfg env h = Some (h', Ok jd)" and "\<And>p. \<not> ve_rm_fails env p"
    and "VM_NAME_PREFIX @ ve_uuid env \<notin> ho_defined h" and "VM_NAME_PREFIX @ ve_uuid env \<notin> ho_running h"
  shows "teardown env True True jd h' = h"
  using create_started [OF create_Ok_started [OF assms(1)]] assms(1)
proof (cases rule: await_network_cases [of cfg env "started_host cfg env h"])
  case (1 ip)
  let ?ov = "overlay_path_of cfg (ve_uuid env)" and ?nv = "nvram_path_of cfg (ve_uuid env)"
  have files: "insert ?ov (ho_files h) - {?nv} - {?ov, ?nv} = ho_files h"
    using create_started(2,3) [OF create_Ok_started [OF assms(1)]] by auto
  with 1 create_started [OF create_Ok_started [OF assms(1)]] assms show ?thesis
    by (auto simp: teardown_def Let_def remove_both_files started_host_def with_domain_def with_files_def)
qed simp_all

section \<open>Properties\<close>

text \<open>\<open>create_job_domain\<close> always returns: whatever libvirt, \<open>qemu-img\<close> and the lease table answer,
  and however long each poll takes, the wait for an address ends.\<close>

theorem create_returns: "\<exists>r. create_job_domain cfg env h = Some r"
proof (cases "vm_started cfg env h")
  case True
  then show ?thesis
    using create_started(1) await_network_cases [of cfg env "started_host cfg env h"] by metis
next
  case False
  have await: "\<exists>a b. await_network cfg env h' = Some (a, b)" for h'
    using await_network_cases [of cfg env h'] by metis
  show ?thesis
    by (simp add: create_job_domain_def Let_def await split: prod.splits res.splits)
qed

text \<open>C14: When \<open>create_job_domain\<close> succeeds the host has exactly one more domain, defined and running under
  the prefixed name, and exactly two more files, its overlay and its NVRAM, neither of which was there
  before; and the address is the one that the lease table gave for the machine's MAC at one of at most
  twelve polls, the first that gave any.\<close>

theorem create_gives_machine:
  assumes "create_job_domain cfg env h = Some (h', Ok jd)"
  shows "h' = started_host cfg env h \<and>
     jd_vm_name jd = VM_NAME_PREFIX @ jd_job_uuid jd \<and>
     jd_overlay_path jd \<notin> ho_files h \<and> jd_nvram_path jd \<notin> ho_files h \<and>
     (\<exists>k < 12. get_ip_from_mac (jd_mac jd) (ve_leases env k) = Some (jd_ip_addr jd) \<and>
        (\<forall>i < k. get_ip_from_mac (jd_mac jd) (ve_leases env i) = None))"
  using create_started [OF create_Ok_started [OF assms]] assms
proof (cases rule: await_network_cases [of cfg env "started_host cfg env h"])
  case (1 ip)
  have "wait_loop (ve_leases env) (ve_poll_cost env) (generate_mac (ve_mac_suffix env)) 5000 60000 0 0
      = Some (Some ip)"
    using 1(2) by (simp add: wait_for_ip_from_mac_def)
  from wait_loop_found [OF _ this] obtain k where
    k: "get_ip_from_mac (generate_mac (ve_mac_suffix env)) (ve_leases env k) = Some ip"
      "\<forall>i < k. get_ip_from_mac (generate_mac (ve_mac_suffix env)) (ve_leases env i) = None"
      "k * 5000 < 60000"
    by auto
  then have "k < 12" by simp
  with 1(1) k create_started [OF create_Ok_started [OF assms]] assms show ?thesis by auto
qed simp_all

definition example_cfg :: paths_config where
  "example_cfg = \<lparr>pc_master_nvram = ''/m/vars.fd'', pc_master_image = ''/m/w.qcow2'',
     pc_overlay_dir = ''/o'', pc_report_dir = ''/r'', pc_nvram_dir = ''/n''\<rparr>"

definition example_env :: "string option \<Rightarrow> string option list \<Rightarrow> vm_env" where
  "example_env start_error nets = \<lparr>ve_uuid = ''u'', ve_qemu = Ok (True, []), ve_copy = None,
     ve_mac_suffix = (1, 2, 171), ve_define = None, ve_create = start_error,
     ve_undefine_nvram = None, ve_undefine = None, ve_networks = Ok nets,
     ve_leases = (\<lambda>k. if k < 2 then [] else [Some ''192.168.122.7'']), ve_poll_cost = (\<lambda>_. 10),
     ve_rm_fails = (\<lambda>_. False)\<rparr>"

definition example_host :: host where
  "example_host = \<lparr>ho_files = {''/m/vars.fd'', ''/m/w.qcow2''}, ho_defined = {}, ho_running = {}\<rparr>"

lemma example_paths:
  "overlay_path_of example_cfg ''u'' = ''/o/u.qcow2''" "nvram_path_of example_cfg ''u'' = ''/n/u_vars.fd''"
  by (simp_all add: overlay_path_of_def nvram_path_of_def example_cfg_def unix_join_def unix_sep_def)

lemma example_started: "vm_started example_cfg (example_env None nets) example_host"
  unfolding vm_started_def
  by (simp add: example_env_def example_paths create_overlay_def create_nvram_def example_host_def)
    (simp add: example_cfg_def)

lemma example_mac: "generate_mac (1, 2, 171) = ''00:1B:21:01:02:AB''"
  by code_simp

lemma example_created:
  "create_job_domain example_cfg (example_env None [Some ''x'', Some ''default'']) example_host =
     Some (started_host example_cfg (example_env None [Some ''x'', Some ''default'']) example_host, Ok
       \<lparr>jd_job_uuid = ''u'', jd_vm_name = VM_NAME_PREFIX @ ''u'', jd_overlay_path = ''/o/u.qcow2'',
        jd_nvram_path = ''/n/u_vars.fd'', jd_mac = ''00:1B:21:01:02:AB'',
        jd_ip_addr = ''192.168.122.7''\<rparr>)"
  unfolding create_started(1) [OF example_started]
  by (simp add: await_network_def example_env_def example_paths wait_for_ip_from_mac_def
      wait_loop.simps [of _ _ _ _ _ 0] wait_loop.simps [of _ _ _ _ _ 5010]
      wait_loop.simps [of _ _ _ _ _ 10020] get_ip_from_mac_def example_mac)

theorem create_gives_machine_witness:
  "started_host example_cfg (example_env None [Some ''x'', Some ''default'']) example_host =
     started_host example_cfg (example_env None [Some ''x'', Some ''default'']) example_host \<and>
   VM_NAME_PREFIX @ ''u'' = VM_NAME_PREFIX @ ''u'' \<and>
   ''/o/u.qcow2'' \<notin> ho_files example_host \<and> ''/n/u_vars.fd'' \<notin> ho_files example_host \<and>
   (\<exists>k < 12. get_ip_from_mac ''00:1B:21:01:02:AB''
        (ve_leases (example_env None [Some ''x'', Some ''default'']) k) = Some ''192.168.122.7'' \<and>
      (\<forall>i < k. get_ip_from_mac ''00:1B:21:01:02:AB''
        (ve_leases (example_env None [Some ''x'', Some ''default'']) i) = None))"
  using create_gives_machine [OF example_created] by simp

text \<open>Before the machine has started a failure undoes itself: when the overlay, the NVRAM copy, the
  definition or the start fails, and files can be removed and the domain undefined one way or the other,
  the host is left exactly as it was.\<close>

theorem early_failure_restores:
  assumes "create_job_domain cfg env h = Some (h', r)" and "\<not> vm_started cfg env h"
    and "\<And>p. \<not> ve_rm_fails env p" and "ve_undefine_nvram env = None \<or> ve_undefine env = None"
    and "VM_NAME_PREFIX @ ve_uuid env \<notin> ho_defined h"
  shows "h' = h \<and> (\<forall>jd. r \<noteq> Ok jd)"
  using create_not_started [OF assms(2-5)] assms(1) by auto

lemma example_not_started: "\<not> vm_started example_cfg (example_env (Some ''no KVM'') nets) example_host"
  by (simp add: vm_started_def example_env_def)

theorem early_failure_restores_witness:
  "\<exists>h' r. create_job_domain example_cfg (example_env (Some ''no KVM'') []) example_host = Some (h', r) \<and>
     h' = example_host \<and> (\<forall>jd. r \<noteq> Ok jd)"
proof -
  obtain h' r where c: "create_job_domain example_cfg (example_env (Some ''no KVM'') []) example_host
      = Some (h', r)"
    using create_not_started [OF example_not_started] by (simp add: example_env_def example_host_def) blast
  with early_failure_restores [OF c example_not_started] show ?thesis
    by (simp add: example_env_def example_host_def)
qed

text \<open>C33: After the machine has started a failure does not undo itself: when listing the networks fails,
  the network is missing or no address comes in time, \<open>create_job_domain\<close> deletes the disk and the
  NVRAM file but returns with the domain still defined and still running.\<close>

theorem late_failure_leaves_domain:
  assumes "create_job_domain cfg env h = Some (h', Err e)" and "vm_started cfg env h"
    and "\<And>p. \<not> ve_rm_fails env p"
  shows "h' = with_domain (VM_NAME_PREFIX @ ve_uuid env) h"
proof -
  let ?ov = "overlay_path_of cfg (ve_uuid env)" and ?nv = "nvram_path_of cfg (ve_uuid env)"
  have "remove_both env ?ov ?nv (started_host cfg env h) = with_domain (VM_NAME_PREFIX @ ve_uuid env) h"
    using create_started(2,3) [OF assms(2)] remove_both_files [OF assms(3)]
    by (simp add: started_host_def with_domain_def with_files_def insert_Diff_if)
  then show ?thesis
    using create_started(1) [OF assms(2)] assms(1)
    by (cases rule: await_network_cases [of cfg env "started_host cfg env h"]) simp_all
qed

theorem late_failure_leaves_domain_witness:
  "\<exists>h' e. create_job_domain example_cfg (example_env None [Some ''other'']) example_host = Some (h', Err e) \<and>
     h' = with_domain (VM_NAME_PREFIX @ ''u'') example_host"
proof -
  have "create_job_domain example_cfg (example_env None [Some ''other'']) example_host =
      Some (remove_both (example_env None [Some ''other'']) ''/o/u.qcow2'' ''/n/u_vars.fd''
        (started_host example_cfg (example_env None [Some ''other'']) example_host),
        Err [''could not find associated network (maybe the network was deleted after creation)''])"
    unfolding create_started(1) [OF example_started]
    by (simp add: await_network_def example_env_def example_paths)
  with late_failure_leaves_domain [OF this example_started] show ?thesis
    by (simp add: example_env_def)
qed

text \<open>C15: Tearing down a machine that was created puts the host back as it was before its creation, when
  libvirt can destroy and undefine the domain and the files can be removed; the order of the steps
  does not matter to that, and the NVRAM file may already be gone with the domain.\<close>

theorem teardown_restores:
  assumes "create_job_domain cfg env h = Some (h', Ok jd)" and "\<And>p. \<not> ve_rm_fails env p"
    and "VM_NAME_PREFIX @ ve_uuid env \<notin> ho_defined h" and "VM_NAME_PREFIX @ ve_uuid env \<notin> ho_running h"
  shows "teardown env True True jd h' = h"
  using created_torn_down [OF assms] .

theorem teardown_restores_witness:
  "teardown (example_env None [Some ''x'', Some ''default'']) True True
     \<lparr>jd_job_uuid = ''u'', jd_vm_name = VM_NAME_PREFIX @ ''u'', jd_overlay_path = ''/o/u.qcow2'',
      jd_nvram_path = ''/n/u_vars.fd'', jd_mac = ''00:1B:21:01:02:AB'', jd_ip_addr = ''192.168.122.7''\<rparr>
     (started_host example_cfg (example_env None [Some ''x'', Some ''default'']) example_host) = example_host"
  by (rule teardown_restores [OF example_created]) (simp_all add: example_env_def example_host_def)

text \<open>A generated MAC address has the vendor prefix 00:1B:21 and then three random bytes, each as two
  upper case hexadecimal digits.\<close>

theorem mac_shape:
  "\<exists>x y z. generate_mac (a, b, c) = ''00:1B:21:'' @ x @ '':'' @ y @ '':'' @ z \<and>
     length x = 2 \<and> length y = 2 \<and> length z = 2 \<and> list_all is_HEX (x @ y @ z)"
proof -
  have "byte_HEX 0 = ''00''" "byte_HEX 27 = ''1B''" "byte_HEX 33 = ''21''" by code_simp+
  then show ?thesis
    using byte_HEX_shape [of a] byte_HEX_shape [of b] byte_HEX_shape [of c]
    by (intro exI [of _ "byte_HEX a"] exI [of _ "byte_HEX b"] exI [of _ "byte_HEX c"])
      (simp add: generate_mac_def list_all_iff ball_Un)
qed

end
