(* ===== verification/Run_Job.thy ===== *)
theory Run_Job
  imports Job_Tracker Vm
begin

text \<open>
  \<open>run_job\<close> and \<open>run_job_inner\<close> of \<open>crates/malbox-controller/src/job.rs\<close>: the task that takes
  one job from submission to its end, as a program counter with one step per access to the
  shared tracker and one per awaited operation, so that submissions, cancellations and the
  other tasks interleave with it as the async runtime allows.

  An awaited operation (creating the machine, the bootstrap, the connection, the upload, the
  analysis) ends as the argument \<open>ext\<close> says; one that never ends is a step that is never taken.
  \<open>ts_vm\<close> says whether the machine the task created is still there; only \<open>teardown\<close> removes it,
  since \<open>JobDomain\<close> has no destructor.
\<close>

section \<open>The task\<close>

datatype ext = Good analysis_result | Bad anyhow

datatype pc =
    PSpawnStatus | PCreateVm | PCheck1
  | PBootStatus | PBoot | PCheck2
  | PUploadStatus | PConnect | PUpload | PCheck3
  | PAnalyzeStatus | PAnalyze
  | PTeardown analysis_result | PSetResult analysis_result
  | PFail string | PEmit string | PDone "string option"

record task =
  ts_pc :: pc
  ts_vm :: bool

definition quoted :: "string \<Rightarrow> string" where
  "quoted s = [CHR 0x22] @ s @ [CHR 0x22]"

definition analysis_error :: "string \<Rightarrow> string" where
  "analysis_error e = ''{'' @ quoted ''status'' @ '': '' @ quoted ''error'' @ '', '' @
     quoted ''message'' @ '': '' @ quoted e @ ''}''"

definition after_await :: "string \<Rightarrow> ext \<Rightarrow> pc \<Rightarrow> pc" where
  "after_await ctx x next = (case x of
       Good _ \<Rightarrow> next
     | Bad e \<Rightarrow> PFail (anyhow_to_string (ctx # e)))"

text \<open>A check for cancellation: the machine is torn down on the way out.\<close>

definition check_step :: "string \<Rightarrow> pc \<Rightarrow> job_tracker \<Rightarrow> bool \<Rightarrow> pc \<times> job_tracker \<times> bool" where
  "check_step jid next t vm =
     (if \<not> has t jid then (PFail ''job cancelled'', t, False) else (next, t, vm))"

fun job_step :: "string \<Rightarrow> ext \<Rightarrow> pc \<Rightarrow> job_tracker \<Rightarrow> bool \<Rightarrow> pc \<times> job_tracker \<times> bool" where
  "job_step jid x PSpawnStatus t vm = (PCreateVm, set_status SpawningVm t jid, vm)"
| "job_step jid x PCreateVm t vm =
     (after_await ''failed to create VM'' x PCheck1, t, (case x of Good _ \<Rightarrow> True | Bad _ \<Rightarrow> vm))"
| "job_step jid x PCheck1 t vm = check_step jid PBootStatus t vm"
| "job_step jid x PBootStatus t vm = (PBoot, set_status Bootstrapping t jid, vm)"
| "job_step jid x PBoot t vm = (after_await ''mTLS bootstrap failed'' x PCheck2, t, vm)"
| "job_step jid x PCheck2 t vm = check_step jid PUploadStatus t vm"
| "job_step jid x PUploadStatus t vm = (PConnect, set_status Uploading t jid, vm)"
| "job_step jid x PConnect t vm = (after_await ''mTLS connect failed'' x PUpload, t, vm)"
| "job_step jid x PUpload t vm = (after_await ''sample upload failed'' x PCheck3, t, vm)"
| "job_step jid x PCheck3 t vm = check_step jid PAnalyzeStatus t vm"
| "job_step jid x PAnalyzeStatus t vm = (PAnalyze, set_status Analyzing t jid, vm)"
| "job_step jid x PAnalyze t vm = (case x of
       Good r \<Rightarrow> (PTeardown r, t, vm)
     | Bad e \<Rightarrow> (PFail (analysis_error (anyhow_to_string (''analysis failed'' # e))), t, False))"
| "job_step jid x (PTeardown r) t vm = (PSetResult r, t, False)"
| "job_step jid x (PSetResult r) t vm = (PDone None, set_result r t jid, vm)"
| "job_step jid x (PFail msg) t vm = (PEmit msg, set_status Failed t jid, vm)"
| "job_step jid x (PEmit msg) t vm = (PDone (Some msg), emit_error msg t jid, vm)"
| "job_step jid x (PDone out) t vm = (PDone out, t, vm)"

section \<open>The system\<close>

text \<open>
  \<open>sy_chan\<close> remembers the channel that each submission created; the program does not store it
  once the sender is dropped. Version 4 UUIDs are taken to be fresh.
\<close>

record sys =
  sy_tracker :: job_tracker
  sy_tasks :: "string \<rightharpoonup> task"
  sy_chan :: "string \<rightharpoonup> nat"

definition init_sys :: sys where
  "init_sys = \<lparr>sy_tracker = new_tracker, sy_tasks = Map.empty, sy_chan = Map.empty\<rparr>"

definition sys_submit :: "string \<Rightarrow> string \<Rightarrow> string \<Rightarrow> u32 \<Rightarrow> u64 \<Rightarrow> sys \<Rightarrow> sys" where
  "sys_submit jid path name timeout now s =
     s\<lparr>sy_tracker := fst (submit (sy_tracker s) jid path name timeout now),
       sy_tasks := (sy_tasks s)(jid \<mapsto> \<lparr>ts_pc = PSpawnStatus, ts_vm = False\<rparr>),
       sy_chan := (sy_chan s)(jid \<mapsto> tk_next (sy_tracker s))\<rparr>"

definition sys_cancel :: "string \<Rightarrow> sys \<Rightarrow> sys" where
  "sys_cancel jid s = s\<lparr>sy_tracker := fst (cancel (sy_tracker s) jid)\<rparr>"

definition sys_task :: "string \<Rightarrow> ext \<Rightarrow> task \<Rightarrow> sys \<Rightarrow> sys" where
  "sys_task jid x tk s =
     (case job_step jid x (ts_pc tk) (sy_tracker s) (ts_vm tk) of (pc', t', vm') \<Rightarrow>
       s\<lparr>sy_tracker := t', sy_tasks := (sy_tasks s)(jid \<mapsto> \<lparr>ts_pc = pc', ts_vm = vm'\<rparr>)\<rparr>)"

definition is_done :: "pc \<Rightarrow> bool" where
  "is_done p = (case p of PDone _ \<Rightarrow> True | _ \<Rightarrow> False)"

inductive sys_step :: "sys \<Rightarrow> sys \<Rightarrow> bool" where
  submit_step: "sy_tasks s jid = None \<Longrightarrow> sys_step s (sys_submit jid path name timeout now s)"
| cancel_step: "sys_step s (sys_cancel jid s)"
| task_step: "sy_tasks s jid = Some tk \<Longrightarrow> \<not> is_done (ts_pc tk) \<Longrightarrow> sys_step s (sys_task jid x tk s)"

inductive reachable :: "sys \<Rightarrow> bool" where
  start: "reachable init_sys"
| step: "reachable s \<Longrightarrow> sys_step s s' \<Longrightarrow> reachable s'"

inductive_cases sys_stepE: "sys_step s s'"

section \<open>The invariant\<close>

definition progress_states :: "job_status list" where
  "progress_states = [SpawningVm, Bootstrapping, Uploading, Analyzing]"

definition progress :: "nat \<Rightarrow> job_event list" where
  "progress n = map (\<lambda>s. StatusChanged (status_event_name s)) (take n progress_states)"

definition failed_event :: job_event where
  "failed_event = StatusChanged (status_event_name Failed)"

text \<open>How many of the four progress states a task at a program counter has announced.\<close>

fun level :: "pc \<Rightarrow> nat" where
  "level PSpawnStatus = 0"
| "level PCreateVm = 1" | "level PCheck1 = 1" | "level PBootStatus = 1"
| "level PBoot = 2" | "level PCheck2 = 2" | "level PUploadStatus = 2"
| "level PConnect = 3" | "level PUpload = 3" | "level PCheck3 = 3" | "level PAnalyzeStatus = 3"
| "level _ = 4"

definition level_status :: "nat \<Rightarrow> job_status" where
  "level_status n = (Queued # progress_states) ! n"

definition failed_at :: "(nat \<Rightarrow> bool) \<Rightarrow> bool" where
  "failed_at P \<longleftrightarrow> P 1 \<or> P 2 \<or> P 3 \<or> P 4"

fun job_ok :: "nat \<Rightarrow> pc \<Rightarrow> job \<Rightarrow> job_event list \<Rightarrow> bool" where
  "job_ok k (PFail m) j evs \<longleftrightarrow> jb_tx j = Some k \<and> jb_result j = None \<and>
     failed_at (\<lambda>n. jb_status j = level_status n \<and> evs = progress n)"
| "job_ok k (PEmit m) j evs \<longleftrightarrow> jb_tx j = Some k \<and> jb_result j = None \<and>
     jb_status j = Failed \<and> failed_at (\<lambda>n. evs = progress n @ [failed_event])"
| "job_ok k (PDone None) j evs \<longleftrightarrow> jb_tx j = None \<and> jb_status j = Completed \<and>
     (\<exists>r. jb_result j = Some r \<and>
        evs = progress 4 @ [CompletedEvent (ar_exit_code r) (ar_runtime_ms r)])"
| "job_ok k (PDone (Some m)) j evs \<longleftrightarrow> jb_tx j = None \<and> jb_result j = None \<and>
     jb_status j = Failed \<and> failed_at (\<lambda>n. evs = progress n @ [failed_event, ErrorEvent m])"
| "job_ok k p j evs \<longleftrightarrow> jb_tx j = Some k \<and> jb_result j = None \<and>
     jb_status j = level_status (level p) \<and> evs = progress (level p)"

text \<open>The errors after which the machine stays: these three paths return without \<open>teardown\<close>.\<close>

definition leaks :: "string \<Rightarrow> bool" where
  "leaks m \<longleftrightarrow> m = ''mTLS bootstrap failed'' \<or> m = ''mTLS connect failed'' \<or> m = ''sample upload failed''"

fun vm_ok :: "pc \<Rightarrow> bool \<Rightarrow> bool" where
  "vm_ok PSpawnStatus vm \<longleftrightarrow> \<not> vm"
| "vm_ok PCreateVm vm \<longleftrightarrow> \<not> vm"
| "vm_ok (PSetResult r) vm \<longleftrightarrow> \<not> vm"
| "vm_ok (PFail m) vm \<longleftrightarrow> vm = leaks m"
| "vm_ok (PEmit m) vm \<longleftrightarrow> vm = leaks m"
| "vm_ok (PDone None) vm \<longleftrightarrow> \<not> vm"
| "vm_ok (PDone (Some m)) vm \<longleftrightarrow> vm = leaks m"
| "vm_ok _ vm \<longleftrightarrow> vm"

lemma leaks_messages [simp]:
  "\<not> leaks ''job cancelled''" "\<not> leaks ''failed to create VM''" "\<not> leaks (analysis_error e)"
  "leaks ''mTLS bootstrap failed''" "leaks ''mTLS connect failed''" "leaks ''sample upload failed''"
  by (simp_all add: leaks_def analysis_error_def)

lemma job_step_vm:
  "vm_ok p vm \<Longrightarrow> job_step jid x p t vm = (p', t', vm') \<Longrightarrow> vm_ok p' vm'"
  by (cases p; cases x)
    (auto simp: check_step_def after_await_def anyhow_to_string_def split: if_splits option.splits)

text \<open>A step of a task whose job is gone leaves the tracker as it is.\<close>

lemma job_step_absent:
  "tk_jobs t jid = None \<Longrightarrow> job_step jid x p t vm = (p', t', vm') \<Longrightarrow> t' = t"
  by (cases p; cases x)
    (auto simp: check_step_def set_status_def set_result_def emit_error_def split: if_splits)

lemma job_step_other:
  assumes "job_step jid x p t vm = (p', t', vm')"
  shows "k \<noteq> jid \<Longrightarrow> tk_jobs t' k = tk_jobs t k" and "tk_next t' = tk_next t"
    and "Option.bind (tk_jobs t jid) jb_tx \<noteq> Some c \<Longrightarrow> tk_sent t' c = tk_sent t c"
  using assms by (cases p; cases x;
      force simp: check_step_def task_updates task_sends tracker_simps split: if_splits)+

lemma progress_simps:
  "progress 0 = []"
  "progress (Suc 0) = progress 0 @ [StatusChanged (status_event_name SpawningVm)]"
  "progress 2 = progress (Suc 0) @ [StatusChanged (status_event_name Bootstrapping)]"
  "progress 3 = progress 2 @ [StatusChanged (status_event_name Uploading)]"
  "progress 4 = progress 3 @ [StatusChanged (status_event_name Analyzing)]"
  by (simp_all add: progress_def progress_states_def numeral_eq_Suc)

lemma level_status_simps [simp]:
  "level_status 0 = Queued" "level_status (Suc 0) = SpawningVm" "level_status 2 = Bootstrapping"
  "level_status 3 = Uploading" "level_status 4 = Analyzing"
  by (simp_all add: level_status_def progress_states_def numeral_eq_Suc)

text \<open>A step of a task whose job is there moves the entry and the log along together.\<close>

lemma job_step_own:
  assumes "tk_jobs t jid = Some j" and "job_ok k p j (tk_sent t k)"
    and "job_step jid x p t vm = (p', t', vm')"
  shows "\<exists>j'. tk_jobs t' jid = Some j' \<and> job_ok k p' j' (tk_sent t' k)"
proof (cases p)
  case (PDone out)
  then show ?thesis using assms by auto
next
  case (PFail m)
  then show ?thesis using assms
    by (auto simp: task_updates task_sends failed_at_def failed_event_def)
next
  case (PEmit m)
  then show ?thesis using assms
    by (auto simp: task_updates task_sends failed_at_def failed_event_def)
next
  case (PSetResult r)
  then show ?thesis using assms
    by (auto simp: task_updates task_sends)
qed (use assms in \<open>cases x; force simp: check_step_def after_await_def has_def task_updates task_sends
      failed_at_def progress_simps split: if_splits\<close>)+

text \<open>The logs a channel can have, whatever became of its job.\<close>

definition log_ok :: "job_event list \<Rightarrow> bool" where
  "log_ok evs \<longleftrightarrow> evs = progress 0 \<or> failed_at (\<lambda>n. evs = progress n) \<or>
     failed_at (\<lambda>n. evs = progress n @ [failed_event]) \<or>
     failed_at (\<lambda>n. \<exists>m. evs = progress n @ [failed_event, ErrorEvent m]) \<or>
     (\<exists>c r. evs = progress 4 @ [CompletedEvent c r])"

lemma failed_at_ex: "failed_at P \<longleftrightarrow> (\<exists>n. n \<le> 4 \<and> n \<noteq> 0 \<and> P n)"
proof
  assume "failed_at P"
  then obtain n where "n \<in> {1, 2, 3, 4}" "P n" unfolding failed_at_def by blast
  then show "\<exists>n. n \<le> 4 \<and> n \<noteq> 0 \<and> P n" by (intro exI [of _ n]) auto
next
  assume "\<exists>n. n \<le> 4 \<and> n \<noteq> 0 \<and> P n"
  then obtain n where "n \<le> 4" "n \<noteq> 0" "P n" by blast
  then have "n = 1 \<or> n = 2 \<or> n = 3 \<or> n = 4" by linarith
  with \<open>P n\<close> show "failed_at P" unfolding failed_at_def by auto
qed

lemma log_okE:
  assumes "log_ok evs"
  obtains n where "n \<le> 4" "evs = progress n"
    | n where "n \<le> 4" "n \<noteq> 0" "evs = progress n @ [failed_event]"
    | n m where "n \<le> 4" "n \<noteq> 0" "evs = progress n @ [failed_event, ErrorEvent m]"
    | c r where "evs = progress 4 @ [CompletedEvent c r]"
proof -
  have "0 \<le> (4 :: nat)" by simp
  with assms that show ?thesis unfolding log_ok_def failed_at_ex by metis
qed

lemma level_cases: "level p = 0 \<or> level p = 1 \<or> level p = 2 \<or> level p = 3 \<or> level p = 4"
  by (cases p) simp_all

lemma job_ok_log: "job_ok k p j evs \<Longrightarrow> log_ok evs"
proof (cases p)
  case (PDone out)
  then show "job_ok k p j evs \<Longrightarrow> log_ok evs"
    by (cases out) (auto simp: log_ok_def failed_at_def)
qed (auto simp: log_ok_def failed_at_def)

definition sys_inv :: "sys \<Rightarrow> bool" where
  "sys_inv s \<longleftrightarrow>
     (\<forall>jid. tk_jobs (sy_tracker s) jid \<noteq> None \<longrightarrow> sy_tasks s jid \<noteq> None) \<and>
     (\<forall>jid. sy_tasks s jid \<noteq> None \<longleftrightarrow> sy_chan s jid \<noteq> None) \<and>
     (\<forall>a b k. sy_chan s a = Some k \<longrightarrow> sy_chan s b = Some k \<longrightarrow> a = b) \<and>
     (\<forall>a k. sy_chan s a = Some k \<longrightarrow> k < tk_next (sy_tracker s) \<and> log_ok (tk_sent (sy_tracker s) k)) \<and>
     (\<forall>k \<ge> tk_next (sy_tracker s). tk_sent (sy_tracker s) k = []) \<and>
     (\<forall>jid tk. sy_tasks s jid = Some tk \<longrightarrow> vm_ok (ts_pc tk) (ts_vm tk)) \<and>
     (\<forall>jid tk k j. sy_tasks s jid = Some tk \<longrightarrow> sy_chan s jid = Some k \<longrightarrow>
        tk_jobs (sy_tracker s) jid = Some j \<longrightarrow> job_ok k (ts_pc tk) j (tk_sent (sy_tracker s) k))"

lemma sys_inv_init: "sys_inv init_sys"
  by (simp add: sys_inv_def init_sys_def new_tracker_def)

lemma sys_inv_submit:
  assumes "sys_inv s" and "sy_tasks s jid = None"
  shows "sys_inv (sys_submit jid path name timeout now s)"
proof -
  have "sy_tasks s jid \<noteq> None \<longleftrightarrow> sy_chan s jid \<noteq> None" using assms(1) unfolding sys_inv_def by blast
  then have "sy_chan s jid = None" using assms(2) by simp
  moreover have "tk_sent (sy_tracker s) (tk_next (sy_tracker s)) = []"
    using assms(1) by (simp add: sys_inv_def)
  moreover have "log_ok []" by (simp add: log_ok_def progress_simps)
  ultimately show ?thesis
    using assms unfolding sys_inv_def sys_submit_def
    by (auto simp: tracker_simps progress_simps less_Suc_eq split: if_splits)
qed

lemma sys_inv_cancel:
  assumes "sys_inv s"
  shows "sys_inv (sys_cancel jid s)"
proof -
  let ?t = "fst (cancel (sy_tracker s) jid)"
  have jobs: "tk_jobs ?t a = Some j \<Longrightarrow> tk_jobs (sy_tracker s) a = Some j" for a j
    by (simp add: tracker_simps split: if_splits)
  then have "\<forall>a. tk_jobs ?t a \<noteq> None \<longrightarrow> sy_tasks s a \<noteq> None"
    using assms unfolding sys_inv_def by blast
  moreover have sel: "sy_tracker (sys_cancel jid s) = ?t" "sy_tasks (sys_cancel jid s) = sy_tasks s"
    "sy_chan (sys_cancel jid s) = sy_chan s"
    by (simp_all add: sys_cancel_def)
  ultimately show ?thesis
    using assms jobs unfolding sys_inv_def sel cancel_simps(1,2) by blast
qed

lemma sys_invD:
  assumes "sys_inv s" and "sy_tasks s jid = Some tk"
  obtains k where "sy_chan s jid = Some k" "k < tk_next (sy_tracker s)"
    "log_ok (tk_sent (sy_tracker s) k)" "vm_ok (ts_pc tk) (ts_vm tk)"
    "\<And>a. sy_chan s a = Some k \<Longrightarrow> a = jid"
    "\<And>j. tk_jobs (sy_tracker s) jid = Some j \<Longrightarrow> job_ok k (ts_pc tk) j (tk_sent (sy_tracker s) k)"
proof -
  have "sy_tasks s jid \<noteq> None \<longleftrightarrow> sy_chan s jid \<noteq> None" using assms(1) unfolding sys_inv_def by blast
  then obtain k where k: "sy_chan s jid = Some k" using assms(2) by auto
  with assms show ?thesis
    by (intro that [of k]) (unfold sys_inv_def, blast+)
qed

lemma job_ok_tx: "job_ok k p j evs \<Longrightarrow> jb_tx j = Some c \<Longrightarrow> c = k"
proof (cases p)
  case (PDone out)
  then show "job_ok k p j evs \<Longrightarrow> jb_tx j = Some c \<Longrightarrow> c = k" by (cases out) auto
qed auto

text \<open>What one task step does to the whole system, given the invariant.\<close>

lemma sys_task_shape:
  assumes inv: "sys_inv s" and tk: "sy_tasks s jid = Some tk"
    and step: "job_step jid x (ts_pc tk) (sy_tracker s) (ts_vm tk) = (p', t', vm')"
    and k: "sy_chan s jid = Some k"
  shows "\<And>c. c \<noteq> k \<Longrightarrow> tk_sent t' c = tk_sent (sy_tracker s) c"
    and "\<And>i. i \<noteq> jid \<Longrightarrow> tk_jobs t' i = tk_jobs (sy_tracker s) i"
    and "\<And>j. tk_jobs t' jid = Some j \<Longrightarrow> job_ok k p' j (tk_sent t' k)"
    and "log_ok (tk_sent t' k)" and "vm_ok p' vm'"
proof -
  obtain k' where k': "sy_chan s jid = Some k'" "log_ok (tk_sent (sy_tracker s) k')"
    "vm_ok (ts_pc tk) (ts_vm tk)"
    "\<And>j. tk_jobs (sy_tracker s) jid = Some j \<Longrightarrow> job_ok k' (ts_pc tk) j (tk_sent (sy_tracker s) k')"
    using sys_invD [OF inv tk] by metis
  with k have kk: "k' = k" by simp
  note k' = k' [unfolded kk]
  show "vm_ok p' vm'" using job_step_vm [OF k'(3) step] .
  show "tk_jobs t' i = tk_jobs (sy_tracker s) i" if "i \<noteq> jid" for i
    using job_step_other(1) [OF step that] .
  show "tk_sent t' c = tk_sent (sy_tracker s) c" if "c \<noteq> k" for c
  proof (rule job_step_other(3) [OF step])
    show "Option.bind (tk_jobs (sy_tracker s) jid) jb_tx \<noteq> Some c"
      using that job_ok_tx [OF k'(4)] by (cases "tk_jobs (sy_tracker s) jid") auto
  qed
  have own: "log_ok (tk_sent t' k) \<and> (\<forall>j. tk_jobs t' jid = Some j \<longrightarrow> job_ok k p' j (tk_sent t' k))"
  proof (cases "tk_jobs (sy_tracker s) jid")
    case None
    then show ?thesis using job_step_absent [OF None step] k'(2) by simp
  next
    case (Some j)
    from job_step_own [OF Some k'(4) [OF Some] step] show ?thesis
      using job_ok_log by auto
  qed
  then show "log_ok (tk_sent t' k)" by blast
  show "job_ok k p' j (tk_sent t' k)" if "tk_jobs t' jid = Some j" for j using own that by blast
qed

lemma sys_inv_task:
  assumes inv: "sys_inv s" and tk: "sy_tasks s jid = Some tk"
  shows "sys_inv (sys_task jid x tk s)"
proof -
  obtain p' t' vm' where step: "job_step jid x (ts_pc tk) (sy_tracker s) (ts_vm tk) = (p', t', vm')"
    by (metis prod_cases3)
  obtain k where k: "sy_chan s jid = Some k" "k < tk_next (sy_tracker s)"
    "\<And>a. sy_chan s a = Some k \<Longrightarrow> a = jid"
    using sys_invD [OF inv tk] by metis
  note shape = sys_task_shape [OF inv tk step k(1)]
  note nxt = job_step_other(2) [OF step]
  let ?m = "(sy_tasks s)(jid \<mapsto> \<lparr>ts_pc = p', ts_vm = vm'\<rparr>)"
  have sel: "sy_tracker (sys_task jid x tk s) = t'" "sy_tasks (sys_task jid x tk s) = ?m"
    "sy_chan (sys_task jid x tk s) = sy_chan s"
    by (simp_all add: sys_task_def step)
  have "tk_jobs t' i \<noteq> None \<longrightarrow> ?m i \<noteq> None" for i
    using inv tk shape(2) [of i] unfolding sys_inv_def by auto
  moreover have "?m i \<noteq> None \<longleftrightarrow> sy_chan s i \<noteq> None" for i
    using inv k(1) unfolding sys_inv_def by auto
  moreover have "c < tk_next t' \<and> log_ok (tk_sent t' c)" if "sy_chan s a = Some c" for a c
    using inv that shape(1) [of c] shape(4) nxt unfolding sys_inv_def by (cases "c = k") auto
  moreover have "tk_sent t' c = []" if "tk_next t' \<le> c" for c
    using inv that shape(1) [of c] k(2) nxt unfolding sys_inv_def by auto
  moreover have "vm_ok (ts_pc u) (ts_vm u)" if "?m i = Some u" for i u
    using inv that shape(5) unfolding sys_inv_def by (auto split: if_splits)
  moreover have "job_ok c (ts_pc u) j (tk_sent t' c)"
    if "?m i = Some u" "sy_chan s i = Some c" "tk_jobs t' i = Some j" for i u c j
  proof (cases "i = jid")
    case True
    then have "u = \<lparr>ts_pc = p', ts_vm = vm'\<rparr>" "c = k" using that k(1) by simp_all
    then show ?thesis using that(3) shape(3) True by simp
  next
    case False
    then have "c \<noteq> k" using k(3) that(2) by blast
    with False that show ?thesis
      using inv shape(1) [of c] shape(2) [of i] unfolding sys_inv_def by auto
  qed
  moreover have "a = b" if "sy_chan s a = Some c" "sy_chan s b = Some c" for a b c
    using inv that unfolding sys_inv_def by blast
  ultimately show ?thesis unfolding sys_inv_def sel by blast
qed

lemma sys_inv_step: "sys_step s s' \<Longrightarrow> sys_inv s \<Longrightarrow> sys_inv s'"
  by (elim sys_stepE) (auto intro: sys_inv_submit sys_inv_cancel sys_inv_task)

lemma reachable_inv: "reachable s \<Longrightarrow> sys_inv s"
  by (induction rule: reachable.induct) (auto intro: sys_inv_init sys_inv_step)

section \<open>What a finished, a cancelled and a running job look like\<close>

lemma reachable_job_ok:
  assumes "reachable s" and "sy_tasks s jid = Some tk" and "tk_jobs (sy_tracker s) jid = Some j"
  obtains k where "sy_chan s jid = Some k" "job_ok k (ts_pc tk) j (tk_sent (sy_tracker s) k)"
  using sys_invD [OF reachable_inv [OF assms(1)] assms(2)] assms(3) by metis

lemma reachable_task:
  assumes "reachable s" and "tk_jobs (sy_tracker s) jid = Some j"
  obtains tk where "sy_tasks s jid = Some tk"
  using reachable_inv [OF assms(1)] assms(2) unfolding sys_inv_def by blast

text \<open>The states in order, and the rank that a program counter fixes.\<close>

fun rank :: "job_status \<Rightarrow> nat" where
  "rank Queued = 0" | "rank SpawningVm = 1" | "rank Bootstrapping = 2" | "rank Uploading = 3"
| "rank Analyzing = 4" | "rank Completed = 5" | "rank Failed = 5"

lemma job_ok_status:
  "job_ok k p j evs \<Longrightarrow>
     (jb_status j = Completed \<longleftrightarrow> p = PDone None) \<and> (jb_result j \<noteq> None \<longleftrightarrow> p = PDone None) \<and>
     (jb_tx j = None \<longleftrightarrow> is_done p) \<and> rank (jb_status j) \<le> 5"
proof (cases p)
  case (PDone out)
  then show "job_ok k p j evs \<Longrightarrow> ?thesis" by (cases out) (auto simp: is_done_def)
qed (auto simp: is_done_def failed_at_def)

lemma set_status_rank:
  assumes "tk_jobs t jid = Some j" and "tk_jobs (set_status st t jid) jid = Some j'"
  shows "jb_status j' = st"
  using assms by (auto simp: task_updates)

lemma job_step_rank:
  assumes "tk_jobs t jid = Some j" and "job_ok k p j (tk_sent t k)"
    and "job_step jid x p t vm = (p', t', vm')" and "tk_jobs t' jid = Some j'"
  shows "rank (jb_status j) \<le> rank (jb_status j')"
  using assms job_step_own [OF assms(1-3)]
  by (cases p; cases x)
    (auto simp: check_step_def task_updates failed_at_def split: if_splits)

text \<open>A job that is gone stays gone, and its log stays as it was.\<close>

lemma absent_step:
  assumes step: "sys_step s s'" and inv: "sys_inv s"
    and "sy_chan s jid = Some k" and "tk_jobs (sy_tracker s) jid = None"
  shows "sys_inv s' \<and> sy_chan s' jid = Some k \<and> tk_jobs (sy_tracker s') jid = None \<and>
     tk_sent (sy_tracker s') k = tk_sent (sy_tracker s) k"
proof -
  consider
      (sub) i path name timeout now where "s' = sys_submit i path name timeout now s" "sy_tasks s i = None"
    | (can) i where "s' = sys_cancel i s"
    | (tsk) i tk x where "s' = sys_task i x tk s" "sy_tasks s i = Some tk"
    using step by (blast elim: sys_stepE)
  then show ?thesis
  proof cases
  case sub
  have "sy_tasks s jid \<noteq> None" using inv assms(3) unfolding sys_inv_def by blast
  then have "i \<noteq> jid" using sub by auto
  then show ?thesis
    using assms(3,4) sub sys_inv_step [OF step inv] by (simp add: sys_submit_def tracker_simps)
next
  case can
  then show ?thesis
    using assms(3,4) sys_inv_step [OF step inv] by (simp add: sys_cancel_def tracker_simps)
next
  case tsk
  obtain p' t' vm' where st: "job_step i x (ts_pc tk) (sy_tracker s) (ts_vm tk) = (p', t', vm')"
    by (metis prod_cases3)
  obtain c where c: "sy_chan s i = Some c" using sys_invD [OF inv tsk(2)] by metis
  note shape = sys_task_shape [OF inv tsk(2) st c]
  have "tk_jobs t' jid = None \<and> tk_sent t' k = tk_sent (sy_tracker s) k"
  proof (cases "i = jid")
    case True
    then show ?thesis using job_step_absent [OF _ st] assms(4) by simp
  next
    case False
    then have "c \<noteq> k" using inv c assms(3) unfolding sys_inv_def by blast
    then show ?thesis using shape(1) [of k] shape(2) [of jid] False assms(4) by auto
  qed
  then show ?thesis
    using tsk(1) st assms(3) sys_inv_step [OF step inv] by (simp add: sys_task_def)
  qed
qed

lemma absent_steps:
  assumes "sys_step\<^sup>*\<^sup>* s s'" and "sys_inv s"
    and "sy_chan s jid = Some k" and "tk_jobs (sy_tracker s) jid = None"
  shows "sys_inv s' \<and> sy_chan s' jid = Some k \<and> tk_jobs (sy_tracker s') jid = None \<and>
     tk_sent (sy_tracker s') k = tk_sent (sy_tracker s) k"
  using assms(1)
proof (induction rule: rtranclp_induct)
  case (step y z)
  then show ?case using absent_step [OF step.hyps(2)] by (metis (full_types))
qed (use assms(2-) in simp)

text \<open>The messages a failed task can have: the outermost text of an error chain is all that
  \<open>to_string\<close> keeps.\<close>

definition fixed_messages :: "string list" where
  "fixed_messages = [''job cancelled'', ''failed to create VM'', ''mTLS bootstrap failed'',
     ''mTLS connect failed'', ''sample upload failed'', analysis_error ''analysis failed'']"

fun msg_ok :: "pc \<Rightarrow> bool" where
  "msg_ok (PFail m) \<longleftrightarrow> m \<in> set fixed_messages"
| "msg_ok (PEmit m) \<longleftrightarrow> m \<in> set fixed_messages"
| "msg_ok (PDone (Some m)) \<longleftrightarrow> m \<in> set fixed_messages"
| "msg_ok _ \<longleftrightarrow> True"

lemma job_step_msg: "msg_ok p \<Longrightarrow> msg_ok (fst (job_step jid x p t vm))"
  by (cases p; cases x) (auto simp: check_step_def after_await_def anyhow_to_string_def fixed_messages_def)

lemma reachable_msg: "reachable s \<Longrightarrow> sy_tasks s jid = Some tk \<Longrightarrow> msg_ok (ts_pc tk)"
proof (induction arbitrary: jid tk rule: reachable.induct)
  case start
  then show ?case by (simp add: init_sys_def)
next
  case (step s s')
  consider
      (sub) i path name timeout now where "s' = sys_submit i path name timeout now s"
    | (can) i where "s' = sys_cancel i s"
    | (tsk) i u x where "s' = sys_task i x u s" "sy_tasks s i = Some u"
    using step.hyps(2) by (blast elim: sys_stepE)
  then show ?case
  proof cases
    case sub
    then show ?thesis using step.prems step.IH by (auto simp: sys_submit_def split: if_splits)
  next
    case can
    then show ?thesis using step.prems step.IH by (simp add: sys_cancel_def)
  next
    case tsk
    then show ?thesis
      using step.prems step.IH job_step_msg [of "ts_pc u" i x "sy_tracker s" "ts_vm u"]
      by (auto simp: sys_task_def split: prod.splits if_splits)
  qed
qed

section \<open>The task alone\<close>

text \<open>
  A task driven from a program counter by the outcomes of its awaits; before each step the other
  users of the tracker may change it in any way (\<open>f\<close>).
\<close>

fun run_task :: "string \<Rightarrow> (ext \<times> (job_tracker \<Rightarrow> job_tracker)) list \<Rightarrow> pc \<times> job_tracker \<times> bool \<Rightarrow>
    pc \<times> job_tracker \<times> bool" where
  "run_task jid [] st = st"
| "run_task jid ((x, f) # xs) (p, t, vm) = run_task jid xs (job_step jid x p (f t) vm)"

fun steps_left :: "pc \<Rightarrow> nat" where
  "steps_left PSpawnStatus = 14" | "steps_left PCreateVm = 13" | "steps_left PCheck1 = 12"
| "steps_left PBootStatus = 11" | "steps_left PBoot = 10" | "steps_left PCheck2 = 9"
| "steps_left PUploadStatus = 8" | "steps_left PConnect = 7" | "steps_left PUpload = 6"
| "steps_left PCheck3 = 5" | "steps_left PAnalyzeStatus = 4" | "steps_left PAnalyze = 3"
| "steps_left (PTeardown r) = 2" | "steps_left (PSetResult r) = 1"
| "steps_left (PFail m) = 2" | "steps_left (PEmit m) = 1" | "steps_left (PDone out) = 0"

lemma job_step_left:
  "\<not> is_done p \<Longrightarrow> steps_left (fst (job_step jid x p t vm)) < steps_left p"
  by (cases p; cases x) (auto simp: is_done_def check_step_def after_await_def)

lemma steps_left_done: "steps_left p = 0 \<longleftrightarrow> is_done p"
  by (cases p) (simp_all add: is_done_def)

lemma done_stays: "is_done p \<Longrightarrow> is_done (fst (run_task jid xs (p, t, vm)))"
proof (induction xs arbitrary: t vm)
  case (Cons e xs)
  then show ?case by (cases e; cases p) (auto simp: is_done_def)
qed simp

lemma run_task_ends:
  "steps_left p \<le> length xs \<Longrightarrow> is_done (fst (run_task jid xs (p, t, vm)))"
proof (induction xs arbitrary: p t vm)
  case Nil
  then show ?case by (simp add: steps_left_done)
next
  case (Cons e xs)
  obtain x f where e: "e = (x, f)" by (cases e)
  show ?case
  proof (cases "is_done p")
    case True
    then show ?thesis by (rule done_stays)
  next
    case False
    obtain p' t' vm' where st: "job_step jid x p (f t) vm = (p', t', vm')" by (metis prod_cases3)
    have "steps_left p' \<le> length xs"
      using job_step_left [OF False, of jid x "f t" vm] st Cons.prems by simp
    from Cons.IH [OF this] show ?thesis by (simp add: e st)
  qed
qed

section \<open>Properties\<close>



text \<open>When every await of an undisturbed task succeeds, the job ends completed with the result of the
  analysis, its machine is gone, and its channel carried the four progress states in order and then
  the completion with the exit code and run time of the result.\<close>

theorem job_success:
  assumes "tk_jobs t jid = Some j" and "jb_tx j = Some k" and "tk_sent t k = []"
  shows "case run_task jid (replicate 14 (Good r, \<lambda>t. t)) (PSpawnStatus, t, False) of (p, t', vm) \<Rightarrow>
     p = PDone None \<and> \<not> vm \<and>
     tk_jobs t' jid = Some (j\<lparr>jb_tx := None, jb_result := Some r, jb_status := Completed\<rparr>) \<and>
     tk_sent t' k = map StatusChanged [''spawningvm'', ''bootstrapping'', ''uploading'', ''analyzing'']
       @ [CompletedEvent (ar_exit_code r) (ar_runtime_ms r)]"
  using assms
  by (simp add: numeral_eq_Suc check_step_def after_await_def has_def task_updates task_sends
      status_event_names)

theorem job_success_witness:
  "case run_task ''j'' (replicate 14 (Good \<lparr>ar_exit_code = 0, ar_runtime_ms = 5, ar_features_json = ''{}''\<rparr>, \<lambda>t. t))
      (PSpawnStatus, fst (submit new_tracker ''j'' ''/s/a'' ''a'' 300 9), False) of (p, t', vm) \<Rightarrow>
     p = PDone None \<and> \<not> vm \<and>
     tk_jobs t' ''j'' = Some (\<lparr>jb_id = ''j'', jb_status = Queued, jb_sample_name = ''a'',
        jb_sample_path = ''/s/a'', jb_timeout_secs = 300, jb_created_at = 9, jb_result = None,
        jb_tx = Some 0\<rparr>\<lparr>jb_tx := None,
        jb_result := Some \<lparr>ar_exit_code = 0, ar_runtime_ms = 5, ar_features_json = ''{}''\<rparr>,
        jb_status := Completed\<rparr>) \<and>
     tk_sent t' 0 = map StatusChanged [''spawningvm'', ''bootstrapping'', ''uploading'', ''analyzing'']
       @ [CompletedEvent (ar_exit_code \<lparr>ar_exit_code = 0, ar_runtime_ms = 5, ar_features_json = ''{}''\<rparr>)
            (ar_runtime_ms \<lparr>ar_exit_code = 0, ar_runtime_ms = 5, ar_features_json = ''{}''\<rparr>)]"
  by (rule job_success) (simp_all add: tracker_simps new_tracker_def)

text \<open>An executable run of one task inside the system, to reach concrete states.\<close>

fun sys_run :: "string \<Rightarrow> ext list \<Rightarrow> sys \<Rightarrow> sys" where
  "sys_run jid [] s = s"
| "sys_run jid (x # xs) s = (case sy_tasks s jid of
       None \<Rightarrow> s
     | Some tk \<Rightarrow> if is_done (ts_pc tk) then s else sys_run jid xs (sys_task jid x tk s))"

lemma sys_run_reachable: "reachable s \<Longrightarrow> reachable (sys_run jid xs s)"
  by (induction jid xs s rule: sys_run.induct)
    (auto split: option.splits intro: reachable.step sys_step.task_step)

definition example_sys :: sys where
  "example_sys = sys_submit ''j'' ''/s/a'' ''a'' 300 9 init_sys"

lemma example_sys_reachable: "reachable (sys_run ''j'' xs example_sys)"
  unfolding example_sys_def
  by (intro sys_run_reachable reachable.step [OF reachable.start] sys_step.submit_step)
    (simp add: init_sys_def)

lemmas run_simps = example_sys_def init_sys_def new_tracker_def sys_submit_def sys_task_def
  submit_def Let_def is_done_def check_step_def after_await_def has_def set_status_def
  tx_send_def anyhow_to_string_def set_result_def emit_error_def

definition lost_sys :: sys where
  "lost_sys = sys_run ''j'' (replicate 4 (Good \<lparr>ar_exit_code = 0, ar_runtime_ms = 5, ar_features_json = []\<rparr>)
     @ replicate 3 (Bad [''connection refused''])) example_sys"

lemma lost_sys:
  "sy_tasks lost_sys ''j'' = Some \<lparr>ts_pc = PDone (Some ''mTLS bootstrap failed''), ts_vm = True\<rparr>"
  "reachable lost_sys"
  "\<exists>j. tk_jobs (sy_tracker lost_sys) ''j'' = Some j"
  "sy_chan lost_sys ''j'' = Some 0"
     apply (simp add: lost_sys_def run_simps numeral_eq_Suc)
    apply (unfold lost_sys_def, rule example_sys_reachable)
   apply (simp add: run_simps numeral_eq_Suc)
  apply (simp add: run_simps numeral_eq_Suc)
  done



text \<open>C6: Every channel of every reachable state carried one of these logs: a prefix of the four progress
  states in order; at least the first of them and then the failed state, alone or with one final error;
  or all four and one final completion. No event follows an error or a completion.\<close>

theorem event_log_legal:
  assumes "reachable s" and "sy_chan s jid = Some k"
  shows "\<exists>n \<le> 4. tk_sent (sy_tracker s) k \<in> {progress n} \<union>
     (if n = 0 then {} else {progress n @ [failed_event]} \<union>
        {progress n @ [failed_event, ErrorEvent m] | m. True}) \<union>
     (if n = 4 then {progress n @ [CompletedEvent c r] | c r. True} else {})"
proof -
  have "log_ok (tk_sent (sy_tracker s) k)"
    using reachable_inv [OF assms(1)] assms(2) unfolding sys_inv_def by blast
  then consider (a) n where "n \<le> 4" "tk_sent (sy_tracker s) k = progress n"
    | (b) n where "n \<le> 4" "n \<noteq> 0" "tk_sent (sy_tracker s) k = progress n @ [failed_event]"
    | (c) n m where "n \<le> 4" "n \<noteq> 0"
        "tk_sent (sy_tracker s) k = progress n @ [failed_event, ErrorEvent m]"
    | (d) c r where "tk_sent (sy_tracker s) k = progress 4 @ [CompletedEvent c r]"
    by (rule log_okE)
  then show ?thesis
  proof cases
    case a
    then show ?thesis by (intro exI [of _ n]) simp
  next
    case b
    then show ?thesis by (intro exI [of _ n]) simp
  next
    case c
    then show ?thesis by (intro exI [of _ n]) auto
  next
    case d
    then show ?thesis by (intro exI [of _ 4]) auto
  qed
qed

theorem event_log_legal_witness:
  "\<exists>n \<le> 4. tk_sent (sy_tracker lost_sys) 0 \<in> {progress n} \<union>
     (if n = 0 then {} else {progress n @ [failed_event]} \<union>
        {progress n @ [failed_event, ErrorEvent m] | m. True}) \<union>
     (if n = 4 then {progress n @ [CompletedEvent c r] | c r. True} else {})"
  by (rule event_log_legal [OF lost_sys(2,4)])



text \<open>C26: A cancelled job never comes back: once a submitted job is out of the table no later step of any
  task or handler puts it back, and no further event is ever sent on its channel.\<close>

theorem cancelled_for_good:
  assumes "reachable s" and "sy_chan s jid = Some k"
    and "sys_step\<^sup>*\<^sup>* (sys_cancel jid s) s'"
  shows "get_info (sy_tracker s') jid = None \<and> tk_sent (sy_tracker s') k = tk_sent (sy_tracker s) k"
proof -
  have "sys_inv (sys_cancel jid s)" by (rule sys_inv_cancel [OF reachable_inv [OF assms(1)]])
  moreover have "sy_chan (sys_cancel jid s) jid = Some k"
    "tk_jobs (sy_tracker (sys_cancel jid s)) jid = None"
    "tk_sent (sy_tracker (sys_cancel jid s)) k = tk_sent (sy_tracker s) k"
    using assms(2) by (simp_all add: sys_cancel_def tracker_simps)
  ultimately show ?thesis using absent_steps [OF assms(3)] by (simp add: get_info_def)
qed

theorem cancelled_for_good_witness:
  "get_info (sy_tracker (sys_cancel ''j'' lost_sys)) ''j'' = None \<and>
     tk_sent (sy_tracker (sys_cancel ''j'' lost_sys)) 0 = tk_sent (sy_tracker lost_sys) 0"
  by (rule cancelled_for_good [OF lost_sys(2,4)]) simp

text \<open>The status of a job only moves forward, in the order queued, spawning, bootstrapping, uploading,
  analyzing, and then completed or failed, for as long as the job is in the table.\<close>

theorem status_moves_forward:
  assumes "reachable s" and "sys_step s s'"
    and "tk_jobs (sy_tracker s) jid = Some j" and "tk_jobs (sy_tracker s') jid = Some j'"
  shows "rank (jb_status j) \<le> rank (jb_status j')"
  using assms(2)
proof (cases rule: sys_step.cases)
  case (submit_step i path name timeout now)
  obtain tk where "sy_tasks s jid = Some tk" using reachable_task [OF assms(1,3)] .
  then have "i \<noteq> jid" using submit_step by auto
  then show ?thesis using submit_step assms(3,4) by (simp add: sys_submit_def tracker_simps)
next
  case (cancel_step i)
  then show ?thesis using assms(3,4) by (simp add: sys_cancel_def tracker_simps split: if_splits)
next
  case (task_step i tk x)
  obtain p' t' vm' where st: "job_step i x (ts_pc tk) (sy_tracker s) (ts_vm tk) = (p', t', vm')"
    by (metis prod_cases3)
  have t': "sy_tracker s' = t'" using task_step st by (simp add: sys_task_def)
  show ?thesis
  proof (cases "i = jid")
    case True
    obtain k where "job_ok k (ts_pc tk) j (tk_sent (sy_tracker s) k)"
      using reachable_job_ok [OF assms(1)] task_step True assms(3) by metis
    with job_step_rank [of "sy_tracker s" jid j k] st assms(3,4) t' True show ?thesis by blast
  next
    case False
    then show ?thesis using job_step_other(1) [OF st] assms(3,4) t' by auto
  qed
qed

theorem status_moves_forward_witness:
  "case tk_jobs (sy_tracker (sys_run ''j'' [Bad []] example_sys)) ''j'' of None \<Rightarrow> False
   | Some j' \<Rightarrow> rank Queued \<le> rank (jb_status j')"
proof -
  obtain j where j: "tk_jobs (sy_tracker example_sys) ''j'' = Some j" "jb_status j = Queued"
    by (simp add: run_simps)
  obtain j' where j': "tk_jobs (sy_tracker (sys_run ''j'' [Bad []] example_sys)) ''j'' = Some j'"
    by (simp add: run_simps)
  have "sys_step example_sys (sys_run ''j'' [Bad []] example_sys)"
    using sys_step.task_step [of example_sys "''j''" "\<lparr>ts_pc = PSpawnStatus, ts_vm = False\<rparr>" "Bad []"]
    by (simp add: run_simps)
  moreover have "reachable example_sys" using example_sys_reachable [of "[]"] by simp
  ultimately show ?thesis using status_moves_forward [of example_sys _ "''j''" j j'] j j' by simp
qed

text \<open>A failed job tells its subscribers one of six fixed texts, which name the stage and nothing of the
  cause: the chain of causes that the stages attach is cut off when the error is turned into a string,
  also inside the JSON text of a failed analysis.\<close>

theorem error_texts_fixed:
  assumes "reachable s" and "sy_tasks s jid = Some tk" and "ts_pc tk = PDone (Some m)"
  shows "m \<in> set fixed_messages"
  using reachable_msg [OF assms(1,2)] assms(3) by simp

theorem error_texts_fixed_witness: "''mTLS bootstrap failed'' \<in> set fixed_messages"
  by (rule error_texts_fixed [OF lost_sys(2,1)]) simp

end
