(* ===== verification/Rust_Net.thy ===== *)
theory Rust_Net
  imports Rust_Text
begin

text \<open>
  \<open>std::net::IpAddr\<close>: parsing and printing of addresses, as the two halves of the bootstrap use
  them. The parsers follow the recursive descent of the standard library: each takes the rest of the
  text and gives a value and the new rest, or nothing.
\<close>

datatype ip_addr = V4 u8 u8 u8 u8 | V6 "u16 list"

definition UNSPECIFIED :: ip_addr where "UNSPECIFIED = V4 0 0 0 0"

section \<open>Parsing\<close>

definition to_digit :: "nat \<Rightarrow> char \<Rightarrow> nat option" where
  "to_digit radix c =
     (let n = of_char c :: nat;
          d = (if 48 \<le> n \<and> n \<le> 57 then n - 48
               else if 97 \<le> n \<and> n \<le> 122 then n - 87
               else if 65 \<le> n \<and> n \<le> 90 then n - 55 else radix)
      in if d < radix then Some d else None)"

definition digits_value :: "nat \<Rightarrow> string \<Rightarrow> nat" where
  "digits_value radix ds = foldl (\<lambda>a c. radix * a + (case to_digit radix c of Some d \<Rightarrow> d | None \<Rightarrow> 0)) 0 ds"

definition read_number :: "nat \<Rightarrow> nat \<Rightarrow> bool \<Rightarrow> nat \<Rightarrow> string \<Rightarrow> (nat \<times> string) option" where
  "read_number radix max_digits allow_zero_prefix bound s =
     (let ds = takeWhile (\<lambda>c. to_digit radix c \<noteq> None) s
      in if max_digits < length ds then None
         else if ds = [] then None
         else if \<not> allow_zero_prefix \<and> hd ds = CHR ''0'' \<and> 1 < length ds then None
         else if digits_value radix ds < bound then Some (digits_value radix ds, drop (length ds) s)
         else None)"

definition read_char :: "char \<Rightarrow> string \<Rightarrow> string option" where
  "read_char c s = (case s of [] \<Rightarrow> None | d # r \<Rightarrow> if c = d then Some r else None)"

definition read_separated :: "bool \<Rightarrow> char \<Rightarrow> (string \<Rightarrow> ('a \<times> string) option) \<Rightarrow> string \<Rightarrow> ('a \<times> string) option" where
  "read_separated first sep inner s = (if first then inner s else Option.bind (read_char sep s) inner)"

definition read_octet :: "bool \<Rightarrow> string \<Rightarrow> (nat \<times> string) option" where
  "read_octet first = read_separated first (CHR ''.'') (read_number 10 3 False 256)"

definition read_ipv4 :: "string \<Rightarrow> ((nat \<times> nat \<times> nat \<times> nat) \<times> string) option" where
  "read_ipv4 s =
     Option.bind (read_octet True s) (\<lambda>(a, s1).
     Option.bind (read_octet False s1) (\<lambda>(b, s2).
     Option.bind (read_octet False s2) (\<lambda>(c, s3).
     Option.bind (read_octet False s3) (\<lambda>(d, s4). Some ((a, b, c, d), s4)))))"

text \<open>Up to \<open>limit\<close> groups, the last two of which may be an embedded IPv4 address.\<close>

fun read_groups :: "nat \<Rightarrow> bool \<Rightarrow> string \<Rightarrow> nat list \<times> bool \<times> string" where
  "read_groups 0 first s = ([], False, s)"
| "read_groups (Suc r) first s =
     (case (if 0 < r then read_separated first (CHR '':'') read_ipv4 s else None) of
        Some ((a, b, c, d), s1) \<Rightarrow> ([256 * a + b, 256 * c + d], True, s1)
      | None \<Rightarrow>
          (case read_separated first (CHR '':'') (read_number 16 4 True 65536) s of
             None \<Rightarrow> ([], False, s)
           | Some (g, s1) \<Rightarrow>
               (case read_groups r False s1 of (gs, v4, s2) \<Rightarrow> (g # gs, v4, s2))))"

definition read_ipv6 :: "string \<Rightarrow> (nat list \<times> string) option" where
  "read_ipv6 s =
     (case read_groups 8 True s of (head, head_ipv4, s1) \<Rightarrow>
       if length head = 8 then Some (head, s1)
       else if head_ipv4 then None
       else Option.bind (Option.bind (read_char (CHR '':'') s1) (read_char (CHR '':''))) (\<lambda>s2.
         (case read_groups (8 - (length head + 1)) True s2 of (tail, _, s3) \<Rightarrow>
            Some (head @ replicate (8 - length head - length tail) 0 @ tail, s3))))"

definition parse_ip :: "string \<Rightarrow> ip_addr option" where
  "parse_ip s =
     (case read_ipv4 s of
        Some ((a, b, c, d), r) \<Rightarrow>
          (if r = [] then Some (V4 (word_of_nat a) (word_of_nat b) (word_of_nat c) (word_of_nat d)) else None)
      | None \<Rightarrow>
          (case read_ipv6 s of
             Some (gs, r) \<Rightarrow> (if r = [] then Some (V6 (map word_of_nat gs)) else None)
           | None \<Rightarrow> None))"

section \<open>Printing\<close>

definition show_v4 :: "nat \<Rightarrow> nat \<Rightarrow> nat \<Rightarrow> nat \<Rightarrow> string" where
  "show_v4 a b c d = show_dec a @ ''.'' @ show_dec b @ ''.'' @ show_dec c @ ''.'' @ show_dec d"

fun join_groups :: "nat list \<Rightarrow> string" where
  "join_groups [] = []"
| "join_groups [g] = show_hex g"
| "join_groups (g # gs) = show_hex g @ '':'' @ join_groups gs"

text \<open>The first longest run of zero groups, as its start and length.\<close>

definition zero_run :: "nat list \<Rightarrow> nat \<Rightarrow> nat" where
  "zero_run gs i = length (takeWhile (\<lambda>g. g = 0) (drop i gs))"

definition longest_zeros :: "nat list \<Rightarrow> nat \<times> nat" where
  "longest_zeros gs = foldl (\<lambda>(s, l) i. if l < zero_run gs i then (i, zero_run gs i) else (s, l))
     (0, 0) [0 ..< length gs]"

fun show_ip :: "ip_addr \<Rightarrow> string" where
  "show_ip (V4 a b c d) = show_v4 (unat a) (unat b) (unat c) (unat d)"
| "show_ip (V6 ws) =
     (let gs = map unat ws;
          (st, len) = longest_zeros gs
      in if take 6 gs = [0, 0, 0, 0, 0, 65535] then
           ''::ffff:'' @ show_v4 (gs ! 6 div 256) (gs ! 6 mod 256) (gs ! 7 div 256) (gs ! 7 mod 256)
         else if 1 < len then join_groups (take st gs) @ ''::'' @ join_groups (drop (st + len) gs)
         else join_groups gs)"

section \<open>IPv4 addresses survive printing and parsing\<close>

lemma to_digit_digit: "d < 10 \<Longrightarrow> to_digit 10 (digit_char d) = Some d"
  by (simp add: to_digit_def digit_char_def Let_def)

lemma digits_value_snoc:
  "digits_value 10 (ds @ [c]) = 10 * digits_value 10 ds + (case to_digit 10 c of Some d \<Rightarrow> d | None \<Rightarrow> 0)"
  by (simp add: digits_value_def)

lemma digits_value_show_dec: "digits_value 10 (show_dec n) = n"
  unfolding show_dec_def
proof (induction "10 :: nat" n rule: show_base.induct)
  case (1 n)
  have "digits_value 10 [digit_char n] = n" if "n < 10"
    using that by (simp add: digits_value_def to_digit_digit)
  then show ?case
    using 1 by (cases "n < 10")
      (simp_all add: show_base.simps [of 10 n] digits_value_snoc to_digit_digit)
qed

lemma show_dec_hd: "0 < n \<Longrightarrow> hd (show_dec n) \<noteq> CHR ''0''"
  unfolding show_dec_def
proof (induction "10 :: nat" n rule: show_base.induct)
  case (1 n)
  have ne: "show_base 10 (n div 10) \<noteq> []" by (simp add: show_base.simps [of 10 "n div 10"])
  have "digit_char n \<noteq> CHR ''0''" if "n < 10"
    using that 1(2) digit_val_digit_char [of n] by (auto simp: digit_val_def)
  then show ?case using 1 ne
    by (cases "n < 10") (simp_all add: show_base.simps [of 10 n])
qed

lemma show_dec_length: "n < 256 \<Longrightarrow> length (show_dec n) \<le> 3 \<and> (1 < length (show_dec n) \<longrightarrow> 0 < n)"
  unfolding show_dec_def
  by (cases "n = 0") (auto simp: show_base.simps [of 10 n] show_base.simps [of 10 "n div 10"]
      show_base.simps [of 10 "n div 10 div 10"] show_base.simps [of 10 0])

lemma read_number_show_dec:
  assumes "n < 256" and "r = [] \<or> to_digit 10 (hd r) = None"
  shows "read_number 10 3 False 256 (show_dec n @ r) = Some (n, r)"
proof -
  have digits: "\<forall>c \<in> set (show_dec n). to_digit 10 c \<noteq> None"
    using show_dec_digits [of n] to_digit_digit by auto
  have "takeWhile (\<lambda>c. to_digit 10 c \<noteq> None) (show_dec n @ r) =
      show_dec n @ takeWhile (\<lambda>c. to_digit 10 c \<noteq> None) r"
    by (rule takeWhile_append2) (use digits in blast)
  also have "takeWhile (\<lambda>c. to_digit 10 c \<noteq> None) r = []"
    using assms(2) by (cases r) auto
  finally have tw: "takeWhile (\<lambda>c. to_digit 10 c \<noteq> None) (show_dec n @ r) = show_dec n" by simp
  show ?thesis
    using show_dec_length [OF assms(1)] show_dec_hd [of n] assms(1)
    unfolding read_number_def Let_def tw by (auto simp: digits_value_show_dec)
qed

lemma read_octet_show_dec:
  assumes "n < 256" and "r = [] \<or> to_digit 10 (hd r) = None"
  shows "read_octet True (show_dec n @ r) = Some (n, r)"
    and "read_octet False (CHR ''.'' # show_dec n @ r) = Some (n, r)"
  using read_number_show_dec [OF assms]
  by (simp_all add: read_octet_def read_separated_def read_char_def)

lemma read_ipv4_show:
  assumes "a < 256" "b < 256" "c < 256" "d < 256"
  shows "read_ipv4 (show_v4 a b c d) = Some ((a, b, c, d), [])"
proof -
  have dot: "to_digit 10 (CHR ''.'') = None" by (simp add: to_digit_def)
  have "read_octet True (show_v4 a b c d) =
      Some (a, CHR ''.'' # show_dec b @ CHR ''.'' # show_dec c @ CHR ''.'' # show_dec d)"
    using read_octet_show_dec(1) [OF assms(1)] dot by (simp add: show_v4_def)
  moreover have "read_octet False (CHR ''.'' # show_dec b @ CHR ''.'' # show_dec c @ CHR ''.'' # show_dec d) =
      Some (b, CHR ''.'' # show_dec c @ CHR ''.'' # show_dec d)"
    "read_octet False (CHR ''.'' # show_dec c @ CHR ''.'' # show_dec d) = Some (c, CHR ''.'' # show_dec d)"
    "read_octet False (CHR ''.'' # show_dec d) = Some (d, [])"
    using read_octet_show_dec(2) [OF assms(2)] read_octet_show_dec(2) [OF assms(3)]
      read_octet_show_dec(2) [OF assms(4), of "[]"] dot
    by simp_all
  ultimately show ?thesis by (simp add: read_ipv4_def)
qed

lemma parse_show_v4 [std_simps]: "parse_ip (show_ip (V4 a b c d)) = Some (V4 a b c d)"
  using read_ipv4_show [of "unat a" "unat b" "unat c" "unat d"] unat_u8_less
  by (simp add: parse_ip_def)

end
