(* ===== verification/Certs.thy ===== *)
theory Certs
  imports Rust_Net
begin

text \<open>
  The certificates of a job: \<open>crates/malbox-agent/src/certs.rs\<close> (the agent's request) and
  \<open>crates/malbox-controller/src/cert.rs\<close> (the authority of the job, the controller's certificate,
  and the signature on the agent's request). The crate \<open>rcgen\<close> is the parameter \<open>rc\<close>: what it is
  called with is modelled, what it computes is not. \<open>'k\<close> are its key pairs, \<open>'c\<close> its certificates
  and \<open>'q\<close> its parsed requests; the key pairs that \<open>KeyPair::generate\<close> returns are arguments.
\<close>

record cert_params =
  cp_is_ca :: bool
  cp_common_name :: "string option"
  cp_alt_names :: "ip_addr list"

record ('k, 'c, 'q) rcgen =
  rg_self_signed :: "cert_params \<Rightarrow> 'k \<Rightarrow> (string, 'c) res"
  rg_signed_by :: "cert_params \<Rightarrow> 'k \<Rightarrow> cert_params \<times> 'k \<Rightarrow> (string, 'c) res"
  rg_request :: "cert_params \<Rightarrow> 'k \<Rightarrow> (string, string) res"
  rg_csr_from_pem :: "string \<Rightarrow> (string, 'q) res"
  rg_sign_csr :: "'q \<Rightarrow> 'c \<times> 'k \<Rightarrow> (string, 'c) res"
  rg_pem :: "'c \<Rightarrow> string"
  rg_key_pem :: "'k \<Rightarrow> string"

definition default_params :: cert_params where
  "default_params = \<lparr>cp_is_ca = False, cp_common_name = None, cp_alt_names = []\<rparr>"

section \<open>The agent\<close>

definition generate_csr ::
    "('k, 'c, 'q) rcgen \<Rightarrow> (string, 'k) res \<Rightarrow> string \<Rightarrow> ip_addr \<Rightarrow> (string, 'k \<times> string) res" where
  "generate_csr rc generated job_uuid private_ip =
     (let params = default_params\<lparr>cp_common_name := Some (''agent-'' @ job_uuid),
                                  cp_alt_names := [private_ip]\<rparr>
      in bind_res generated (\<lambda>key_pair.
         bind_res (rg_request rc params key_pair) (\<lambda>csr_pem. Ok (key_pair, csr_pem))))"

section \<open>The controller\<close>

record ('k, 'c) job_certs =
  jc_controller_cert :: 'c
  jc_controller_key :: 'k
  jc_root_ca_cert :: 'c
  jc_root_ca_key :: 'k

definition new_cert_params :: "bool \<Rightarrow> cert_params" where
  "new_cert_params is_ca = (if is_ca then default_params\<lparr>cp_is_ca := True\<rparr> else default_params)"

definition generate_job_certs ::
    "('k, 'c, 'q) rcgen \<Rightarrow> (string, 'k) res \<Rightarrow> (string, 'k) res \<Rightarrow> string \<Rightarrow> ip_addr \<Rightarrow>
       (string, ('k, 'c) job_certs) res" where
  "generate_job_certs rc gen_root gen_controller job_uuid ip =
     (let root_ca_params = (new_cert_params True)\<lparr>cp_common_name := Some (''Malbox-CA-'' @ job_uuid)\<rparr>
      in bind_res gen_root (\<lambda>root_ca_key.
         bind_res (rg_self_signed rc root_ca_params root_ca_key) (\<lambda>root_ca_cert.
           let controller_params = (new_cert_params False)\<lparr>
                 cp_common_name := Some (''Malbox-controller-'' @ job_uuid), cp_alt_names := [ip]\<rparr>
           in bind_res gen_controller (\<lambda>controller_key.
              bind_res (rg_signed_by rc controller_params controller_key (root_ca_params, root_ca_key))
                (\<lambda>controller_cert.
                  Ok \<lparr>jc_controller_cert = controller_cert, jc_controller_key = controller_key,
                      jc_root_ca_cert = root_ca_cert, jc_root_ca_key = root_ca_key\<rparr>)))))"

definition sign_agent_csr ::
    "('k, 'c, 'q) rcgen \<Rightarrow> ('k, 'c) job_certs \<Rightarrow> string \<Rightarrow> (string, 'c) res" where
  "sign_agent_csr rc certs csr_pem =
     bind_res (rg_csr_from_pem rc csr_pem) (\<lambda>csr.
     rg_sign_csr rc csr (jc_root_ca_cert certs, jc_root_ca_key certs))"

text \<open>What a successful \<open>generate_job_certs\<close> has called.\<close>

lemma generate_job_certs_OkE:
  assumes "generate_job_certs rc g1 g2 job_uuid ip = Ok certs"
  obtains "g1 = Ok (jc_root_ca_key certs)" "g2 = Ok (jc_controller_key certs)"
    "rg_self_signed rc \<lparr>cp_is_ca = True, cp_common_name = Some (''Malbox-CA-'' @ job_uuid),
       cp_alt_names = []\<rparr> (jc_root_ca_key certs) = Ok (jc_root_ca_cert certs)"
    "rg_signed_by rc \<lparr>cp_is_ca = False, cp_common_name = Some (''Malbox-controller-'' @ job_uuid),
       cp_alt_names = [ip]\<rparr> (jc_controller_key certs)
       (\<lparr>cp_is_ca = True, cp_common_name = Some (''Malbox-CA-'' @ job_uuid), cp_alt_names = []\<rparr>,
        jc_root_ca_key certs) = Ok (jc_controller_cert certs)"
  using assms
  by (auto simp: generate_job_certs_def new_cert_params_def default_params_def Let_def bind_res_Ok_iff)

end
