(* ===== verification/Proto.thy ===== *)
theory Proto
  imports Rust_Text
begin

text \<open>
  The messages of \<open>crates/malbox-proto\<close> (\<open>proto/malbox.proto\<close>, \<open>gen/malbox.rs\<close>): one record
  per message with the fields in declaration order, the \<open>oneof\<close> of \<open>Event\<close> as an
  optional datatype. A gRPC error is the code and text that the source gives to \<open>Status\<close>.
\<close>

datatype who = Who

record ip_msg =
  ip_addr :: string

record request_csr_envelope =
  rc_ip_addr :: string
  rc_job_uuid :: string
  rc_root_ca_pem :: string

record csr_envelope =
  csr_pem :: string

record signed_cert_envelope =
  signed_cert_pem :: string

record ack =
  ack_success :: bool
  ack_error_message :: string

record hello =
  hello_msg :: string

datatype get_dropped_files_request = GetDroppedFilesRequest

record dropped_file_event =
  df_path :: string
  df_is_file_beginning :: bool
  df_total_size :: u64
  df_data :: "u8 list"

record file_chunk =
  fc_data :: "u8 list"
  fc_is_first :: bool
  fc_filename :: string

record analysis_request =
  arq_timeout_secs :: u32
  arq_sample_name :: string

record analysis_completed =
  acd_exit_code :: i32
  acd_runtime_ms :: u64
  acd_features_json :: string

datatype event_kind = Done analysis_completed

record event =
  ev_timestamp :: u64
  ev_kind :: "event_kind option"

datatype status_code = InvalidArgument | Internal | Unimplemented | OtherCode

datatype grpc_status = Status status_code string

end
