(* ===== verification/Agent_Bootstrap.thy ===== *)
theory Agent_Bootstrap
  imports Certs Proto
begin

text \<open>
  The bootstrap half of the agent: \<open>crates/malbox-agent/src/bootstrap.rs\<close> (the three handlers on
  the plaintext port and their shared state) and \<open>main.rs\<close> (the switch to the mTLS server once
  the bootstrap is done). Every handler holds the state's lock for its whole body, so it is one
  step. A handler that panics leaves the state as it was at the panic: the lock is the async one,
  which a panic does not poison.
\<close>

record agent_certs =
  ac_root_ca_pem :: string
  ac_agent_key_pem :: string
  ac_agent_cert_pem :: string
  ac_server_ip_addr :: ip_addr

definition default_certs :: agent_certs where
  "default_certs = \<lparr>ac_root_ca_pem = [], ac_agent_key_pem = [], ac_agent_cert_pem = [],
     ac_server_ip_addr = UNSPECIFIED\<rparr>"

text \<open>\<open>bs_done_tx\<close> says whether the sender is still there, \<open>bs_signals\<close> how often it was used.\<close>

record bootstrap_service =
  bs_state :: agent_certs
  bs_done_tx :: bool
  bs_signals :: nat

definition new_service :: bootstrap_service where
  "new_service = \<lparr>bs_state = default_certs, bs_done_tx = True, bs_signals = 0\<rparr>"

section \<open>The handlers\<close>

definition who_am_i ::
    "ip_addr option \<Rightarrow> bootstrap_service \<Rightarrow> bootstrap_service \<times> (grpc_status, ip_msg) res" where
  "who_am_i remote_addr svc = (case remote_addr of
       None \<Rightarrow> (svc, Panic)
     | Some ip \<Rightarrow>
         (svc\<lparr>bs_state := (bs_state svc)\<lparr>ac_server_ip_addr := ip\<rparr>\<rparr>, Ok \<lparr>ip_addr = show_ip ip\<rparr>))"

text \<open>The root certificate is stored before the address is parsed and the key is made.\<close>

definition request_csr ::
    "('k, 'c, 'q) rcgen \<Rightarrow> (string, 'k) res \<Rightarrow> request_csr_envelope \<Rightarrow> bootstrap_service \<Rightarrow>
       bootstrap_service \<times> (grpc_status, csr_envelope) res" where
  "request_csr rc generated req svc =
     (let svc1 = svc\<lparr>bs_state := (bs_state svc)\<lparr>ac_root_ca_pem := rc_root_ca_pem req\<rparr>\<rparr>
      in case parse_ip (rc_ip_addr req) of
           None \<Rightarrow> (svc1, Panic)
         | Some ip \<Rightarrow>
             (case generate_csr rc generated (rc_job_uuid req) ip of
                Err e \<Rightarrow> (svc1, Panic)
              | Panic \<Rightarrow> (svc1, Panic)
              | Ok csr_output \<Rightarrow>
                  (svc1\<lparr>bs_state := (bs_state svc1)\<lparr>ac_agent_key_pem := rg_key_pem rc (fst csr_output)\<rparr>\<rparr>,
                   Ok \<lparr>csr_pem = snd csr_output\<rparr>)))"

definition switch_connection ::
    "signed_cert_envelope \<Rightarrow> bootstrap_service \<Rightarrow> bootstrap_service \<times> (grpc_status, ack) res" where
  "switch_connection req svc =
     (if signed_cert_pem req = [] then (svc, Err (Status InvalidArgument ''Empty Certificate PEM''))
      else
        (let svc1 = svc\<lparr>bs_state := (bs_state svc)\<lparr>ac_agent_cert_pem := signed_cert_pem req\<rparr>\<rparr>;
             svc2 = (if bs_done_tx svc1
                     then svc1\<lparr>bs_done_tx := False, bs_signals := Suc (bs_signals svc1)\<rparr> else svc1)
         in (svc2, Ok \<lparr>ack_success = True, ack_error_message = []\<rparr>)))"

section \<open>The process of the agent\<close>

text \<open>
  \<open>start_mtls_server\<close> takes its configuration from the shared state; \<open>tls_ok\<close> is the verdict of the
  TLS library on it. \<open>main\<close> serves the bootstrap until the signal, and then never again: it sleeps for 200 ms
  (\<open>Switching\<close>; a connection that is already open may still send calls), spawns the mTLS server and waits for
  ctrl-c. A server may end with an error or without one; \<open>Waiting\<close> is \<open>main\<close> waiting with no server left. The
  number is the exit code.
\<close>

record server_tls =
  st_cert :: string
  st_key :: string
  st_client_ca :: string
  st_client_auth_optional :: bool

definition tls_config_of :: "agent_certs \<Rightarrow> server_tls" where
  "tls_config_of c = \<lparr>st_cert = ac_agent_cert_pem c, st_key = ac_agent_key_pem c,
     st_client_ca = ac_root_ca_pem c, st_client_auth_optional = False\<rparr>"

datatype agent_phase =
    Bootstrap bootstrap_service | Switching bootstrap_service | Mtls server_tls | Waiting | Exited nat

datatype ('k, 'c, 'q) rpc =
    WhoAmI "ip_addr option"
  | RequestCsr "(string, 'k) res" request_csr_envelope
  | SwitchConnection signed_cert_envelope

fun handle_rpc :: "('k, 'c, 'q) rcgen \<Rightarrow> ('k, 'c, 'q) rpc \<Rightarrow> bootstrap_service \<Rightarrow> bootstrap_service" where
  "handle_rpc rc (WhoAmI addr) svc = fst (who_am_i addr svc)"
| "handle_rpc rc (RequestCsr g req) svc = fst (request_csr rc g req svc)"
| "handle_rpc rc (SwitchConnection req) svc = fst (switch_connection req svc)"

definition start_mtls_server :: "(server_tls \<Rightarrow> bool) \<Rightarrow> agent_certs \<Rightarrow> agent_phase" where
  "start_mtls_server tls_ok c =
     (if tls_ok (tls_config_of c) then Mtls (tls_config_of c) else Exited 1)"

inductive agent_step :: "('k, 'c, 'q) rcgen \<Rightarrow> (server_tls \<Rightarrow> bool) \<Rightarrow> agent_phase \<Rightarrow> agent_phase \<Rightarrow> bool"
  for rc :: "('k, 'c, 'q) rcgen" and tls_ok :: "server_tls \<Rightarrow> bool" where
  rpc: "agent_step rc tls_ok (Bootstrap svc) (Bootstrap (handle_rpc rc r svc))"
| bootstrap_fails: "agent_step rc tls_ok (Bootstrap svc) (Exited 1)"
| bootstrap_ends: "agent_step rc tls_ok (Bootstrap svc) Waiting"
| switch: "0 < bs_signals svc \<Longrightarrow> agent_step rc tls_ok (Bootstrap svc) (Switching svc)"
| late_rpc: "agent_step rc tls_ok (Switching svc) (Switching (handle_rpc rc r svc))"
| mtls: "agent_step rc tls_ok (Switching svc) (start_mtls_server tls_ok (bs_state svc))"
| mtls_fails: "agent_step rc tls_ok (Mtls t) (Exited 1)"
| mtls_ends: "agent_step rc tls_ok (Mtls t) Waiting"
| ctrl_c: "p = Waiting \<or> p = Mtls t \<Longrightarrow> agent_step rc tls_ok p (Exited 0)"
| ctrl_c_fails: "p = Waiting \<or> p = Mtls t \<Longrightarrow> agent_step rc tls_ok p (Exited 1)"

inductive agent_reachable :: "('k, 'c, 'q) rcgen \<Rightarrow> (server_tls \<Rightarrow> bool) \<Rightarrow> agent_phase \<Rightarrow> bool"
  for rc :: "('k, 'c, 'q) rcgen" and tls_ok :: "server_tls \<Rightarrow> bool" where
  init: "agent_reachable rc tls_ok (Bootstrap new_service)"
| next_phase: "agent_reachable rc tls_ok p \<Longrightarrow> agent_step rc tls_ok p q \<Longrightarrow> agent_reachable rc tls_ok q"

inductive_cases agent_stepE: "agent_step rc tls_ok p q"

definition service_inv :: "bootstrap_service \<Rightarrow> bool" where
  "service_inv svc \<longleftrightarrow> bs_signals svc = (if bs_done_tx svc then 0 else 1) \<and>
     (bs_done_tx svc \<longleftrightarrow> ac_agent_cert_pem (bs_state svc) = [])"

lemma handler_inv:
  "service_inv svc \<Longrightarrow> service_inv (fst (who_am_i addr svc))"
  "service_inv svc \<Longrightarrow> service_inv (fst (request_csr rc g req svc))"
  "service_inv svc \<Longrightarrow> service_inv (fst (switch_connection sreq svc))"
  by (auto simp: service_inv_def who_am_i_def request_csr_def switch_connection_def Let_def
      split: option.splits res.splits)

fun phase_inv :: "agent_phase \<Rightarrow> bool" where
  "phase_inv (Bootstrap svc) \<longleftrightarrow> service_inv svc"
| "phase_inv (Switching svc) \<longleftrightarrow> service_inv svc \<and> bs_signals svc = 1"
| "phase_inv (Mtls t) \<longleftrightarrow> st_cert t \<noteq> [] \<and> \<not> st_client_auth_optional t"
| "phase_inv Waiting \<longleftrightarrow> True"
| "phase_inv (Exited n) \<longleftrightarrow> n \<in> {0, 1}"

lemma handle_rpc_inv: "service_inv svc \<Longrightarrow> service_inv (handle_rpc rc r svc)"
  by (cases r) (simp_all add: handler_inv)

text \<open>A call never takes the signal back.\<close>

lemma handle_rpc_signals: "bs_signals svc \<le> bs_signals (handle_rpc rc r svc)"
  by (cases r) (auto simp: who_am_i_def request_csr_def switch_connection_def Let_def split: option.splits res.splits)

lemma signals_bound: "service_inv svc \<Longrightarrow> bs_signals svc \<le> 1"
  by (simp add: service_inv_def)

lemma agent_step_inv: "agent_step rc tls_ok p q \<Longrightarrow> phase_inv p \<Longrightarrow> phase_inv q"
proof (induction rule: agent_step.induct)
  case (switch svc)
  then show ?case using signals_bound [of svc] by simp
next
  case (late_rpc svc r)
  then have "service_inv (handle_rpc rc r svc)" by (simp add: handle_rpc_inv)
  with late_rpc handle_rpc_signals [of svc rc r] signals_bound show ?case by fastforce
next
  case (mtls svc)
  then show ?case
    by (auto simp: start_mtls_server_def tls_config_of_def service_inv_def split: if_splits)
qed (auto simp: handle_rpc_inv)

lemma agent_reachable_inv: "agent_reachable rc tls_ok p \<Longrightarrow> phase_inv p"
  by (induction rule: agent_reachable.induct)
    (auto simp: new_service_def default_certs_def service_inv_def intro: agent_step_inv)

section \<open>The contract that the controller relies on\<close>

text \<open>
  A bootstrap service as its client sees it: \<open>certs\<close> is the state behind it and \<open>finished\<close> the
  signal. Each call that answers has had its effect, and a call that does not answer
  has not finished the bootstrap.
\<close>

locale bootstrap_rpc =
  fixes who :: "'s \<Rightarrow> 's \<times> (grpc_status, ip_msg) res"
    and csr :: "request_csr_envelope \<Rightarrow> 's \<Rightarrow> 's \<times> (grpc_status, csr_envelope) res"
    and switch :: "signed_cert_envelope \<Rightarrow> 's \<Rightarrow> 's \<times> (grpc_status, ack) res"
    and certs :: "'s \<Rightarrow> agent_certs"
    and finished :: "'s \<Rightarrow> bool"
    and made_with :: "string \<Rightarrow> string \<Rightarrow> bool"
  assumes who_law: "finished (fst (who s)) = finished s"
      "snd (who s) = Ok m \<Longrightarrow> ip_addr m = show_ip (ac_server_ip_addr (certs (fst (who s))))"
    and csr_law: "finished (fst (csr q s)) = finished s"
      "snd (csr q s) = Ok c \<Longrightarrow> ac_root_ca_pem (certs (fst (csr q s))) = rc_root_ca_pem q \<and>
         ac_server_ip_addr (certs (fst (csr q s))) = ac_server_ip_addr (certs s) \<and>
         made_with (csr_pem c) (ac_agent_key_pem (certs (fst (csr q s))))"
    and switch_law: "snd (switch e s) = Ok a \<Longrightarrow> finished (fst (switch e s)) \<and> ack_success a \<and>
         certs (fst (switch e s)) = (certs s)\<lparr>ac_agent_cert_pem := signed_cert_pem e\<rparr>"
      "\<forall>b. snd (switch e s) \<noteq> Ok b \<Longrightarrow> fst (switch e s) = s"

definition made_with_key :: "('k, 'c, 'q) rcgen \<Rightarrow> string \<Rightarrow> string \<Rightarrow> bool" where
  "made_with_key rc csr key \<longleftrightarrow> (\<exists>ps k. rg_request rc ps k = Ok csr \<and> rg_key_pem rc k = key)"

lemma made_with_keyI: "rg_request rc ps k = Ok csr \<Longrightarrow> made_with_key rc csr (rg_key_pem rc k)"
  unfolding made_with_key_def by blast

interpretation agent: bootstrap_rpc "who_am_i addr" "request_csr rc g" switch_connection bs_state
    "\<lambda>s. \<not> bs_done_tx s" "made_with_key rc"
  for addr and rc :: "('k, 'c, 'q) rcgen" and g
proof
  fix s c q
  assume "snd (request_csr rc g q s) = Ok c"
  then show "ac_root_ca_pem (bs_state (fst (request_csr rc g q s))) = rc_root_ca_pem q \<and>
      ac_server_ip_addr (bs_state (fst (request_csr rc g q s))) = ac_server_ip_addr (bs_state s) \<and>
      made_with_key rc (csr_pem c) (ac_agent_key_pem (bs_state (fst (request_csr rc g q s))))"
    by (auto simp: request_csr_def Let_def generate_csr_def bind_res_Ok_iff
        split: option.splits res.splits intro: made_with_keyI)
qed (auto simp: who_am_i_def request_csr_def switch_connection_def Let_def
      split: option.splits res.splits if_splits)

section \<open>Properties\<close>

text \<open>C36: Whatever calls reach the plaintext port, in whatever order and with whatever contents, and whichever
  server ends: the end of the bootstrap is signalled at most once, and exactly when a non-empty certificate
  has been stored; the mTLS server starts only after that, with a non-empty certificate, and demands a
  certificate of its clients; and the plaintext port is never served again.\<close>

theorem bootstrap_signals_once:
  assumes "agent_reachable rc tls_ok p"
  shows "(case p of
       Bootstrap svc \<Rightarrow> bs_signals svc \<le> 1 \<and> (bs_signals svc = 1) = (ac_agent_cert_pem (bs_state svc) \<noteq> [])
     | Switching svc \<Rightarrow> bs_signals svc = 1 \<and> ac_agent_cert_pem (bs_state svc) \<noteq> []
     | Mtls t \<Rightarrow> st_cert t \<noteq> [] \<and> \<not> st_client_auth_optional t
     | Waiting \<Rightarrow> True
     | Exited n \<Rightarrow> n = 0 \<or> n = 1) \<and>
     (\<forall>svc. agent_step rc tls_ok p (Bootstrap svc) \<longrightarrow> (\<exists>svc'. p = Bootstrap svc'))"
proof -
  have "\<exists>svc'. p = Bootstrap svc'" if "agent_step rc tls_ok p (Bootstrap svc)" for svc
    using that by (cases rule: agent_step.cases) (auto simp: start_mtls_server_def split: if_splits)
  with agent_reachable_inv [OF assms] show ?thesis by (cases p) (auto simp: service_inv_def split: if_splits)
qed

definition null_rcgen :: "(unit, unit, unit) rcgen" where
  "null_rcgen = \<lparr>rg_self_signed = (\<lambda>_ _. Ok ()), rg_signed_by = (\<lambda>_ _ _. Ok ()),
     rg_request = (\<lambda>_ _. Ok ''csr''), rg_csr_from_pem = (\<lambda>_. Ok ()), rg_sign_csr = (\<lambda>_ _. Ok ()),
     rg_pem = (\<lambda>_. ''pem''), rg_key_pem = (\<lambda>_. ''key'')\<rparr>"

definition early_certs :: agent_certs where
  "early_certs = default_certs\<lparr>ac_agent_cert_pem := ''x''\<rparr>"

lemma early_switch:
  "agent_reachable null_rcgen tls_ok (start_mtls_server tls_ok early_certs)"
proof -
  let ?svc = "handle_rpc null_rcgen (SwitchConnection \<lparr>signed_cert_pem = ''x''\<rparr>) new_service"
  have svc: "?svc = \<lparr>bs_state = early_certs, bs_done_tx = False, bs_signals = 1\<rparr>"
    by (simp add: switch_connection_def new_service_def early_certs_def)
  have "agent_reachable null_rcgen tls_ok (Bootstrap ?svc)"
    by (rule agent_reachable.next_phase [OF agent_reachable.init agent_step.rpc])
  moreover have "agent_step null_rcgen tls_ok (Bootstrap ?svc) (Switching ?svc)"
    by (rule agent_step.switch) (simp only: svc, simp)
  ultimately have "agent_reachable null_rcgen tls_ok (start_mtls_server tls_ok (bs_state ?svc))"
    by (blast intro: agent_reachable.next_phase agent_step.mtls)
  then show ?thesis unfolding svc by simp
qed

theorem bootstrap_signals_once_witness:
  "st_cert (tls_config_of early_certs) \<noteq> [] \<and> \<not> st_client_auth_optional (tls_config_of early_certs) \<and>
   (\<forall>svc. \<not> agent_step null_rcgen (\<lambda>_. True) (Mtls (tls_config_of early_certs)) (Bootstrap svc))"
proof -
  have "agent_reachable null_rcgen (\<lambda>_. True) (Mtls (tls_config_of early_certs))"
    using early_switch [of "\<lambda>_. True"] by (simp add: start_mtls_server_def)
  from bootstrap_signals_once [OF this] show ?thesis by simp
qed

text \<open>Nothing orders the calls: one \<open>SwitchConnection\<close> with any non-empty text, from anyone who
  reaches the plaintext port, ends the bootstrap of a fresh agent with an empty key and an empty client
  authority; with a TLS library that refuses an empty key the agent then exits instead of serving.\<close>

theorem bootstrap_unordered:
  assumes "pem \<noteq> []" and "\<And>t. st_key t = [] \<Longrightarrow> \<not> tls_ok t"
  shows "let svc = handle_rpc rc (SwitchConnection \<lparr>signed_cert_pem = pem\<rparr>) new_service
     in bs_signals svc = 1 \<and> ac_agent_key_pem (bs_state svc) = [] \<and> ac_root_ca_pem (bs_state svc) = [] \<and>
        agent_step rc tls_ok (Bootstrap svc) (Switching svc) \<and> agent_step rc tls_ok (Switching svc) (Exited 1)"
proof -
  let ?svc = "handle_rpc rc (SwitchConnection \<lparr>signed_cert_pem = pem\<rparr>) new_service"
  have svc: "?svc = \<lparr>bs_state = default_certs\<lparr>ac_agent_cert_pem := pem\<rparr>, bs_done_tx = False, bs_signals = 1\<rparr>"
    using assms(1) by (simp add: switch_connection_def new_service_def)
  have "start_mtls_server tls_ok (bs_state ?svc) = Exited 1"
    unfolding svc using assms(2) by (simp add: start_mtls_server_def tls_config_of_def default_certs_def)
  then have "agent_step rc tls_ok (Switching ?svc) (Exited 1)"
    using agent_step.mtls [of rc tls_ok ?svc] by simp
  moreover have "agent_step rc tls_ok (Bootstrap ?svc) (Switching ?svc)"
    by (rule agent_step.switch) (simp only: svc, simp)
  ultimately show ?thesis unfolding Let_def svc by (simp add: default_certs_def)
qed

theorem bootstrap_unordered_witness:
  "let svc = handle_rpc null_rcgen (SwitchConnection \<lparr>signed_cert_pem = ''x''\<rparr>) new_service
     in bs_signals svc = 1 \<and> ac_agent_key_pem (bs_state svc) = [] \<and> ac_root_ca_pem (bs_state svc) = [] \<and>
        agent_step null_rcgen (\<lambda>t. st_key t \<noteq> []) (Bootstrap svc) (Switching svc) \<and>
        agent_step null_rcgen (\<lambda>t. st_key t \<noteq> []) (Switching svc) (Exited 1)"
  by (rule bootstrap_unordered) simp_all

end
