(* ===== verification/Agent_Service.thy ===== *)
theory Agent_Service
  imports Rust_Path Proto
begin

text \<open>
  The service half of the agent, \<open>crates/malbox-agent/src/agent.rs\<close>: greeting, receiving the
  sample and starting the analysis.

  A gRPC stream is the list of what \<open>message\<close> returns: a message, or the error that ends the
  stream; the end of the list is the orderly end. The files of the guest are a map from paths to
  contents; whether an operation on them fails is decided by \<open>fs_env\<close>, in which a write that fails
  says how many bytes had reached the file.
\<close>

record fs_env =
  fe_mkdir :: "string option"
  fe_create :: "string option"
  fe_write :: "nat \<Rightarrow> (string \<times> nat) option"
  fe_flush :: "string option"

type_synonym files = "string \<rightharpoonup> u8 list"

definition hello_svc :: "hello \<Rightarrow> (grpc_status, hello) res" where
  "hello_svc req = Ok \<lparr>hello_msg = ''agent''\<rparr>"

section \<open>Receiving the sample\<close>

definition upload_dir :: string where
  "upload_dir = ''C:'' @ [bslash] @ ''Users'' @ [bslash] @ ''mohamed'' @ [bslash] @ ''Desktop'' @ [bslash] @ ''sample''"

text \<open>\<open>write_all\<close>, the \<open>k\<close>-th of the upload, at the end of the open file.\<close>

definition write_all :: "fs_env \<Rightarrow> nat \<Rightarrow> string \<Rightarrow> u8 list \<Rightarrow> files \<Rightarrow> files \<times> (grpc_status, unit) res" where
  "write_all env k path data fs =
     (let old = (case fs path of Some bs \<Rightarrow> bs | None \<Rightarrow> [])
      in case fe_write env k of
           None \<Rightarrow> (fs(path \<mapsto> old @ data), Ok ())
         | Some (e, n) \<Rightarrow> (fs(path \<mapsto> old @ take n data),
                           Err (Status Internal (''failed to write chunk: '' @ e))))"

fun write_rest :: "fs_env \<Rightarrow> nat \<Rightarrow> string \<Rightarrow> (string, file_chunk) res list \<Rightarrow> files \<Rightarrow>
    files \<times> (grpc_status, unit) res" where
  "write_rest env k path [] fs =
     (fs, case fe_flush env of
            None \<Rightarrow> Ok ()
          | Some e \<Rightarrow> Err (Status Internal (''failed  to flush file: '' @ e)))"
| "write_rest env k path (m # stream) fs =
     (case m of
        Err e \<Rightarrow> (fs, Err (Status Internal (''error: '' @ e)))
      | Panic \<Rightarrow> (fs, Panic)
      | Ok chunk \<Rightarrow>
          (case write_all env k path (fc_data chunk) fs of (fs', r) \<Rightarrow>
            (case r of
               Ok _ \<Rightarrow> write_rest env (Suc k) path stream fs'
             | _ \<Rightarrow> (fs', r))))"

definition store_upload :: "fs_env \<Rightarrow> string \<Rightarrow> file_chunk \<Rightarrow> (string, file_chunk) res list \<Rightarrow> files \<Rightarrow>
    files \<times> (grpc_status, ack) res" where
  "store_upload env file_path first_chunk stream fs =
     (case write_all env 0 file_path (fc_data first_chunk) (fs(file_path \<mapsto> [])) of (fs1, r1) \<Rightarrow>
       (case r1 of
          Err e \<Rightarrow> (fs1, Err e)
        | Panic \<Rightarrow> (fs1, Panic)
        | Ok _ \<Rightarrow>
            (case write_rest env 1 file_path stream fs1 of (fs2, r2) \<Rightarrow>
              (fs2, bind_res r2 (\<lambda>_. Ok \<lparr>ack_success = True, ack_error_message = []\<rparr>)))))"

definition upload_sample ::
    "fs_env \<Rightarrow> (string, file_chunk) res list \<Rightarrow> files \<Rightarrow> files \<times> (grpc_status, ack) res" where
  "upload_sample env messages fs = (case messages of
       [] \<Rightarrow> (fs, Err (Status InvalidArgument ''file stream is empty''))
     | m # stream \<Rightarrow>
         (case m of
            Err e \<Rightarrow> (fs, Err (Status Internal (''failed to read stream: '' @ e)))
          | Panic \<Rightarrow> (fs, Panic)
          | Ok first_chunk \<Rightarrow>
              (let filename = trim (fc_filename first_chunk)
               in if filename = [] then (fs, Err (Status InvalidArgument ''filename empty''))
                  else (case fe_mkdir env of
                      Some e \<Rightarrow> (fs, Err (Status Internal (''upload dir creation failed: '' @ e)))
                    | None \<Rightarrow>
                        (let file_path = win_join upload_dir filename
                         in if \<not> win_starts_with file_path upload_dir then
                              (fs, Err (Status InvalidArgument ''filename invalid''))
                            else (case fe_create env of
                                Some e \<Rightarrow> (fs, Err (Status Internal (''failed to write chunk; '' @ e)))
                              | None \<Rightarrow> store_upload env file_path first_chunk stream fs))))))"

section \<open>Starting the analysis\<close>

record analysis_config =
  acf_sample_path :: string
  acf_timeout_secs :: u32
  acf_work_dir :: string

record agent_result =
  agr_exit_code :: i32
  agr_runtime_ms :: u64
  agr_features_json :: string

definition analyze_config :: "analysis_request \<Rightarrow> (grpc_status, analysis_config) res" where
  "analyze_config req = (case win_file_name (arq_sample_name req) of
       None \<Rightarrow> Err (Status InvalidArgument ''Invalid sample name'')
     | Some safe_filename \<Rightarrow> Ok
         \<lparr>acf_sample_path = upload_dir @ [bslash] @ safe_filename, acf_timeout_secs = 300,
          acf_work_dir = upload_dir\<rparr>)"

text \<open>
  What the spawned task sends: one event, also when the analysis fails; nothing when it panics,
  since the sender is then dropped with the task.
\<close>

definition analyze_events :: "('e, agent_result) res \<Rightarrow> u64 \<Rightarrow> (string, event) res list" where
  "analyze_events analysis_result now =
     (let done = (\<lambda>a. [Ok \<lparr>ev_timestamp = now, ev_kind = Some (Done
            \<lparr>acd_exit_code = agr_exit_code a, acd_runtime_ms = agr_runtime_ms a,
             acd_features_json = agr_features_json a\<rparr>)\<rparr>])
      in case analysis_result of
           Ok a \<Rightarrow> done a
         | Err _ \<Rightarrow> done \<lparr>agr_exit_code = 1, agr_runtime_ms = 0, agr_features_json = []\<rparr>
         | Panic \<Rightarrow> [])"

definition analyze ::
    "(analysis_config \<Rightarrow> ('e, agent_result) res) \<Rightarrow> u64 \<Rightarrow> analysis_request \<Rightarrow>
       (grpc_status, (string, event) res list) res" where
  "analyze run now req = bind_res (analyze_config req) (\<lambda>cfg. Ok (analyze_events (run cfg) now))"

section \<open>What an upload stores\<close>

lemma write_all_cases:
  "write_all env k path data fs = (fs', r) \<Longrightarrow>
     (r = Ok () \<and> fs' = fs(path \<mapsto> (case fs path of Some bs \<Rightarrow> bs | None \<Rightarrow> []) @ data)) \<or> (\<forall>u. r \<noteq> Ok u)"
  by (auto simp: write_all_def Let_def split: option.splits)

lemma write_rest_stores:
  assumes "write_rest env k path ms fs = (fs', Ok ())" and "fs path = Some old"
  shows "\<exists>cs. ms = map Ok cs \<and> fs' = fs(path \<mapsto> old @ concat (map fc_data cs))"
  using assms
proof (induction env k path ms fs arbitrary: old rule: write_rest.induct)
  case (1 env k path fs)
  then show ?case by (auto split: option.splits)
next
  case (2 env k path m ms fs)
  from 2(2) obtain c where m: "m = Ok c" by (cases m) auto
  obtain fs1 r where w: "write_all env k path (fc_data c) fs = (fs1, r)"
    by (cases "write_all env k path (fc_data c) fs")
  from 2(2) m w have r: "r = Ok ()" "write_rest env (Suc k) path ms fs1 = (fs', Ok ())"
    by (cases r; simp)+
  have fs1: "fs1 = fs(path \<mapsto> old @ fc_data c)"
    using write_all_cases [OF w] r(1) 2(3) by simp
  then have p: "fs1 path = Some (old @ fc_data c)" by simp
  from 2(1) [OF m w [symmetric] r(1) r(2) p]
  obtain cs where "ms = map Ok cs" "fs' = fs1(path \<mapsto> (old @ fc_data c) @ concat (map fc_data cs))"
    by blast
  then show ?case using m fs1 by (intro exI [of _ "c # cs"]) simp
qed

lemma store_upload_stores:
  assumes "store_upload env path c ms fs = (fs', Ok a)"
  shows "\<exists>cs. ms = map Ok cs \<and> fs' = fs(path \<mapsto> concat (map fc_data (c # cs))) \<and> ack_success a"
proof -
  obtain fs1 r1 where w: "write_all env 0 path (fc_data c) (fs(path \<mapsto> [])) = (fs1, r1)"
    by (cases "write_all env 0 path (fc_data c) (fs(path \<mapsto> []))")
  with assms have r1: "r1 = Ok ()" by (cases r1) (auto simp: store_upload_def)
  with write_all_cases [OF w] have fs1: "fs1 = fs(path \<mapsto> fc_data c)" by auto
  obtain r2 where r2: "write_rest env 1 path ms fs1 = (fs', r2)"
      "bind_res r2 (\<lambda>_. Ok \<lparr>ack_success = True, ack_error_message = []\<rparr>) = Ok a"
    using assms w r1 by (auto simp: store_upload_def split: prod.splits)
  then have "r2 = Ok ()" "ack_success a" by (auto simp: bind_res_Ok_iff)
  with write_rest_stores [of env 1 path ms fs1 fs' "fc_data c"] r2(1) fs1 show ?thesis by auto
qed

lemma upload_accepted:
  assumes "upload_sample env ms fs = (fs', Ok a)"
  obtains c cs where "ms = map Ok (c # cs)" "trim (fc_filename c) \<noteq> []" "ack_success a"
    "win_starts_with (win_join upload_dir (trim (fc_filename c))) upload_dir"
    "fs' = fs(win_join upload_dir (trim (fc_filename c)) \<mapsto> concat (map fc_data (c # cs)))"
proof (cases ms)
  case Nil
  then show ?thesis using assms by (simp add: upload_sample_def)
next
  case (Cons m ms')
  with assms obtain c where c: "m = Ok c" "trim (fc_filename c) \<noteq> []"
    "win_starts_with (win_join upload_dir (trim (fc_filename c))) upload_dir"
    "store_upload env (win_join upload_dir (trim (fc_filename c))) c ms' fs = (fs', Ok a)"
    by (auto simp: upload_sample_def Let_def split: res.splits option.splits if_splits)
  from store_upload_stores [OF c(4)] obtain cs where "ms' = map Ok cs" "ack_success a"
    "fs' = fs(win_join upload_dir (trim (fc_filename c)) \<mapsto> concat (map fc_data (c # cs)))"
    by blast
  then show ?thesis using that [of c cs] c Cons by simp
qed

section \<open>The contract that the controller relies on\<close>

text \<open>An accepted upload is acknowledged as a success and stored in full under its name; an empty one
  is refused.\<close>

locale upload_rpc =
  fixes upload :: "(string, file_chunk) res list \<Rightarrow> 'f \<Rightarrow> 'f \<times> (grpc_status, ack) res"
    and stored :: "'f \<Rightarrow> string \<Rightarrow> u8 list option"
  assumes upload_law: "snd (upload (map Ok (c # cs)) f) = Ok a \<Longrightarrow> ack_success a \<and>
      stored (fst (upload (map Ok (c # cs)) f)) (fc_filename c) = Some (concat (map fc_data (c # cs)))"
    and upload_empty: "snd (upload [] f) \<noteq> Ok a"

interpretation agent_upload: upload_rpc "upload_sample env" "\<lambda>fs name. fs (win_join upload_dir (trim name))"
  for env
proof
  fix c cs fs a
  assume "snd (upload_sample env (map Ok (c # cs)) fs) = Ok a"
  then have "upload_sample env (map Ok (c # cs)) fs = (fst (upload_sample env (map Ok (c # cs)) fs), Ok a)"
    by (metis prod.collapse)
  then show "ack_success a \<and> fst (upload_sample env (map Ok (c # cs)) fs)
      (win_join upload_dir (trim (fc_filename c))) = Some (concat (map fc_data (c # cs)))"
  proof (rule upload_accepted)
    fix c' cs'
    assume *: "map Ok (c # cs) = map Ok (c' # cs')" "ack_success a"
      "fst (upload_sample env (map Ok (c # cs)) fs) =
         fs(win_join upload_dir (trim (fc_filename c')) \<mapsto> concat (map fc_data (c' # cs')))"
    from *(1) have "c = c'" "cs = cs'" by (auto dest: map_injective simp: inj_on_def)
    with *(2,3) show ?thesis by simp
  qed
next
  show "snd (upload_sample env [] f) \<noteq> Ok a" for f a by (simp add: upload_sample_def)
qed

section \<open>Where an upload goes\<close>

text \<open>
  The system resolves a path before it opens it: \<open>.\<close> is dropped and \<open>..\<close> removes the component
  before it. A path is inside the directory when its resolution is below the directory's.
\<close>

definition resolve_step :: "component list \<Rightarrow> component \<Rightarrow> component list" where
  "resolve_step acc c = (case c of
       CurDir \<Rightarrow> acc
     | ParentDir \<Rightarrow> (if last_normal acc = None then acc else butlast acc)
     | _ \<Rightarrow> acc @ [c])"

definition win_resolve :: "string \<Rightarrow> component list" where
  "win_resolve p = foldl resolve_step [] (win_components p)"

definition inside_dir :: "string \<Rightarrow> bool" where
  "inside_dir p \<longleftrightarrow> take 6 (win_resolve p) = win_components upload_dir"

lemma upload_dir_prefix: "parse_prefix (upload_dir @ r) = Some (Disk (CHR ''C''))"
proof -
  have "to_upper (CHR ''C'') = CHR ''C''" by (simp add: to_upper_def)
  then show ?thesis
    by (simp add: upload_dir_def parse_prefix_def norm8_def begins_def parse_drive_def is_alpha_def)
qed

definition dir_tail :: string where
  "dir_tail = ''Users'' @ [bslash] @ ''mohamed'' @ [bslash] @ ''Desktop'' @ [bslash] @ ''sample''"

lemma body_dir_tail:
  "body_components False win_sep dir_tail =
     [Normal ''Users'', Normal ''mohamed'', Normal ''Desktop'', Normal ''sample'']"
  by (simp add: dir_tail_def body_components_def win_sep_def seg_component_def)

lemma upload_dir_components:
  "win_components upload_dir = [Prefix (Disk (CHR ''C'')), RootDir, Normal ''Users'',
     Normal ''mohamed'', Normal ''Desktop'', Normal ''sample'']"
proof -
  have "drop 2 upload_dir = bslash # dir_tail" by (simp add: upload_dir_def dir_tail_def)
  then show ?thesis
    using upload_dir_prefix [of "[]"] body_dir_tail
    by (simp add: win_components_def starts_sep_def win_sep_def)
qed

lemma upload_path_components:
  "win_components (upload_dir @ bslash # f) = win_components upload_dir @ body_components False win_sep f"
proof -
  have "drop 2 (upload_dir @ bslash # f) = bslash # dir_tail @ bslash # f"
    by (simp add: upload_dir_def dir_tail_def)
  moreover have "win_sep bslash" by (simp add: win_sep_def)
  ultimately have "win_components (upload_dir @ bslash # f) =
      Prefix (Disk (CHR ''C'')) # RootDir # body_components False win_sep (dir_tail @ bslash # f)"
    using upload_dir_prefix [of "bslash # f"] by (simp add: win_components_def starts_sep_def)
  then show ?thesis
    using body_append [of win_sep bslash False dir_tail f] body_dir_tail
    by (simp add: upload_dir_components win_sep_def)
qed

lemma upload_join:
  assumes "parse_prefix f = None" and "\<not> starts_sep f"
  shows "win_join upload_dir f = upload_dir @ bslash # f"
proof -
  have "\<not> win_sep (last upload_dir)" "length upload_dir \<noteq> 2" "upload_dir \<noteq> []"
    by (simp_all add: upload_dir_def win_sep_def)
  with assms show ?thesis by (simp add: win_join_def)
qed

lemma resolve_dir: "foldl resolve_step [] (win_components upload_dir) = win_components upload_dir"
  by (simp add: upload_dir_components resolve_step_def)

lemma resolve_upload:
  "win_resolve (upload_dir @ bslash # f) =
     foldl resolve_step (win_components upload_dir) (body_components False win_sep f)"
  by (simp add: win_resolve_def upload_path_components resolve_dir)

lemma plain_inside:
  assumes "\<forall>c \<in> set f. \<not> win_sep c" and "f \<notin> {[], ''.'', ''..''}"
  shows "inside_dir (upload_dir @ bslash # f)"
proof -
  have "body_components False win_sep f = [Normal f]"
    using assms by (simp add: body_single seg_component_def)
  then show ?thesis
    by (simp add: inside_dir_def resolve_upload resolve_step_def upload_dir_components)
qed

section \<open>Properties\<close>

text \<open>An upload that the agent acknowledges consisted of messages only, at least one; it changed exactly
  one file, the one that the first message names in the upload directory, and that file then holds the
  data of all the messages in order, whatever it held before.\<close>

theorem upload_stores:
  assumes "upload_sample env ms fs = (fs', Ok a)"
  shows "\<exists>c cs. ms = map Ok (c # cs) \<and> ack_success a \<and>
     fs' = fs(win_join upload_dir (trim (fc_filename c)) \<mapsto> concat (map fc_data (c # cs)))"
  using upload_accepted [OF assms] by blast

definition good_fs :: fs_env where
  "good_fs = \<lparr>fe_mkdir = None, fe_create = None, fe_write = (\<lambda>_. None), fe_flush = None\<rparr>"

lemma example_trim: "trim ''a.exe'' = ''a.exe''" "trim (''..'' @ [bslash] @ ''evil.exe'') = ''..'' @ [bslash] @ ''evil.exe''"
  by (rule trim_id; simp add: is_ws_def)+

lemma guard_relative:
  assumes "parse_prefix f = None" and "\<not> starts_sep f"
  shows "win_starts_with (win_join upload_dir f) upload_dir"
  by (simp add: upload_join [OF assms] win_starts_with_def upload_path_components)

lemma example_relative:
  "parse_prefix ''a.exe'' = None" "\<not> starts_sep ''a.exe''"
  "parse_prefix (''..'' @ [bslash] @ ''evil.exe'') = None" "\<not> starts_sep (''..'' @ [bslash] @ ''evil.exe'')"
  by (simp_all add: parse_prefix_def norm8_def begins_def parse_drive_def starts_sep_def win_sep_def)

lemma upload_good:
  assumes "trim f \<noteq> []" and "parse_prefix (trim f) = None" and "\<not> starts_sep (trim f)"
  shows "upload_sample good_fs [Ok \<lparr>fc_data = data, fc_is_first = first, fc_filename = f\<rparr>] fs =
     (fs(win_join upload_dir (trim f) \<mapsto> data), Ok \<lparr>ack_success = True, ack_error_message = []\<rparr>)"
  using guard_relative [OF assms(2,3)] assms(1)
  by (simp add: upload_sample_def good_fs_def store_upload_def write_all_def)

theorem upload_stores_witness:
  "\<exists>c cs. [Ok \<lparr>fc_data = [77, 90], fc_is_first = True, fc_filename = ''a.exe''\<rparr>] = map Ok (c # cs) \<and>
     ack_success \<lparr>ack_success = True, ack_error_message = []\<rparr> \<and>
     Map.empty(win_join upload_dir (trim ''a.exe'') \<mapsto> [77, 90]) =
       Map.empty(win_join upload_dir (trim (fc_filename c)) \<mapsto> concat (map fc_data (c # cs)))"
  using upload_stores [OF upload_good [of "''a.exe''"]] by (simp add: example_trim example_relative)

text \<open>The guard of \<open>upload_sample\<close> lets every name without a prefix and a leading separator pass,
  \<open>..\<close> components included: \<open>starts_with\<close> compares components without resolving them. So an
  upload named with one step up is accepted, acknowledged and written outside the directory.\<close>

theorem upload_guard_lets_through:
  "(\<forall>f. parse_prefix f = None \<and> \<not> starts_sep f \<longrightarrow> win_starts_with (win_join upload_dir f) upload_dir) \<and>
   (let f = ''..'' @ [bslash] @ ''evil.exe''; path = win_join upload_dir f
    in upload_sample good_fs [Ok \<lparr>fc_data = data, fc_is_first = True, fc_filename = f\<rparr>] fs =
         (fs(path \<mapsto> data), Ok \<lparr>ack_success = True, ack_error_message = []\<rparr>) \<and> \<not> inside_dir path)"
proof -
  let ?f = "''..'' @ [bslash] @ ''evil.exe''"
  have "body_components False win_sep ?f = [ParentDir, Normal ''evil.exe'']"
    by (simp add: body_components_def win_sep_def seg_component_def)
  then have "\<not> inside_dir (win_join upload_dir ?f)"
    unfolding upload_join [OF example_relative(3,4)]
    by (simp add: inside_dir_def resolve_upload resolve_step_def upload_dir_components last_normal_def)
  moreover have "trim ?f \<noteq> []" by (simp only: example_trim(2)) simp
  ultimately show ?thesis
    using upload_good [of ?f data True fs] guard_relative example_relative(3,4)
    unfolding Let_def example_trim(2) by blast
qed

theorem upload_guard_lets_through_witness:
  "win_starts_with (win_join upload_dir ''a.exe'') upload_dir"
  using upload_guard_lets_through [of "[]" Map.empty] example_relative(1,2) by blast

text \<open>A name that is a plain file name, without separators or a drive, is stored inside the upload
  directory; and the analysis of a sample given by such a name or by any path that is not verbatim runs
  a file inside the directory.\<close>

theorem plain_names_stay_inside:
  assumes "\<forall>c \<in> set f. \<not> win_sep c" and "f \<notin> {[], ''.'', ''..''}" and "parse_prefix f = None"
  shows "inside_dir (win_join upload_dir f)"
proof -
  have "\<not> starts_sep f" using assms(1) by (cases f) (simp_all add: starts_sep_def)
  then show ?thesis using plain_inside [OF assms(1,2)] by (simp add: upload_join [OF assms(3)])
qed

theorem plain_names_stay_inside_witness: "inside_dir (win_join upload_dir ''a.exe'')"
  by (rule plain_names_stay_inside [OF _ _ example_relative(1)]) (simp_all add: win_sep_def)

lemma file_name_no_slash:
  assumes "win_file_name s = Some n" and "\<forall>p. parse_prefix s = Some p \<longrightarrow> \<not> is_verbatim p"
  shows "(\<forall>c \<in> set n. \<not> win_sep c) \<and> n \<notin> {[], ''.'', ''..''}"
proof -
  have "Normal n \<in> set (win_components s)"
    using assms(1) by (auto simp: win_file_name_def dest: last_normal_SomeD)
  then have "\<exists>r. Normal n \<in> set (body_components False win_sep r)"
    using assms(2) by (auto simp: win_components_def Let_def split: option.splits if_splits)
  then show ?thesis using body_Normal_no_sep by blast
qed

text \<open>The analysis runs a file inside the upload directory for every sample name whose path is not
  verbatim; for a verbatim one, in which a slash does not separate components, the file name taken from
  it may itself contain slashes and lead out of the directory.\<close>

theorem analyze_path:
  assumes "analyze_config req = Ok cfg"
    and "\<forall>p. parse_prefix (arq_sample_name req) = Some p \<longrightarrow> \<not> is_verbatim p"
  shows "inside_dir (acf_sample_path cfg) \<and> acf_timeout_secs cfg = 300"
proof -
  obtain n where n: "win_file_name (arq_sample_name req) = Some n"
    "cfg = \<lparr>acf_sample_path = upload_dir @ [bslash] @ n, acf_timeout_secs = 300, acf_work_dir = upload_dir\<rparr>"
    using assms(1) by (auto simp: analyze_config_def split: option.splits)
  then show ?thesis using plain_inside file_name_no_slash [OF n(1) assms(2)] by simp
qed

theorem analyze_path_witness:
  "inside_dir (upload_dir @ [bslash] @ ''a.exe'') \<and> (300 :: u32) = 300"
proof -
  have "win_file_name ''a.exe'' = Some ''a.exe''"
    by (simp add: win_file_name_def win_components_def example_relative starts_sep_def win_sep_def
        leading_cur_dir_def body_components_def seg_component_def last_normal_def)
  then have "analyze_config \<lparr>arq_timeout_secs = 60, arq_sample_name = ''a.exe''\<rparr> = Ok
      \<lparr>acf_sample_path = upload_dir @ [bslash] @ ''a.exe'', acf_timeout_secs = 300, acf_work_dir = upload_dir\<rparr>"
    by (simp add: analyze_config_def)
  from analyze_path [OF this] show ?thesis by (simp add: example_relative)
qed

text \<open>The exception is real: a verbatim sample name whose last component contains slashes makes the
  agent run a file two directories above the upload directory.\<close>

theorem analyze_verbatim_escapes:
  "\<exists>cfg. analyze_config \<lparr>arq_timeout_secs = t, arq_sample_name =
       [bslash, bslash, CHR ''?'', bslash, CHR ''x'', bslash] @ ''../../evil.exe''\<rparr> = Ok cfg \<and>
     win_resolve (acf_sample_path cfg) =
       [Prefix (Disk (CHR ''C'')), RootDir, Normal ''Users'', Normal ''mohamed'', Normal ''evil.exe'']"
proof -
  let ?s = "[bslash, bslash, CHR ''?'', bslash, CHR ''x'', bslash] @ ''../../evil.exe''"
  have "parse_prefix ?s = Some (Verbatim ''x'')"
    by (simp add: parse_prefix_def norm8_def begins_def parse_drive_def parse_drive_exact_def
        next_component_def verbatim_sep_def win_sep_def)
  then have "win_file_name ?s = Some ''../../evil.exe''"
    by (simp add: win_file_name_def win_components_def starts_sep_def win_sep_def
        body_components_def verbatim_sep_def seg_component_def last_normal_def)
  moreover have "body_components False win_sep ''../../evil.exe'' = [ParentDir, ParentDir, Normal ''evil.exe'']"
    by (simp add: body_components_def win_sep_def seg_component_def)
  ultimately show ?thesis
    using resolve_upload [of "''../../evil.exe''"]
    by (simp add: analyze_config_def resolve_step_def upload_dir_components last_normal_def)
qed

end
