(* ===== verification/Byte_Reader.thy ===== *)
theory Byte_Reader
  imports Prelude
begin

text \<open>
  The interface \<open>std::io::Read\<close> between the frame parser of \<open>bson_log.rs\<close> (a client that is
  generic over \<open>R: Read\<close>) and the pipe of \<open>pipes/raw.rs\<close> (the provider), and the library
  function \<open>read_exact\<close> on top of it.

  A reader is a state \<open>'s\<close> and a function that is asked for at most \<open>n\<close> bytes; \<open>Ok []\<close> is the
  end of the stream. \<open>read_exact\<close> repeats short reads and interrupted ones, so it need not
  return for every reader; its value is an option and \<open>None\<close> is "does not return".
\<close>

datatype io_error = UnexpectedEof | Interrupted | WriteZero | OsError u32

type_synonym 's read_fn = "'s \<Rightarrow> nat \<Rightarrow> (io_error, u8 list) res \<times> 's"

text \<open>The kind of a raw OS error: \<open>WSAEINTR\<close> is the only code of kind \<open>Interrupted\<close>.\<close>

definition is_interrupted :: "io_error \<Rightarrow> bool" where
  "is_interrupted e \<longleftrightarrow> e = Interrupted \<or> e = OsError 10004"

partial_function (option) read_exact ::
    "'s read_fn \<Rightarrow> 's \<Rightarrow> nat \<Rightarrow> u8 list \<Rightarrow> ((io_error, u8 list) res \<times> 's) option" where
  "read_exact rd s n acc =
     (if n = 0 then Some (Ok acc, s)
      else case rd s n of (r, s') \<Rightarrow>
        (case r of
           Ok bs \<Rightarrow>
             (if bs = [] then Some (Err UnexpectedEof, s')
              else if n < length bs then Some (Panic, s')
              else read_exact rd s' (n - length bs) (acc @ bs))
         | Err e \<Rightarrow> (if is_interrupted e then read_exact rd s' n acc else Some (Err e, s'))
         | Panic \<Rightarrow> Some (Panic, s')))"

section \<open>The contract of a reader\<close>

text \<open>
  \<open>pending s\<close> are the bytes still to be delivered and \<open>fin s\<close> what is reported once they are
  drained: the end of the stream (\<open>None\<close>) or an error that is not an interruption. A read
  delivers a non-empty prefix of the pending bytes, in pieces of any size.
\<close>

locale byte_reader =
  fixes rd :: "'s read_fn"
    and pending :: "'s \<Rightarrow> u8 list"
    and fin :: "'s \<Rightarrow> io_error option"
    and invar :: "'s \<Rightarrow> bool"
  assumes rd_data: "invar s \<Longrightarrow> 0 < n \<Longrightarrow> n < 2 ^ 32 \<Longrightarrow> pending s \<noteq> [] \<Longrightarrow>
      \<exists>bs s'. rd s n = (Ok bs, s') \<and> bs \<noteq> [] \<and> length bs \<le> n \<and>
        pending s = bs @ pending s' \<and> fin s' = fin s \<and> invar s'"
    and rd_end: "invar s \<Longrightarrow> 0 < n \<Longrightarrow> n < 2 ^ 32 \<Longrightarrow> pending s = [] \<Longrightarrow>
      \<exists>s'. rd s n = ((case fin s of None \<Rightarrow> Ok [] | Some e \<Rightarrow> Err e), s') \<and>
        pending s' = [] \<and> fin s' = fin s \<and> invar s'"
    and fin_not_interrupted: "invar s \<Longrightarrow> fin s = Some e \<Longrightarrow> \<not> is_interrupted e"
begin

lemma read_exact_enough:
  assumes "invar s" and "n < 2 ^ 32" and "n \<le> length (pending s)"
  shows "\<exists>s'. read_exact rd s n acc = Some (Ok (acc @ take n (pending s)), s') \<and>
           pending s' = drop n (pending s) \<and> fin s' = fin s \<and> invar s'"
  using assms
proof (induction n arbitrary: s acc rule: less_induct)
  case (less n)
  show ?case
  proof (cases "n = 0")
    case True
    with less.prems show ?thesis by (simp add: read_exact.simps)
  next
    case False
    with less.prems have "0 < n" "pending s \<noteq> []" by auto
    with less.prems obtain bs s' where bs: "rd s n = (Ok bs, s')" "bs \<noteq> []" "length bs \<le> n"
      "pending s = bs @ pending s'" "fin s' = fin s" "invar s'"
      using rd_data by metis
    have "n - length bs < n" "n - length bs < 2 ^ 32" "n - length bs \<le> length (pending s')"
      using bs less.prems \<open>0 < n\<close> by auto
    from less.IH [OF this(1) bs(6) this(2,3), of "acc @ bs"] obtain s'' where
      "read_exact rd s' (n - length bs) (acc @ bs) =
         Some (Ok (acc @ bs @ take (n - length bs) (pending s')), s'')"
      "pending s'' = drop (n - length bs) (pending s')" "fin s'' = fin s" "invar s''"
      using bs(5) by auto
    then show ?thesis
      using False bs(1-4) by (simp add: read_exact.simps [of rd s])
  qed
qed

text \<open>When the stream ends early, the error is the one the stream ends with.\<close>

lemma read_exact_short:
  assumes "invar s" and "n < 2 ^ 32" and "length (pending s) < n"
  shows "\<exists>s'. read_exact rd s n acc =
             Some (Err (case fin s of None \<Rightarrow> UnexpectedEof | Some e \<Rightarrow> e), s') \<and>
           pending s' = [] \<and> fin s' = fin s \<and> invar s'"
  using assms
proof (induction n arbitrary: s acc rule: less_induct)
  case (less n)
  then have n: "0 < n" by simp
  show ?case
  proof (cases "pending s = []")
    case True
    obtain s' where s': "rd s n = ((case fin s of None \<Rightarrow> Ok [] | Some e \<Rightarrow> Err e), s')"
      "pending s' = []" "fin s' = fin s" "invar s'"
      using rd_end [OF less.prems(1) n less.prems(2) True] by blast
    then show ?thesis
      using n fin_not_interrupted [OF less.prems(1)]
      by (auto simp: read_exact.simps [of rd s] split: option.splits)
  next
    case False
    obtain bs s' where bs: "rd s n = (Ok bs, s')" "bs \<noteq> []" "length bs \<le> n"
      "pending s = bs @ pending s'" "fin s' = fin s" "invar s'"
      using rd_data [OF less.prems(1) n less.prems(2) False] by blast
    have "n - length bs < n" "n - length bs < 2 ^ 32" "length (pending s') < n - length bs"
      using bs less.prems n by auto
    from less.IH [OF this(1) bs(6) this(2,3), of "acc @ bs"] show ?thesis
      using n bs by (auto simp: read_exact.simps [of rd s])
  qed
qed

lemma read_exact_ends: 
  assumes "invar s" and "n < 2 ^ 32"
  obtains r s' where "read_exact rd s n acc = Some (r, s')" "invar s'" "r \<noteq> Panic"
    "length (pending s') = length (pending s) - n"
proof (cases "n \<le> length (pending s)")
  case True
  then show ?thesis using read_exact_enough [OF assms, of acc] that by force
next
  case False
  then show ?thesis using read_exact_short [OF assms, of acc] that by force
qed

end

end
