(* ===== verification/Pipe_Raw.thy ===== *)
theory Pipe_Raw
  imports Byte_Reader
begin

text \<open>
  \<open>crates/malbox-agent/src/pipes/raw.rs\<close>: the named pipe of the agent. The Win32 calls are
  parameters; what the code does with their results is modelled: the error codes that
  \<open>read\<close> turns into data or into the end of the stream, the errors of \<open>write\<close> and \<open>connect\<close>,
  the modes of the two kinds of pipe, and the wide strings given to the system.
\<close>

section \<open>Constants and wide strings\<close>

definition BUFSIZE :: u32 where "BUFSIZE = 65536"
definition ERROR_BROKEN_PIPE :: u32 where "ERROR_BROKEN_PIPE = 109"
definition ERROR_MORE_DATA :: u32 where "ERROR_MORE_DATA = 234"
definition ERROR_PIPE_CONNECTED :: u32 where "ERROR_PIPE_CONNECTED = 535"

text \<open>\<open>wide\<close> works on Unicode scalar values, here natural numbers.\<close>

definition utf16_units :: "nat \<Rightarrow> nat list" where
  "utf16_units c = (if c < 65536 then [c]
                    else [55296 + (c - 65536) div 1024, 56320 + (c - 65536) mod 1024])"

definition wide :: "nat list \<Rightarrow> nat list" where
  "wide s = concat (map utf16_units s) @ [0]"

definition is_scalar :: "nat \<Rightarrow> bool" where
  "is_scalar c \<longleftrightarrow> c < 55296 \<or> (57343 < c \<and> c < 1114112)"

text \<open>The standard decoding of UTF-16, to state that \<open>wide\<close> loses nothing.\<close>

fun utf16_decode :: "nat list \<Rightarrow> nat list" where
  "utf16_decode [] = []"
| "utf16_decode [u] = [u]"
| "utf16_decode (u # v # us) =
     (if 55296 \<le> u \<and> u < 56320 then (65536 + (u - 55296) * 1024 + (v - 56320)) # utf16_decode us
      else u # utf16_decode (v # us))"

lemma utf16_decode_units:
  assumes "is_scalar c"
  shows "utf16_decode (utf16_units c @ us) = c # utf16_decode us"
proof (cases "c < 65536")
  case True
  with assms show ?thesis by (cases us) (auto simp: utf16_units_def is_scalar_def)
next
  case False
  define d where "d = c - 65536"
  have d: "c = d + 65536" "d < 1048576" using False assms by (auto simp: d_def is_scalar_def)
  have "d div 1024 < 1024" using d(2) by (simp add: less_mult_imp_div_less)
  moreover have "d div 1024 * 1024 + d mod 1024 = d" by simp
  ultimately show ?thesis
    using False d by (simp add: utf16_units_def d_def [symmetric])
qed

lemma utf16_units_bound: "is_scalar c \<Longrightarrow> u \<in> set (utf16_units c) \<Longrightarrow> u < 65536"
proof -
  assume c: "is_scalar c" and u: "u \<in> set (utf16_units c)"
  then have "(c - 65536) div 1024 < 1024"
    by (auto simp: is_scalar_def less_mult_imp_div_less)
  with u show "u < 65536"
    by (auto simp: utf16_units_def split: if_splits intro: less_le_trans [OF mod_less_divisor])
qed

section \<open>Creating a pipe\<close>

record pipe_params =
  pp_open_mode :: u32
  pp_pipe_mode :: u32
  pp_out_buf :: u32
  pp_in_buf :: u32

definition PIPE_ACCESS_DUPLEX :: u32 where "PIPE_ACCESS_DUPLEX = 3"
definition PIPE_ACCESS_INBOUND :: u32 where "PIPE_ACCESS_INBOUND = 1"
definition PIPE_TYPE_MESSAGE :: u32 where "PIPE_TYPE_MESSAGE = 4"
definition PIPE_READMODE_MESSAGE :: u32 where "PIPE_READMODE_MESSAGE = 2"
definition PIPE_TYPE_BYTE :: u32 where "PIPE_TYPE_BYTE = 0"
definition PIPE_READMODE_BYTE :: u32 where "PIPE_READMODE_BYTE = 0"
definition PIPE_WAIT :: u32 where "PIPE_WAIT = 0"

unbundle bit_operations_syntax

definition command_params :: pipe_params where
  "command_params = \<lparr>pp_open_mode = PIPE_ACCESS_DUPLEX,
     pp_pipe_mode = PIPE_TYPE_MESSAGE OR PIPE_READMODE_MESSAGE OR PIPE_WAIT,
     pp_out_buf = BUFSIZE, pp_in_buf = BUFSIZE\<rparr>"

definition log_params :: pipe_params where
  "log_params = \<lparr>pp_open_mode = PIPE_ACCESS_INBOUND,
     pp_pipe_mode = PIPE_TYPE_BYTE OR PIPE_READMODE_BYTE OR PIPE_WAIT,
     pp_out_buf = 0, pp_in_buf = BUFSIZE\<rparr>"

text \<open>
  \<open>create\<close>: \<open>create_named_pipe\<close> is the system call on the wide name and the parameters; its
  result is a handle or the code of \<open>GetLastError\<close>.
\<close>

definition np_create ::
    "(nat list \<Rightarrow> pipe_params \<Rightarrow> (u32, 'h) res) \<Rightarrow> nat list \<Rightarrow> pipe_params \<Rightarrow> (u32, 'h) res" where
  "np_create create_named_pipe name ps = create_named_pipe (wide name) ps"

definition create_command where
  "create_command cnp name = np_create cnp name command_params"

definition create_log where
  "create_log cnp name = np_create cnp name log_params"

text \<open>\<open>connect\<close>: the result of \<open>ConnectNamedPipe\<close> and the code of \<open>GetLastError\<close>.\<close>

definition np_connect :: "bool \<Rightarrow> u32 \<Rightarrow> (u32, unit) res" where
  "np_connect ok err =
     (if \<not> ok then (if err \<noteq> ERROR_PIPE_CONNECTED then Err err else Ok ()) else Ok ())"

section \<open>Reading and writing\<close>

text \<open>
  The outcome of \<open>ReadFile\<close>: success with the bytes placed in the buffer, or failure with a
  code and the bytes that were placed in the buffer nevertheless.
\<close>

datatype read_file_out = RfOk "u8 list" | RfFail u32 "u8 list"

type_synonym 'p read_file = "'p \<Rightarrow> nat \<Rightarrow> read_file_out \<times> 'p"

definition np_read :: "'p read_file \<Rightarrow> 'p read_fn" where
  "np_read read_file p n =
     (case read_file p (unat (word_of_nat n :: u32)) of (out, p') \<Rightarrow>
       (case out of
          RfOk bs \<Rightarrow> (Ok bs, p')
        | RfFail err bs \<Rightarrow>
            (if err = ERROR_BROKEN_PIPE then (Ok [], p')
             else if err = ERROR_MORE_DATA then (Ok bs, p')
             else (Err (OsError err), p'))))"

definition np_write :: "('p \<Rightarrow> u8 list \<Rightarrow> (u32, nat) res \<times> 'p) \<Rightarrow> 'p \<Rightarrow> u8 list \<Rightarrow>
    (io_error, nat) res \<times> 'p" where
  "np_write write_file p buf =
     (case write_file p buf of (r, p') \<Rightarrow>
       ((case r of Ok n \<Rightarrow> Ok n | Err e \<Rightarrow> Err (OsError e) | Panic \<Rightarrow> Panic), p'))"

text \<open>
  What Win32 documents about \<open>ReadFile\<close> on the server end of a pipe: while bytes are queued
  a read delivers a non-empty prefix of them (in message mode possibly together with
  \<open>ERROR_MORE_DATA\<close>); once the client has closed and the queue is empty it fails with a
  fixed code, \<open>ERROR_BROKEN_PIPE\<close> for an orderly end.
\<close>

locale win_read_file =
  fixes rf :: "'p read_file"
    and queued :: "'p \<Rightarrow> u8 list"
    and code :: "'p \<Rightarrow> u32"
    and valid :: "'p \<Rightarrow> bool"
  assumes rf_data: "valid p \<Longrightarrow> 0 < n \<Longrightarrow> queued p \<noteq> [] \<Longrightarrow>
      \<exists>bs p'. (rf p n = (RfOk bs, p') \<or> rf p n = (RfFail ERROR_MORE_DATA bs, p')) \<and> bs \<noteq> [] \<and>
        length bs \<le> n \<and> queued p = bs @ queued p' \<and> code p' = code p \<and> valid p'"
    and rf_end: "valid p \<Longrightarrow> 0 < n \<Longrightarrow> queued p = [] \<Longrightarrow>
      \<exists>bs p'. rf p n = (RfFail (code p) bs, p') \<and> queued p' = [] \<and> code p' = code p \<and> valid p'"
    and code_final: "valid p \<Longrightarrow> code p \<noteq> ERROR_MORE_DATA \<and> code p \<noteq> 10004"

text \<open>The pipe turns that contract into the one of a reader.\<close>

definition pipe_fin :: "('p \<Rightarrow> u32) \<Rightarrow> 'p \<Rightarrow> io_error option" where
  "pipe_fin code p = (if code p = ERROR_BROKEN_PIPE then None else Some (OsError (code p)))"

sublocale win_read_file \<subseteq> pipe: byte_reader "np_read rf" queued "pipe_fin code" valid
proof
  fix p and n :: nat
  assume p: "valid p" "0 < n" "n < 2 ^ 32" "queued p \<noteq> []"
  have codes: "ERROR_MORE_DATA \<noteq> ERROR_BROKEN_PIPE"
    by (simp add: ERROR_MORE_DATA_def ERROR_BROKEN_PIPE_def)
  obtain bs p' where r: "rf p n = (RfOk bs, p') \<or> rf p n = (RfFail ERROR_MORE_DATA bs, p')"
    and rest: "bs \<noteq> []" "length bs \<le> n" "queued p = bs @ queued p'" "code p' = code p" "valid p'"
    using rf_data [OF p(1,2,4)] by blast
  from r have "np_read rf p n = (Ok bs, p')"
    using p(3) codes by (auto simp: np_read_def unat_u32_of_nat)
  moreover have "pipe_fin code p' = pipe_fin code p" by (simp add: pipe_fin_def rest(4))
  ultimately show "\<exists>bs p'. np_read rf p n = (Ok bs, p') \<and> bs \<noteq> [] \<and> length bs \<le> n \<and>
      queued p = bs @ queued p' \<and> pipe_fin code p' = pipe_fin code p \<and> valid p'"
    using rest by blast
next
  fix p and n :: nat
  assume p: "valid p" "0 < n" "n < 2 ^ 32" "queued p = []"
  obtain bs p' where r: "rf p n = (RfFail (code p) bs, p')"
    and rest: "queued p' = []" "code p' = code p" "valid p'"
    using rf_end [OF p(1,2,4)] by blast
  have "code p \<noteq> ERROR_MORE_DATA" using code_final [OF p(1)] by simp
  then have "np_read rf p n = ((case pipe_fin code p of None \<Rightarrow> Ok [] | Some e \<Rightarrow> Err e), p')"
    using r p(3) by (simp add: np_read_def unat_u32_of_nat pipe_fin_def)
  moreover have "pipe_fin code p' = pipe_fin code p" by (simp add: pipe_fin_def rest(2))
  ultimately show "\<exists>p'. np_read rf p n = ((case pipe_fin code p of None \<Rightarrow> Ok [] | Some e \<Rightarrow> Err e), p') \<and>
      queued p' = [] \<and> pipe_fin code p' = pipe_fin code p \<and> valid p'"
    using rest by blast
next
  fix p e
  assume "valid p" "pipe_fin code p = Some e"
  then show "\<not> is_interrupted e"
    using code_final [of p] by (auto simp: pipe_fin_def is_interrupted_def split: if_splits)
qed

context win_read_file
begin

lemma pipe_reader: "byte_reader (np_read rf) queued (pipe_fin code) valid"
  by (rule pipe.byte_reader_axioms)

end

text \<open>
  An executable pipe that meets the contract: the client's writes, delivered write by write
  as the reader's buffer allows, then the final code.
\<close>

record pipe_queue =
  pq_writes :: "u8 list list"
  pq_code :: u32

fun queue_read_file :: "pipe_queue read_file" where
  "queue_read_file q n =
     (case pq_writes q of
        [] \<Rightarrow> (RfFail (pq_code q) [], q)
      | w # ws \<Rightarrow> (if length w \<le> n then (RfOk w, q\<lparr>pq_writes := ws\<rparr>)
                   else (RfOk (take n w), q\<lparr>pq_writes := drop n w # ws\<rparr>)))"

definition queue_valid :: "pipe_queue \<Rightarrow> bool" where
  "queue_valid q \<longleftrightarrow> [] \<notin> set (pq_writes q) \<and> pq_code q \<noteq> ERROR_MORE_DATA \<and> pq_code q \<noteq> 10004"

definition queue_bytes :: "pipe_queue \<Rightarrow> u8 list" where
  "queue_bytes q = concat (pq_writes q)"

interpretation win_pipe: win_read_file queue_read_file queue_bytes pq_code queue_valid
proof
  fix p :: pipe_queue and n :: nat
  assume "queue_valid p" "0 < n" "queue_bytes p \<noteq> []"
  then show "\<exists>bs p'. (queue_read_file p n = (RfOk bs, p') \<or>
        queue_read_file p n = (RfFail ERROR_MORE_DATA bs, p')) \<and> bs \<noteq> [] \<and>
      length bs \<le> n \<and> queue_bytes p = bs @ queue_bytes p' \<and> pq_code p' = pq_code p \<and> queue_valid p'"
    by (cases "pq_writes p") (auto simp: queue_bytes_def queue_valid_def)
next
  fix p :: pipe_queue and n :: nat
  assume "queue_valid p" "0 < n" "queue_bytes p = []"
  then have "pq_writes p = []"
    by (cases "pq_writes p") (auto simp: queue_bytes_def queue_valid_def)
  with \<open>queue_valid p\<close> show "\<exists>bs p'. queue_read_file p n = (RfFail (pq_code p) bs, p') \<and> queue_bytes p' = [] \<and>
      pq_code p' = pq_code p \<and> queue_valid p'"
    by (simp add: queue_bytes_def)
qed (simp add: queue_valid_def)

end
