(* ===== verification/Controller_Client.thy ===== *)
theory Controller_Client
  imports Agent_Bootstrap Agent_Service Job_Tracker Pipe_Raw Vm
begin

text \<open>
  The client half of \<open>crates/malbox-controller/src/job.rs\<close>: \<open>bootstrap_mtls\<close>, \<open>connect_mtls\<close>,
  \<open>upload_sample\<close> and \<open>run_analysis\<close>. They are written against the two contracts of the agent,
  \<open>bootstrap_rpc\<close> and \<open>upload_rpc\<close>, and against \<open>byte_reader\<close> for the sample on disk. Two names of
  the source are taken by the agent's halves: the client's are \<open>upload_sample_client\<close> and
  \<open>run_analysis_client\<close>.
\<close>

section \<open>Calls over the wire\<close>

text \<open>A handler that panics gives its client an error like any other.\<close>

definition over_wire :: "(grpc_status, 'a) res \<Rightarrow> (anyhow, 'a) res" where
  "over_wire r = (case r of
       Ok x \<Rightarrow> Ok x
     | Err st \<Rightarrow> (case st of Status c msg \<Rightarrow> Err [msg])
     | Panic \<Rightarrow> Err [''transport error''])"

definition bind_st :: "'s \<times> ('e, 'a) res \<Rightarrow> ('s \<Rightarrow> 'a \<Rightarrow> 's \<times> ('e, 'b) res) \<Rightarrow> 's \<times> ('e, 'b) res" where
  "bind_st m f = (case snd m of Ok x \<Rightarrow> f (fst m) x | Err e \<Rightarrow> (fst m, Err e) | Panic \<Rightarrow> (fst m, Panic))"

definition call :: "'s \<times> (grpc_status, 'a) res \<Rightarrow> 's \<times> (anyhow, 'a) res" where
  "call m = (fst m, over_wire (snd m))"

definition to_anyhow :: "(string, 'a) res \<Rightarrow> (anyhow, 'a) res" where
  "to_anyhow r = (case r of Ok x \<Rightarrow> Ok x | Err e \<Rightarrow> Err [e] | Panic \<Rightarrow> Panic)"

lemma over_wire_Ok [simp]: "over_wire r = Ok x \<longleftrightarrow> r = Ok x"
  by (auto simp: over_wire_def split: res.splits grpc_status.splits)

lemma to_anyhow_Ok [simp]: "to_anyhow r = Ok x \<longleftrightarrow> r = Ok x"
  by (auto simp: to_anyhow_def split: res.splits)

lemma bind_st_Ok: "bind_st m f = (s', Ok y) \<longleftrightarrow> (\<exists>x. snd m = Ok x \<and> f (fst m) x = (s', Ok y))"
  by (auto simp: bind_st_def split: res.splits)

section \<open>Connecting\<close>

text \<open>Both connection loops retry until the agent accepts; \<open>up k\<close> says whether the \<open>k\<close>-th attempt is
  accepted, and \<open>None\<close> is a loop that never ends.\<close>

partial_function (option) connect_loop :: "(nat \<Rightarrow> bool) \<Rightarrow> nat \<Rightarrow> nat option" where
  "connect_loop up k = (if up k then Some k else connect_loop up (Suc k))"

lemma connect_loop_found: "up n \<Longrightarrow> k \<le> n \<Longrightarrow> \<exists>m. connect_loop up k = Some m \<and> up m"
proof (induction "n - k" arbitrary: k)
  case 0
  then show ?case by (simp add: connect_loop.simps [of up k])
next
  case (Suc d)
  show ?case
  proof (cases "up k")
    case False
    then have "Suc k \<le> n" using Suc.prems by (metis le_antisym not_less_eq_eq)
    with Suc False show ?thesis by (simp add: connect_loop.simps [of up k])
  qed (simp add: connect_loop.simps [of up k])
qed

lemma connect_loop_up: "connect_loop up k = Some m \<Longrightarrow> up m \<and> k \<le> m"
proof (erule connect_loop.raw_induct [where P = "\<lambda>up k m. up m \<and> k \<le> m", rotated])
  fix loop up k m
  assume "\<And>u b y. loop u b = Some y \<Longrightarrow> u y \<and> b \<le> y"
    "(if up k then Some k else loop up (Suc k)) = Some m"
  then show "up m \<and> k \<le> m" by (force split: if_splits)
qed

lemma connect_loop_None: "connect_loop up 0 = None \<longleftrightarrow> (\<forall>n. \<not> up n)"
proof
  assume "connect_loop up 0 = None"
  then show "\<forall>n. \<not> up n" using connect_loop_found [of up _ 0] by force
next
  assume "\<forall>n. \<not> up n"
  then show "connect_loop up 0 = None" using connect_loop_up [of up 0] by (cases "connect_loop up 0") auto
qed

section \<open>The bootstrap\<close>

definition exchange ::
    "('k, 'c, 'q) rcgen \<Rightarrow> (string, 'k) res \<Rightarrow> (string, 'k) res \<Rightarrow>
     ('s \<Rightarrow> 's \<times> (grpc_status, ip_msg) res) \<Rightarrow>
     (request_csr_envelope \<Rightarrow> 's \<Rightarrow> 's \<times> (grpc_status, csr_envelope) res) \<Rightarrow>
     (signed_cert_envelope \<Rightarrow> 's \<Rightarrow> 's \<times> (grpc_status, ack) res) \<Rightarrow>
     string \<Rightarrow> string \<Rightarrow> 's \<Rightarrow> 's \<times> (anyhow, ('k, 'c) job_certs) res" where
  "exchange rc g1 g2 who csr switch job_id ip s =
     bind_st (call (who s)) (\<lambda>s m.
     bind_st (s, case parse_ip (ip_addr m) of
                   Some a \<Rightarrow> Ok a | None \<Rightarrow> Err [''invalid IP address syntax'']) (\<lambda>s controller_ip.
     bind_st (s, to_anyhow (generate_job_certs rc g1 g2 job_id controller_ip)) (\<lambda>s certs.
     bind_st (call (csr \<lparr>rc_ip_addr = ip, rc_job_uuid = job_id,
                         rc_root_ca_pem = rg_pem rc (jc_root_ca_cert certs)\<rparr> s)) (\<lambda>s c.
     bind_st (s, to_anyhow (sign_agent_csr rc certs (csr_pem c))) (\<lambda>s agent_cert.
     bind_st (call (switch \<lparr>signed_cert_pem = rg_pem rc agent_cert\<rparr> s)) (\<lambda>s a.
       (s, if \<not> ack_success a then Err [''key exchange failed: '' @ ack_error_message a]
           else Ok certs)))))))"

definition bootstrap_mtls where
  "bootstrap_mtls up rc g1 g2 who csr switch job_id ip s =
     (case connect_loop up 0 of
        None \<Rightarrow> None
      | Some _ \<Rightarrow> Some (exchange rc g1 g2 who csr switch job_id ip s))"

text \<open>
  \<open>connect_mtls\<close>: the TLS configuration is the controller's certificate and key and the job's
  authority; an address or configuration that the transport refuses ends the loop with its error.
\<close>

record client_tls =
  ct_cert :: string
  ct_key :: string
  ct_ca :: string

definition client_tls_of :: "('k, 'c, 'q) rcgen \<Rightarrow> ('k, 'c) job_certs \<Rightarrow> client_tls" where
  "client_tls_of rc certs = \<lparr>ct_cert = rg_pem rc (jc_controller_cert certs),
     ct_key = rg_key_pem rc (jc_controller_key certs), ct_ca = rg_pem rc (jc_root_ca_cert certs)\<rparr>"

definition connect_mtls ::
    "('k, 'c, 'q) rcgen \<Rightarrow> (string \<Rightarrow> string option) \<Rightarrow> (client_tls \<Rightarrow> string option) \<Rightarrow> (nat \<Rightarrow> bool) \<Rightarrow>
     (hello \<Rightarrow> (grpc_status, hello) res) \<Rightarrow> string \<Rightarrow> ('k, 'c) job_certs \<Rightarrow> (anyhow, client_tls) res option" where
  "connect_mtls rc bad_url bad_tls up hello agent_ip certs =
     (let tls = client_tls_of rc certs
      in case bad_url (''https://'' @ agent_ip @ '':50055'') of
           Some e \<Rightarrow> Some (Err [e])
         | None \<Rightarrow>
             (case bad_tls tls of
                Some e \<Rightarrow> Some (Err [e])
              | None \<Rightarrow>
                  (case connect_loop up 0 of
                     None \<Rightarrow> None
                   | Some _ \<Rightarrow> Some (bind_res (over_wire (hello \<lparr>hello_msg = ''controller''\<rparr>)) (\<lambda>_. Ok tls)))))"

section \<open>Sending the sample\<close>

text \<open>The reading task: chunks of at most 32 KiB until the end of the file, an error of the file, or a
  closed channel, all of which simply end the stream. \<open>live k\<close> says whether the \<open>k\<close>-th send finds the
  channel open.\<close>

definition CHUNK :: nat where "CHUNK = 32 * 1024"

partial_function (option) chunk_loop ::
    "'s read_fn \<Rightarrow> (nat \<Rightarrow> bool) \<Rightarrow> string \<Rightarrow> 's \<Rightarrow> bool \<Rightarrow> nat \<Rightarrow> file_chunk list option" where
  "chunk_loop rd live name s is_first k =
     (case rd s CHUNK of (r, s') \<Rightarrow>
       (case r of
          Ok bs \<Rightarrow>
            (if bs = [] then Some []
             else if \<not> live k then Some []
             else Option.bind (chunk_loop rd live name s' False (Suc k)) (\<lambda>cs.
               Some (\<lparr>fc_data = bs, fc_is_first = is_first,
                      fc_filename = (if is_first then name else [])\<rparr> # cs)))
        | Err e \<Rightarrow> Some []
        | Panic \<Rightarrow> Some []))"

definition upload_sample_client ::
    "string option \<Rightarrow> 's read_fn \<Rightarrow> (nat \<Rightarrow> bool) \<Rightarrow>
     ((string, file_chunk) res list \<Rightarrow> 'f \<Rightarrow> 'f \<times> (grpc_status, ack) res) \<Rightarrow> string \<Rightarrow> 's \<Rightarrow> 'f \<Rightarrow>
     ('f \<times> (anyhow, unit) res) option" where
  "upload_sample_client open_error rd live upload sample_name s f = (case open_error of
       Some e \<Rightarrow> Some (f, Err [e])
     | None \<Rightarrow>
         (case chunk_loop rd live sample_name s True 0 of
            None \<Rightarrow> None
          | Some chunks \<Rightarrow> Some (bind_st (call (upload (map Ok chunks) f)) (\<lambda>f resp.
              (f, if ack_success resp then Ok ()
                  else Err [''upload rejected: '' @ ack_error_message resp])))))"

section \<open>Waiting for the analysis\<close>

fun first_done :: "(string, event) res list \<Rightarrow> (anyhow, analysis_result) res" where
  "first_done [] = Err [''analysis stream ended without completion'']"
| "first_done (m # stream) = (case m of
       Err e \<Rightarrow> Err [e]
     | Panic \<Rightarrow> Panic
     | Ok ev \<Rightarrow>
         (case ev_kind ev of
            Some (Done d) \<Rightarrow> Ok \<lparr>ar_exit_code = acd_exit_code d, ar_runtime_ms = acd_runtime_ms d,
                                ar_features_json = acd_features_json d\<rparr>
          | None \<Rightarrow> first_done stream))"

definition run_analysis_client ::
    "(analysis_request \<Rightarrow> (grpc_status, (string, event) res list) res) \<Rightarrow> u32 \<Rightarrow> string \<Rightarrow>
       (anyhow, analysis_result) res" where
  "run_analysis_client analyze_rpc timeout_secs sample_name =
     bind_res (over_wire (analyze_rpc \<lparr>arq_timeout_secs = timeout_secs, arq_sample_name = sample_name\<rparr>)) first_done"

section \<open>What the client gets from the contracts\<close>

context bootstrap_rpc
begin

lemma exchange_Ok:
  assumes "exchange rc g1 g2 who csr switch job_id ip s = (s', Ok cs)"
  shows "finished s' \<and> ac_root_ca_pem (certs s') = rg_pem rc (jc_root_ca_cert cs) \<and>
     (\<exists>controller_ip. generate_job_certs rc g1 g2 job_id controller_ip = Ok cs \<and>
        parse_ip (show_ip (ac_server_ip_addr (certs s'))) = Some controller_ip) \<and>
     (\<exists>q agent_cert. made_with q (ac_agent_key_pem (certs s')) \<and> sign_agent_csr rc cs q = Ok agent_cert \<and>
        ac_agent_cert_pem (certs s') = rg_pem rc agent_cert)"
proof -
  let ?s1 = "fst (who s)"
  from assms obtain m controller_ip c agent_cert a where
    m: "snd (who s) = Ok m" "parse_ip (ip_addr m) = Some controller_ip"
      "generate_job_certs rc g1 g2 job_id controller_ip = Ok cs" and
    c: "snd (csr \<lparr>rc_ip_addr = ip, rc_job_uuid = job_id, rc_root_ca_pem = rg_pem rc (jc_root_ca_cert cs)\<rparr> ?s1) = Ok c"
      "sign_agent_csr rc cs (csr_pem c) = Ok agent_cert" and
    a: "snd (switch \<lparr>signed_cert_pem = rg_pem rc agent_cert\<rparr> (fst (csr \<lparr>rc_ip_addr = ip, rc_job_uuid = job_id,
          rc_root_ca_pem = rg_pem rc (jc_root_ca_cert cs)\<rparr> ?s1))) = Ok a"
      "s' = fst (switch \<lparr>signed_cert_pem = rg_pem rc agent_cert\<rparr> (fst (csr \<lparr>rc_ip_addr = ip,
          rc_job_uuid = job_id, rc_root_ca_pem = rg_pem rc (jc_root_ca_cert cs)\<rparr> ?s1)))"
    by (auto simp: exchange_def bind_st_Ok call_def split: option.splits if_splits)
  from who_law(2) [OF m(1)] csr_law(2) [OF c(1)] switch_law(1) [OF a(1)] m(2,3) c(2) show ?thesis
    unfolding a(2) by auto
qed

end

context byte_reader
begin

text \<open>The chunks carry exactly the bytes that can be read; an error after them changes nothing.\<close>

lemma chunk_loop_all:
  assumes "invar s" and "\<And>k. live k"
  shows "\<exists>cs. chunk_loop rd live name s first k = Some cs \<and> concat (map fc_data cs) = pending s \<and>
    (\<forall>c \<in> set cs. fc_data c \<noteq> [] \<and> length (fc_data c) \<le> CHUNK) \<and>
    (cs \<noteq> [] \<longrightarrow> fc_filename (hd cs) = (if first then name else []) \<and> fc_is_first (hd cs) = first)"
  using assms(1)
proof (induction "length (pending s)" arbitrary: s first k rule: less_induct)
  case less
  have n: "0 < CHUNK" "CHUNK < 2 ^ 32" by (simp_all add: CHUNK_def)
  show ?case
  proof (cases "pending s = []")
    case True
    obtain s' where "rd s CHUNK = ((case fin s of None \<Rightarrow> Ok [] | Some e \<Rightarrow> Err e), s')"
      using rd_end [OF less.prems n True] by blast
    then show ?thesis using True
      by (auto simp: chunk_loop.simps [of rd live name s] split: option.splits)
  next
    case False
    obtain bs s' where bs: "rd s CHUNK = (Ok bs, s')" "bs \<noteq> []" "length bs \<le> CHUNK"
      "pending s = bs @ pending s'" "invar s'"
      using rd_data [OF less.prems n False] by blast
    then have "length (pending s') < length (pending s)" by simp
    from less.hyps [OF this bs(5), of False "Suc k"] bs assms(2) show ?thesis
      by (auto simp: chunk_loop.simps [of rd live name s])
  qed
qed

end

text \<open>A reader and a store that meet the two contracts, put together.\<close>

lemma upload_client_Ok:
  assumes up: "upload_rpc upload stored" and rd: "byte_reader rd pending fin invar" and s: "invar s"
    and live: "\<And>k. live k"
    and ok: "upload_sample_client None rd live upload name s f = Some (f', Ok ())"
  shows "stored f' name = Some (pending s) \<and> pending s \<noteq> []"
proof -
  obtain cs where cs: "chunk_loop rd live name s True 0 = Some cs" "concat (map fc_data cs) = pending s"
    "\<forall>c \<in> set cs. fc_data c \<noteq> [] \<and> length (fc_data c) \<le> CHUNK"
    "cs \<noteq> [] \<longrightarrow> fc_filename (hd cs) = (if True then name else []) \<and> fc_is_first (hd cs) = True"
    using byte_reader.chunk_loop_all [where live = live and name = name and first = True and k = 0, OF rd s live]
    by blast
  from ok cs(1) obtain a where a: "snd (upload (map Ok cs) f) = Ok a" "f' = fst (upload (map Ok cs) f)"
    by (auto simp: upload_sample_client_def bind_st_Ok call_def)
  obtain c cs' where c: "cs = c # cs'"
    using upload_rpc.upload_empty [OF up] a(1) by (cases cs) auto
  from upload_rpc.upload_law [OF up a(1) [unfolded c]] have "stored f' name = Some (pending s)"
    using cs(2,4) c a(2) by simp
  moreover have "pending s \<noteq> []" using cs(2,3) c by auto
  ultimately show ?thesis by blast
qed

section \<open>Properties\<close>

text \<open>C13: When the bootstrap of the controller succeeds against the agent's handlers, both sides agree: the
  agent has been signalled, trusts exactly the authority that the controller keeps, and holds the
  certificate that this authority signed for the request made with the agent's own key; and the
  controller's certificate was made for the address under which the agent saw it.\<close>

theorem bootstrap_agrees:
  assumes "bootstrap_mtls up rc g1 g2 (who_am_i addr) (request_csr rc g) switch_connection job_id ip svc =
     Some (svc', Ok cs)"
  shows "\<not> bs_done_tx svc' \<and> ac_root_ca_pem (bs_state svc') = rg_pem rc (jc_root_ca_cert cs) \<and>
     (\<exists>a. generate_job_certs rc g1 g2 job_id a = Ok cs \<and>
        parse_ip (show_ip (ac_server_ip_addr (bs_state svc'))) = Some a) \<and>
     (\<exists>q c. made_with_key rc q (ac_agent_key_pem (bs_state svc')) \<and> sign_agent_csr rc cs q = Ok c \<and>
        ac_agent_cert_pem (bs_state svc') = rg_pem rc c)"
proof -
  have "exchange rc g1 g2 (who_am_i addr) (request_csr rc g) switch_connection job_id ip svc = (svc', Ok cs)"
    using assms by (auto simp: bootstrap_mtls_def split: option.splits)
  then show ?thesis by (rule agent.exchange_Ok)
qed

lemma generate_null: "generate_job_certs null_rcgen (Ok ()) (Ok ()) j a =
    Ok \<lparr>jc_controller_cert = (), jc_controller_key = (), jc_root_ca_cert = (), jc_root_ca_key = ()\<rparr>"
  by (simp add: generate_job_certs_def null_rcgen_def Let_def)

lemma bootstrap_null:
  assumes "up n" and "parse_ip ip \<noteq> None"
  shows "bootstrap_mtls up null_rcgen (Ok ()) (Ok ()) (who_am_i (Some (V4 a b c d)))
      (request_csr null_rcgen (Ok ())) switch_connection job_id ip new_service =
    Some (\<lparr>bs_state = \<lparr>ac_root_ca_pem = ''pem'', ac_agent_key_pem = ''key'', ac_agent_cert_pem = ''pem'',
             ac_server_ip_addr = V4 a b c d\<rparr>, bs_done_tx = False, bs_signals = 1\<rparr>,
          Ok \<lparr>jc_controller_cert = (), jc_controller_key = (), jc_root_ca_cert = (), jc_root_ca_key = ()\<rparr>)"
proof -
  obtain m where "connect_loop up 0 = Some m" using connect_loop_found [of up n 0] assms(1) by auto
  moreover obtain x where "parse_ip ip = Some x" using assms(2) by auto
  ultimately show ?thesis
    using generate_null parse_show_v4 [of a b c d]
    by (simp add: bootstrap_mtls_def exchange_def bind_st_def call_def over_wire_def to_anyhow_def
        who_am_i_def request_csr_def switch_connection_def new_service_def default_certs_def
        generate_csr_def sign_agent_csr_def Let_def del: show_ip.simps) (simp add: null_rcgen_def)
qed

theorem bootstrap_agrees_witness:
  "\<exists>svc' cs. bootstrap_mtls (\<lambda>k. k = 3) null_rcgen (Ok ()) (Ok ()) (who_am_i (Some (V4 192 168 122 1)))
       (request_csr null_rcgen (Ok ())) switch_connection ''j'' ''10.0.0.7'' new_service = Some (svc', Ok cs) \<and>
     \<not> bs_done_tx svc' \<and> ac_root_ca_pem (bs_state svc') = rg_pem null_rcgen (jc_root_ca_cert cs)"
proof -
  have "parse_ip (show_ip (V4 10 0 0 7)) \<noteq> None" by (simp only: parse_show_v4) simp
  moreover have "show_ip (V4 10 0 0 7) = ''10.0.0.7''" by code_simp
  ultimately have "parse_ip ''10.0.0.7'' \<noteq> None" by metis
  from bootstrap_null [where up = "\<lambda>k. k = 3" and n = 3, OF refl this]
  have b: "bootstrap_mtls (\<lambda>k. k = 3) null_rcgen (Ok ()) (Ok ()) (who_am_i (Some (V4 192 168 122 1)))
       (request_csr null_rcgen (Ok ())) switch_connection ''j'' ''10.0.0.7'' new_service =
      Some (\<lparr>bs_state = \<lparr>ac_root_ca_pem = ''pem'', ac_agent_key_pem = ''key'', ac_agent_cert_pem = ''pem'',
             ac_server_ip_addr = V4 192 168 122 1\<rparr>, bs_done_tx = False, bs_signals = 1\<rparr>,
          Ok \<lparr>jc_controller_cert = (), jc_controller_key = (), jc_root_ca_cert = (), jc_root_ca_key = ()\<rparr>)"
    by blast
  with bootstrap_agrees [OF b] show ?thesis by blast
qed

text \<open>The bootstrap is not bounded in time: it never returns exactly when the agent never accepts the
  connection; with one accepted attempt it does return, with certificates or with an error.\<close>

theorem bootstrap_waits_forever:
  "bootstrap_mtls up rc g1 g2 who csr switch job_id ip s = None \<longleftrightarrow> (\<forall>n. \<not> up n)"
  by (simp add: bootstrap_mtls_def connect_loop_None [symmetric] split: option.splits)


lemma write_rest_good:
  "fs path = Some old \<Longrightarrow> write_rest good_fs k path (map Ok cs) fs =
     (fs(path \<mapsto> old @ concat (map fc_data cs)), Ok ())"
proof (induction cs arbitrary: k fs old)
  case Nil
  then show ?case by (auto simp: good_fs_def)
next
  case (Cons c cs)
  have "write_all good_fs k path (fc_data c) fs = (fs(path \<mapsto> old @ fc_data c), Ok ())"
    using Cons.prems by (simp add: write_all_def good_fs_def)
  moreover have "write_rest good_fs (Suc k) path (map Ok cs) (fs(path \<mapsto> old @ fc_data c)) =
      ((fs(path \<mapsto> old @ fc_data c))(path \<mapsto> (old @ fc_data c) @ concat (map fc_data cs)), Ok ())"
    by (rule Cons.IH) simp
  ultimately show ?case by (simp add: fun_eq_iff)
qed

lemma upload_sample_good:
  assumes "trim (fc_filename c) = n" and "n \<noteq> []" and "parse_prefix n = None" and "\<not> starts_sep n"
  shows "upload_sample good_fs (map Ok (c # cs)) fs =
     (fs(win_join upload_dir n \<mapsto> concat (map fc_data (c # cs))),
      Ok \<lparr>ack_success = True, ack_error_message = []\<rparr>)"
proof -
  let ?p = "win_join upload_dir n"
  have "write_all good_fs 0 ?p (fc_data c) (fs(?p \<mapsto> [])) = (fs(?p \<mapsto> fc_data c), Ok ())"
    by (simp add: write_all_def good_fs_def)
  then have "store_upload good_fs ?p c (map Ok cs) fs =
      (fs(?p \<mapsto> concat (map fc_data (c # cs))), Ok \<lparr>ack_success = True, ack_error_message = []\<rparr>)"
    using write_rest_good [of "fs(?p \<mapsto> fc_data c)" ?p "fc_data c" 1 cs] by (simp add: store_upload_def)
  then show ?thesis
    using assms(2) guard_relative [OF assms(3,4)]
    by (simp add: upload_sample_def assms(1)) (simp add: good_fs_def)
qed

lemma client_good:
  assumes rd: "byte_reader rd pending fin invar" and s: "invar s" and live: "\<And>k. live k"
    and name: "trim name \<noteq> []" "parse_prefix (trim name) = None" "\<not> starts_sep (trim name)"
  shows "upload_sample_client None rd live (upload_sample good_fs) name s fs =
     Some (if pending s = [] then (fs, Err [''file stream is empty''])
           else (fs(win_join upload_dir (trim name) \<mapsto> pending s), Ok ()))"
proof -
  obtain cs where cs: "chunk_loop rd live name s True 0 = Some cs" "concat (map fc_data cs) = pending s"
    "\<forall>c \<in> set cs. fc_data c \<noteq> [] \<and> length (fc_data c) \<le> CHUNK"
    "cs \<noteq> [] \<longrightarrow> fc_filename (hd cs) = (if True then name else []) \<and> fc_is_first (hd cs) = True"
    using byte_reader.chunk_loop_all [where live = live and name = name and first = True and k = 0, OF rd s live]
    by blast
  show ?thesis
  proof (cases cs)
    case Nil
    then have "pending s = []" using cs(2) by simp
    then show ?thesis using cs(1) Nil
      by (simp add: upload_sample_client_def bind_st_def call_def upload_sample_def over_wire_def)
  next
    case (Cons c cs')
    have "pending s \<noteq> []" using cs(2,3) Cons by auto
    moreover have "fc_filename c = name" using cs(4) Cons by simp
    ultimately show ?thesis
      using cs(1,2) Cons upload_sample_good [OF _ name, of c cs' fs]
      by (simp add: upload_sample_client_def bind_st_def call_def over_wire_def)
  qed
qed

definition short_sample :: pipe_queue where
  "short_sample = \<lparr>pq_writes = [[77, 90], [1]], pq_code = 5\<rparr>"

lemma short_sample:
  "queue_valid short_sample" "queue_bytes short_sample = [77, 90, 1]"
  "pipe_fin pq_code short_sample = Some (OsError 5)"
  by (simp_all add: short_sample_def queue_valid_def queue_bytes_def pipe_fin_def ERROR_MORE_DATA_def
      ERROR_BROKEN_PIPE_def)


text \<open>Against a guest that can store it, a sample under an ordinary name is sent with success exactly
  when at least one byte of it could be read. The end of the file and a read error after those bytes
  have the same effect: a sample that cannot be read to its end arrives cut short and is reported as
  sent. An empty one is refused by the agent.\<close>

theorem upload_outcome:
  assumes "byte_reader rd pending fin invar" and "invar s" and "\<And>k. live k"
    and "trim name \<noteq> []" and "parse_prefix (trim name) = None" and "\<not> starts_sep (trim name)"
  shows "upload_sample_client None rd live (upload_sample good_fs) name s fs =
     Some (if pending s = [] then (fs, Err [''file stream is empty''])
           else (fs(win_join upload_dir (trim name) \<mapsto> pending s), Ok ()))"
  by (rule client_good [where live = live]) fact+

theorem upload_outcome_witness:
  "pipe_fin pq_code short_sample = Some (OsError 5) \<and>
   upload_sample_client None (np_read queue_read_file) (\<lambda>_. True) (upload_sample good_fs) ''a.exe''
      short_sample Map.empty = Some (Map.empty(win_join upload_dir ''a.exe'' \<mapsto> [77, 90, 1]), Ok ())"
  using upload_outcome [where live = "\<lambda>_. True" and name = "''a.exe''" and fs = Map.empty,
      OF win_pipe.pipe.byte_reader_axioms short_sample(1)]
  by (simp add: example_trim example_relative short_sample(2,3))

text \<open>What the controller learns of an analysis: the result when it ends, exit code 1 with an empty
  report when it fails, an error when its task panics or the name is no file name. The requested
  timeout has no influence, and a failed analysis is not told apart from one that exits with 1.\<close>

theorem analysis_outcome:
  "run_analysis_client (analyze run now) timeout name =
     (case win_file_name name of
        None \<Rightarrow> Err [''Invalid sample name'']
      | Some n \<Rightarrow>
          (case run \<lparr>acf_sample_path = upload_dir @ [bslash] @ n, acf_timeout_secs = 300,
                     acf_work_dir = upload_dir\<rparr> of
             Ok a \<Rightarrow> Ok \<lparr>ar_exit_code = agr_exit_code a, ar_runtime_ms = agr_runtime_ms a,
                        ar_features_json = agr_features_json a\<rparr>
           | Err _ \<Rightarrow> Ok \<lparr>ar_exit_code = 1, ar_runtime_ms = 0, ar_features_json = []\<rparr>
           | Panic \<Rightarrow> Err [''analysis stream ended without completion'']))"
  by (simp add: run_analysis_client_def analyze_def analyze_config_def analyze_events_def over_wire_def
      split: option.splits res.splits)

end
