(* ===== verification/Job_Run.thy ===== *)
theory Job_Run
  imports Run_Job Controller_Client
begin

text \<open>
  \<open>run_job\<close> and \<open>run_job_inner\<close> of \<open>crates/malbox-controller/src/job.rs\<close> again, this time with what they await
  put in: the creation and removal of the machine (\<open>Vm\<close>) and the client half of the protocol
  (\<open>Controller_Client\<close>). \<open>Run_Job\<close> is the same code with the awaits left open, interleaved with everything
  else; here the outcomes are computed, and what other tasks and requests do to the table of jobs before a
  program point is the argument \<open>je_others\<close>.
\<close>

section \<open>The world of a job\<close>

text \<open>\<open>'a\<close> is the state of the agent, \<open>'s\<close> the sample's file while it is read.\<close>

record ('a, 's, 'k, 'c, 'q) job_env =
  je_others :: "pc \<Rightarrow> job_tracker \<Rightarrow> job_tracker"
  je_paths :: paths_config
  je_vm :: vm_env
  je_destroy_ok :: bool
  je_undefine_ok :: bool
  je_up_bootstrap :: "nat \<Rightarrow> bool"
  je_rcgen :: "('k, 'c, 'q) rcgen"
  je_key1 :: "(string, 'k) res"
  je_key2 :: "(string, 'k) res"
  je_who :: "'a \<Rightarrow> 'a \<times> (grpc_status, ip_msg) res"
  je_csr :: "request_csr_envelope \<Rightarrow> 'a \<Rightarrow> 'a \<times> (grpc_status, csr_envelope) res"
  je_switch :: "signed_cert_envelope \<Rightarrow> 'a \<Rightarrow> 'a \<times> (grpc_status, ack) res"
  je_bad_url :: "string \<Rightarrow> string option"
  je_bad_tls :: "client_tls \<Rightarrow> string option"
  je_up_mtls :: "nat \<Rightarrow> bool"
  je_hello :: "hello \<Rightarrow> (grpc_status, hello) res"
  je_open_error :: "string option"
  je_read :: "'s read_fn"
  je_sample :: 's
  je_live :: "nat \<Rightarrow> bool"
  je_upload :: "(string, file_chunk) res list \<Rightarrow> 'a \<Rightarrow> 'a \<times> (grpc_status, ack) res"
  je_analyze :: "'a \<Rightarrow> analysis_request \<Rightarrow> (grpc_status, (string, event) res list) res"

record 'a world =
  jw_tracker :: job_tracker
  jw_host :: host
  jw_agent :: 'a

type_synonym ('a, 'r) job_prog = "'a world \<Rightarrow> ('a world \<times> (anyhow, 'r) res) option"

text \<open>\<open>None\<close> is an await that never ends. \<open>?\<close> passes an error on, and \<open>context\<close> puts a text in front of it.\<close>

definition bind_job :: "('a, 'r) job_prog \<Rightarrow> ('r \<Rightarrow> ('a, 'p) job_prog) \<Rightarrow> ('a, 'p) job_prog" where
  "bind_job m f w = (case m w of
       None \<Rightarrow> None
     | Some (w', r) \<Rightarrow>
         (case r of Ok x \<Rightarrow> f x w' | Err e \<Rightarrow> Some (w', Err e) | Panic \<Rightarrow> Some (w', Panic)))"

definition context_job :: "string \<Rightarrow> ('a, 'r) job_prog \<Rightarrow> ('a, 'r) job_prog" where
  "context_job c m w = map_option (\<lambda>(w', r). (w', context_msg c r)) (m w)"

text \<open>The other users of the table come first at every program point.\<close>

definition at_pc :: "(pc \<Rightarrow> job_tracker \<Rightarrow> job_tracker) \<Rightarrow> pc \<Rightarrow> ('a, 'r) job_prog \<Rightarrow> ('a, 'r) job_prog" where
  "at_pc others p m w = m (w\<lparr>jw_tracker := others p (jw_tracker w)\<rparr>)"

section \<open>The task\<close>

definition announce :: "job_status \<Rightarrow> string \<Rightarrow> ('a, unit) job_prog" where
  "announce status jid w = Some (w\<lparr>jw_tracker := set_status status (jw_tracker w) jid\<rparr>, Ok ())"

definition create_machine :: "('a, 's, 'k, 'c, 'q) job_env \<Rightarrow> ('a, job_domain) job_prog" where
  "create_machine env w = map_option (\<lambda>(h, r). (w\<lparr>jw_host := h\<rparr>, r))
     (create_job_domain (je_paths env) (je_vm env) (jw_host w))"

definition remove_machine :: "('a, 's, 'k, 'c, 'q) job_env \<Rightarrow> job_domain \<Rightarrow> ('a, unit) job_prog" where
  "remove_machine env jd w = Some (w\<lparr>jw_host :=
     teardown (je_vm env) (je_destroy_ok env) (je_undefine_ok env) jd (jw_host w)\<rparr>, Ok ())"

definition check_wanted :: "('a, 's, 'k, 'c, 'q) job_env \<Rightarrow> string \<Rightarrow> job_domain \<Rightarrow> ('a, unit) job_prog" where
  "check_wanted env jid jd w =
     (if has (jw_tracker w) jid then Some (w, Ok ())
      else bind_job (remove_machine env jd) (\<lambda>_ w. Some (w, Err [''job cancelled''])) w)"

definition bootstrap_agent :: "('a, 's, 'k, 'c, 'q) job_env \<Rightarrow> string \<Rightarrow> job_domain \<Rightarrow> ('a, ('k, 'c) job_certs) job_prog" where
  "bootstrap_agent env jid jd w = map_option (\<lambda>(a, r). (w\<lparr>jw_agent := a\<rparr>, r))
     (bootstrap_mtls (je_up_bootstrap env) (je_rcgen env) (je_key1 env) (je_key2 env)
        (je_who env) (je_csr env) (je_switch env) jid (jd_ip_addr jd) (jw_agent w))"

definition connect_agent :: "('a, 's, 'k, 'c, 'q) job_env \<Rightarrow> job_domain \<Rightarrow> ('k, 'c) job_certs \<Rightarrow> ('a, client_tls) job_prog" where
  "connect_agent env jd certs w = map_option (Pair w)
     (connect_mtls (je_rcgen env) (je_bad_url env) (je_bad_tls env) (je_up_mtls env) (je_hello env) (jd_ip_addr jd) certs)"

definition send_sample :: "('a, 's, 'k, 'c, 'q) job_env \<Rightarrow> string \<Rightarrow> ('a, unit) job_prog" where
  "send_sample env sample_name w = map_option (\<lambda>(a, r). (w\<lparr>jw_agent := a\<rparr>, r))
     (upload_sample_client (je_open_error env) (je_read env) (je_live env) (je_upload env) sample_name (je_sample env) (jw_agent w))"

definition await_analysis :: "('a, 's, 'k, 'c, 'q) job_env \<Rightarrow> job_domain \<Rightarrow> u32 \<Rightarrow> string \<Rightarrow> ('a, analysis_result) job_prog" where
  "await_analysis env jd timeout_secs sample_name w =
     (case context_msg ''analysis failed'' (run_analysis_client (je_analyze env (jw_agent w)) timeout_secs sample_name) of
        Ok r \<Rightarrow> Some (w, Ok r)
      | Err e \<Rightarrow> bind_job (remove_machine env jd) (\<lambda>_ w. Some (w, Err [analysis_error (anyhow_to_string e)])) w
      | Panic \<Rightarrow> Some (w, Panic))"

text \<open>\<open>run_job_inner\<close> from the created machine on, and from its beginning.\<close>

definition with_machine ::
    "('a, 's, 'k, 'c, 'q) job_env \<Rightarrow> string \<Rightarrow> string \<Rightarrow> u32 \<Rightarrow> job_domain \<Rightarrow> ('a, analysis_result) job_prog" where
  "with_machine env jid sample_name timeout_secs jd =
     bind_job (at_pc (je_others env) PCheck1 (check_wanted env jid jd)) (\<lambda>_.
     bind_job (at_pc (je_others env) PBootStatus (announce Bootstrapping jid)) (\<lambda>_.
     bind_job (at_pc (je_others env) PBoot (context_job ''mTLS bootstrap failed'' (bootstrap_agent env jid jd))) (\<lambda>certs.
     bind_job (at_pc (je_others env) PCheck2 (check_wanted env jid jd)) (\<lambda>_.
     bind_job (at_pc (je_others env) PUploadStatus (announce Uploading jid)) (\<lambda>_.
     bind_job (at_pc (je_others env) PConnect (context_job ''mTLS connect failed'' (connect_agent env jd certs))) (\<lambda>_.
     bind_job (at_pc (je_others env) PUpload (context_job ''sample upload failed'' (send_sample env sample_name))) (\<lambda>_.
     bind_job (at_pc (je_others env) PCheck3 (check_wanted env jid jd)) (\<lambda>_.
     bind_job (at_pc (je_others env) PAnalyzeStatus (announce Analyzing jid)) (\<lambda>_.
     bind_job (at_pc (je_others env) PAnalyze (await_analysis env jd timeout_secs sample_name)) (\<lambda>result.
     bind_job (at_pc (je_others env) (PTeardown result) (remove_machine env jd)) (\<lambda>_ w.
       Some (w, Ok result))))))))))))"

definition run_job_inner ::
    "('a, 's, 'k, 'c, 'q) job_env \<Rightarrow> string \<Rightarrow> string \<Rightarrow> u32 \<Rightarrow> ('a, analysis_result) job_prog" where
  "run_job_inner env jid sample_name timeout_secs =
     bind_job (at_pc (je_others env) PSpawnStatus (announce SpawningVm jid)) (\<lambda>_.
     bind_job (at_pc (je_others env) PCreateVm (context_job ''failed to create VM'' (create_machine env))) (\<lambda>jd.
     with_machine env jid sample_name timeout_secs jd))"

definition run_job :: "('a, 's, 'k, 'c, 'q) job_env \<Rightarrow> string \<Rightarrow> string \<Rightarrow> u32 \<Rightarrow> ('a, string option) job_prog" where
  "run_job env jid sample_name timeout_secs w =
     (case run_job_inner env jid sample_name timeout_secs w of
        None \<Rightarrow> None
      | Some (w1, Panic) \<Rightarrow> Some (w1, Panic)
      | Some (w1, Ok result) \<Rightarrow>
          at_pc (je_others env) (PSetResult result) (\<lambda>w.
            Some (w\<lparr>jw_tracker := set_result result (jw_tracker w) jid\<rparr>, Ok None)) w1
      | Some (w1, Err e) \<Rightarrow>
          (let msg = anyhow_to_string e
           in bind_job (at_pc (je_others env) (PFail msg) (announce Failed jid)) (\<lambda>_.
              at_pc (je_others env) (PEmit msg) (\<lambda>w.
                Some (w\<lparr>jw_tracker := emit_error msg (jw_tracker w) jid\<rparr>, Ok (Some msg)))) w1))"

section \<open>The task with its awaits filled in is one of \<open>Run_Job\<close>\<close>

text \<open>A run of \<open>job_step\<close> in which the others take their turn before each step.\<close>

fun drive :: "string \<Rightarrow> (pc \<Rightarrow> job_tracker \<Rightarrow> job_tracker) \<Rightarrow> ext list \<Rightarrow> pc \<times> job_tracker \<times> bool \<Rightarrow>
    pc \<times> job_tracker \<times> bool" where
  "drive jid others [] st = st"
| "drive jid others (x # xs) (p, t, vm) = drive jid others xs (job_step jid x p (others p t) vm)"

lemma drive_append: "drive jid others (xs @ ys) st = drive jid others ys (drive jid others xs st)"
proof (induction xs arbitrary: st)
  case (Cons x xs)
  then show ?case by (cases st) simp
qed simp

lemma drive_is_run: "\<exists>ys. drive jid others xs st = run_task jid ys st \<and> length ys = length xs"
proof (induction xs arbitrary: st)
  case (Cons x xs)
  obtain p t vm where st: "st = (p, t, vm)" by (cases st)
  from Cons.IH [of "job_step jid x p (others p t) vm"] obtain ys where
    "drive jid others xs (job_step jid x p (others p t) vm) = run_task jid ys (job_step jid x p (others p t) vm)"
    "length ys = length xs" by blast
  then show ?case by (intro exI [of _ "(x, others p) # ys"]) (simp add: st)
qed simp

text \<open>\<open>follows p vm m p' vm'\<close>: from the program point \<open>p\<close> the steps can do what the program \<open>m\<close> does, up to \<open>p' x\<close>
  when it returns \<open>x\<close> and to the failure with its message when it returns an error.\<close>

definition follows ::
    "string \<Rightarrow> (pc \<Rightarrow> job_tracker \<Rightarrow> job_tracker) \<Rightarrow> pc \<Rightarrow> bool \<Rightarrow> ('a, 'r) job_prog \<Rightarrow> ('r \<Rightarrow> pc) \<Rightarrow> bool \<Rightarrow> bool" where
  "follows jid others p vm m p' vm' \<longleftrightarrow> (\<forall>w w' r. m w = Some (w', r) \<longrightarrow>
     (\<forall>x. r = Ok x \<longrightarrow> (\<exists>xs. drive jid others xs (p, jw_tracker w, vm) = (p' x, jw_tracker w', vm'))) \<and>
     (\<forall>e. r = Err e \<longrightarrow> (\<exists>xs b. drive jid others xs (p, jw_tracker w, vm) =
        (PFail (anyhow_to_string e), jw_tracker w', b))))"

lemma follows_bind:
  assumes m: "follows jid others p vm m p1 vm1" and f: "\<And>x. follows jid others (p1 x) vm1 (f x) p2 vm2"
  shows "follows jid others p vm (bind_job m f) p2 vm2"
  unfolding follows_def
proof (intro allI impI)
  fix w w' r
  assume run: "bind_job m f w = Some (w', r)"
  then obtain w1 r1 where w1: "m w = Some (w1, r1)" by (auto simp: bind_job_def split: option.splits)
  show "(\<forall>x. r = Ok x \<longrightarrow> (\<exists>xs. drive jid others xs (p, jw_tracker w, vm) = (p2 x, jw_tracker w', vm2))) \<and>
     (\<forall>e. r = Err e \<longrightarrow> (\<exists>xs b. drive jid others xs (p, jw_tracker w, vm) =
        (PFail (anyhow_to_string e), jw_tracker w', b)))"
  proof (cases r1)
    case (Ok x)
    then have "f x w1 = Some (w', r)" using run w1 by (simp add: bind_job_def)
    moreover obtain xs where "drive jid others xs (p, jw_tracker w, vm) = (p1 x, jw_tracker w1, vm1)"
      using m w1 Ok unfolding follows_def by blast
    ultimately show ?thesis using f [of x] drive_append unfolding follows_def by metis
  next
    case (Err e)
    then have "w' = w1" "r = Err e" using run w1 by (simp_all add: bind_job_def)
    then show ?thesis using m w1 Err unfolding follows_def by blast
  next
    case Panic
    then show ?thesis using run w1 by (simp add: bind_job_def)
  qed
qed

text \<open>One step of the program is one step of the task; \<open>dummy\<close> stands for the value of an await, which the steps do
  not look at.\<close>

definition dummy :: analysis_result where
  "dummy = \<lparr>ar_exit_code = 0, ar_runtime_ms = 0, ar_features_json = []\<rparr>"

lemma follows_step:
  assumes "\<And>w w' x. m w = Some (w', Ok x) \<Longrightarrow> \<exists>y. job_step jid y p (jw_tracker w) vm = (p' x, jw_tracker w', vm')"
    and "\<And>w w' e. m w = Some (w', Err e) \<Longrightarrow>
      \<exists>y b. job_step jid y p (jw_tracker w) vm = (PFail (anyhow_to_string e), jw_tracker w', b)"
  shows "follows jid others p vm (at_pc others p m) p' vm'"
  unfolding follows_def
proof (intro allI impI conjI)
  fix w w' r x
  assume "at_pc others p m w = Some (w', r)" "r = Ok x"
  then obtain y where "job_step jid y p (others p (jw_tracker w)) vm = (p' x, jw_tracker w', vm')"
    using assms(1) [of "w\<lparr>jw_tracker := others p (jw_tracker w)\<rparr>" w' x] by (auto simp: at_pc_def)
  then show "\<exists>xs. drive jid others xs (p, jw_tracker w, vm) = (p' x, jw_tracker w', vm')"
    by (intro exI [of _ "[y]"]) simp
next
  fix w w' r e
  assume "at_pc others p m w = Some (w', r)" "r = Err e"
  then obtain y b where "job_step jid y p (others p (jw_tracker w)) vm = (PFail (anyhow_to_string e), jw_tracker w', b)"
    using assms(2) [of "w\<lparr>jw_tracker := others p (jw_tracker w)\<rparr>" w' e] by (auto simp: at_pc_def)
  then show "\<exists>xs b. drive jid others xs (p, jw_tracker w, vm) = (PFail (anyhow_to_string e), jw_tracker w', b)"
    by (intro exI [of _ "[y]"]) auto
qed

lemma context_msg_Ok [simp]: "context_msg c r = Ok x \<longleftrightarrow> r = Ok x"
  by (cases r) (simp_all add: context_msg_def)

lemma context_msg_Err [simp]: "context_msg c r = Err e \<longleftrightarrow> (\<exists>e'. r = Err e' \<and> e = c # e')"
  by (cases r) (auto simp: context_msg_def)

text \<open>An awaited operation: it leaves the table alone, and its outcome decides the step.\<close>

definition leaves_tracker :: "('a, 'r) job_prog \<Rightarrow> bool" where
  "leaves_tracker m \<longleftrightarrow> (\<forall>w w' r. m w = Some (w', r) \<longrightarrow> jw_tracker w' = jw_tracker w)"

lemma follows_await:
  assumes "leaves_tracker m" and "\<And>t. job_step jid (Good dummy) p t vm = (p', t, vm')"
    and "\<And>t e. \<exists>b. job_step jid (Bad e) p t vm = (PFail (anyhow_to_string (c # e)), t, b)"
  shows "follows jid others p vm (at_pc others p (context_job c m)) (\<lambda>_. p') vm'"
proof (rule follows_step)
  fix w w' x
  assume "context_job c m w = Some (w', Ok x)"
  then have "jw_tracker w' = jw_tracker w" using assms(1) by (auto simp: context_job_def leaves_tracker_def)
  then show "\<exists>y. job_step jid y p (jw_tracker w) vm = (p', jw_tracker w', vm')" using assms(2) by metis
next
  fix w w' e
  assume "context_job c m w = Some (w', Err e)"
  then obtain e' where "e = c # e'" "jw_tracker w' = jw_tracker w"
    using assms(1) by (auto simp: context_job_def leaves_tracker_def)
  then show "\<exists>y b. job_step jid y p (jw_tracker w) vm = (PFail (anyhow_to_string e), jw_tracker w', b)"
    using assms(3) by metis
qed

lemma awaits_leave_tracker:
  "leaves_tracker (create_machine env)" "leaves_tracker (bootstrap_agent env jid jd)"
  "leaves_tracker (connect_agent env jd certs)" "leaves_tracker (send_sample env name)"
  by (auto simp: leaves_tracker_def create_machine_def bootstrap_agent_def connect_agent_def send_sample_def)

lemma follows_announce:
  assumes "\<And>t y. job_step jid y p t vm = (p', set_status st t jid, vm)"
  shows "follows jid others p vm (at_pc others p (announce st jid)) (\<lambda>_. p') vm"
  by (rule follows_step) (auto simp: announce_def assms)

lemma follows_check:
  assumes "\<And>t y. job_step jid y p t True = check_step jid p' t True"
  shows "follows jid others p True (at_pc others p (check_wanted env jid jd)) (\<lambda>_. p') True"
  by (rule follows_step)
    (auto simp: check_wanted_def assms check_step_def bind_job_def remove_machine_def anyhow_to_string_def split: if_splits)

lemma follows_analysis:
  "follows jid others PAnalyze True (at_pc others PAnalyze (await_analysis env jd timeout name)) PTeardown True"
proof (rule follows_step)
  fix w w' x
  assume "await_analysis env jd timeout name w = Some (w', Ok x)"
  then show "\<exists>y. job_step jid y PAnalyze (jw_tracker w) True = (PTeardown x, jw_tracker w', True)"
    by (intro exI [of _ "Good x"]) (auto simp: await_analysis_def bind_job_def remove_machine_def split: res.splits)
next
  fix w w' e
  assume a: "await_analysis env jd timeout name w = Some (w', Err e)"
  then obtain e' where "e = [analysis_error (anyhow_to_string (''analysis failed'' # e'))]" "jw_tracker w' = jw_tracker w"
    by (cases "run_analysis_client (je_analyze env (jw_agent w)) timeout name")
      (auto simp: await_analysis_def bind_job_def remove_machine_def context_msg_def)
  then show "\<exists>y b. job_step jid y PAnalyze (jw_tracker w) True = (PFail (anyhow_to_string e), jw_tracker w', b)"
    by (intro exI [of _ "Bad e'"] exI [of _ False]) (simp add: anyhow_to_string_def)
qed

lemma follows_teardown:
  "follows jid others (PTeardown result) True (at_pc others (PTeardown result) (remove_machine env jd)) (\<lambda>_. PSetResult result) False"
  by (rule follows_step) (auto simp: remove_machine_def)

lemma follows_return: "follows jid others (PSetResult result) False (\<lambda>w. Some (w, Ok result)) PSetResult False"
  by (auto simp: follows_def intro: exI [of _ "[]"])

lemma follows_with_machine:
  "follows jid (je_others env) PCheck1 True (with_machine env jid name timeout jd) PSetResult False"
proof -
  have good: "job_step jid (Good dummy) PBoot t True = (PCheck2, t, True)"
      "job_step jid (Good dummy) PConnect t True = (PUpload, t, True)"
      "job_step jid (Good dummy) PUpload t True = (PCheck3, t, True)" for t
    by (simp_all add: after_await_def)
  have bad: "\<exists>b. job_step jid (Bad e) PBoot t True = (PFail (anyhow_to_string (''mTLS bootstrap failed'' # e)), t, b)"
      "\<exists>b. job_step jid (Bad e) PConnect t True = (PFail (anyhow_to_string (''mTLS connect failed'' # e)), t, b)"
      "\<exists>b. job_step jid (Bad e) PUpload t True = (PFail (anyhow_to_string (''sample upload failed'' # e)), t, b)" for t e
    by (auto simp: after_await_def)
  have check: "\<And>t y. job_step jid y PCheck1 t True = check_step jid PBootStatus t True"
      "\<And>t y. job_step jid y PCheck2 t True = check_step jid PUploadStatus t True"
      "\<And>t y. job_step jid y PCheck3 t True = check_step jid PAnalyzeStatus t True"
    by simp_all
  have ann: "\<And>t y. job_step jid y PBootStatus t True = (PBoot, set_status Bootstrapping t jid, True)"
      "\<And>t y. job_step jid y PUploadStatus t True = (PConnect, set_status Uploading t jid, True)"
      "\<And>t y. job_step jid y PAnalyzeStatus t True = (PAnalyze, set_status Analyzing t jid, True)"
    by simp_all
  note await = follows_await [OF awaits_leave_tracker(2) good(1) bad(1)] follows_await [OF awaits_leave_tracker(3) good(2) bad(2)]
    follows_await [OF awaits_leave_tracker(4) good(3) bad(3)]
  show ?thesis
    unfolding with_machine_def
    by (rule follows_bind [OF follows_check [OF check(1)]] follows_bind [OF follows_announce [OF ann(1)]]
        follows_bind [OF await(1)] follows_bind [OF follows_check [OF check(2)]]
        follows_bind [OF follows_announce [OF ann(2)]] follows_bind [OF await(2)] follows_bind [OF await(3)]
        follows_bind [OF follows_check [OF check(3)]] follows_bind [OF follows_announce [OF ann(3)]]
        follows_bind [OF follows_analysis] follows_bind [OF follows_teardown] follows_return)+
qed

lemma follows_inner:
  "follows jid (je_others env) PSpawnStatus False (run_job_inner env jid name timeout) PSetResult False"
proof -
  have good: "job_step jid (Good dummy) PCreateVm t False = (PCheck1, t, True)" for t by (simp add: after_await_def)
  have bad: "\<exists>b. job_step jid (Bad e) PCreateVm t False = (PFail (anyhow_to_string (''failed to create VM'' # e)), t, b)" for t e
    by (intro exI [of _ False]) (simp add: after_await_def)
  have ann: "\<And>t y. job_step jid y PSpawnStatus t False = (PCreateVm, set_status SpawningVm t jid, False)" by simp
  show ?thesis
    unfolding run_job_inner_def
    by (rule follows_bind [OF follows_announce [OF ann]] follows_bind [OF follows_await [OF awaits_leave_tracker(1) good bad]]
        follows_with_machine)+
qed

section \<open>Triples\<close>

text \<open>\<open>P\<close> before, \<open>Q x\<close> after returning \<open>x\<close>, \<open>E\<close> after an error; nothing is said of a panic and of an await that
  never ends.\<close>

definition triple :: "('a world \<Rightarrow> bool) \<Rightarrow> ('a, 'r) job_prog \<Rightarrow> ('r \<Rightarrow> 'a world \<Rightarrow> bool) \<Rightarrow> (anyhow \<Rightarrow> 'a world \<Rightarrow> bool) \<Rightarrow> bool" where
  "triple P m Q E \<longleftrightarrow> (\<forall>w w' r. P w \<longrightarrow> m w = Some (w', r) \<longrightarrow> (\<forall>x. r = Ok x \<longrightarrow> Q x w') \<and> (\<forall>e. r = Err e \<longrightarrow> E e w'))"

lemma tripleI:
  assumes "\<And>w w' x. P w \<Longrightarrow> m w = Some (w', Ok x) \<Longrightarrow> Q x w'" and "\<And>w w' e. P w \<Longrightarrow> m w = Some (w', Err e) \<Longrightarrow> E e w'"
  shows "triple P m Q E"
  unfolding triple_def using assms by blast

lemma triple_Ok: "triple P m Q E \<Longrightarrow> P w \<Longrightarrow> m w = Some (w', Ok x) \<Longrightarrow> Q x w'"
  unfolding triple_def by blast

lemma triple_Err: "triple P m Q E \<Longrightarrow> P w \<Longrightarrow> m w = Some (w', Err e) \<Longrightarrow> E e w'"
  unfolding triple_def by blast

lemma bind_job_cases:
  assumes "bind_job m f w = Some (w', r)"
  obtains (ok) x w1 where "m w = Some (w1, Ok x)" "f x w1 = Some (w', r)"
    | (err) e where "m w = Some (w', Err e)" "r = Err e"
    | (panic) "m w = Some (w', Panic)" "r = Panic"
  using assms by (auto simp: bind_job_def split: option.splits res.splits)

lemma triple_bind:
  assumes "triple P m Q E" and "\<And>x. triple (Q x) (f x) R E"
  shows "triple P (bind_job m f) R E"
proof (rule tripleI)
  fix w w' x
  assume "P w" "bind_job m f w = Some (w', Ok x)"
  from this(2) show "R x w'"
    by (cases rule: bind_job_cases) (use \<open>P w\<close> assms in \<open>auto dest: triple_Ok\<close>)
next
  fix w w' e
  assume "P w" "bind_job m f w = Some (w', Err e)"
  from this(2) show "E e w'"
    by (cases rule: bind_job_cases) (use \<open>P w\<close> assms in \<open>auto dest: triple_Ok triple_Err\<close>)
qed

text \<open>A predicate on the machine and the agent alone, which the other users of the table cannot change.\<close>

definition on_host :: "(host \<Rightarrow> 'a \<Rightarrow> bool) \<Rightarrow> 'a world \<Rightarrow> bool" where
  "on_host P w \<longleftrightarrow> P (jw_host w) (jw_agent w)"

lemma triple_at_pc:
  assumes "triple (on_host P) m Q E"
  shows "triple (on_host P) (at_pc others p m) Q E"
proof (rule tripleI)
  fix w w' x
  assume "on_host P w" "at_pc others p m w = Some (w', Ok x)"
  then show "Q x w'" using triple_Ok [OF assms, of "w\<lparr>jw_tracker := others p (jw_tracker w)\<rparr>"]
    by (simp add: at_pc_def on_host_def)
next
  fix w w' e
  assume "on_host P w" "at_pc others p m w = Some (w', Err e)"
  then show "E e w'" using triple_Err [OF assms, of "w\<lparr>jw_tracker := others p (jw_tracker w)\<rparr>"]
    by (simp add: at_pc_def on_host_def)
qed

lemma triple_announce: "triple (on_host P) (announce st jid) (\<lambda>_. on_host P) E"
  by (rule tripleI) (auto simp: announce_def on_host_def)

text \<open>A stage whose error keeps the stage's text in front.\<close>

lemma triple_context:
  assumes "triple P m Q (\<lambda>e w. E (c # e) w)"
  shows "triple P (context_job c m) Q E"
  using assms by (auto simp: triple_def context_job_def)

section \<open>What a job leaves on the host\<close>

text \<open>libvirt and the file system do what they are asked to do when the machine is removed, and the machine's name is new.\<close>

definition removable :: "('a, 's, 'k, 'c, 'q) job_env \<Rightarrow> host \<Rightarrow> bool" where
  "removable env h \<longleftrightarrow> je_destroy_ok env \<and> je_undefine_ok env \<and> (\<forall>p. \<not> ve_rm_fails (je_vm env) p) \<and>
     VM_NAME_PREFIX @ ve_uuid (je_vm env) \<notin> ho_defined h \<and> VM_NAME_PREFIX @ ve_uuid (je_vm env) \<notin> ho_running h"

text \<open>While the machine is up, after the job, and after an error.\<close>

definition machine_up :: "('a, 's, 'k, 'c, 'q) job_env \<Rightarrow> host \<Rightarrow> 'a world \<Rightarrow> bool" where
  "machine_up env h = on_host (\<lambda>h' _. h' = started_host (je_paths env) (je_vm env) h)"

definition machine_gone :: "host \<Rightarrow> 'a world \<Rightarrow> bool" where
  "machine_gone h = on_host (\<lambda>h' _. h' = h)"

definition after_error :: "('a, 's, 'k, 'c, 'q) job_env \<Rightarrow> host \<Rightarrow> anyhow \<Rightarrow> 'a world \<Rightarrow> bool" where
  "after_error env h e w \<longleftrightarrow> (let m = anyhow_to_string e in
     if leaks m then machine_up env h w else m \<noteq> ''failed to create VM'' \<longrightarrow> machine_gone h w)"

lemma triple_pure: "(C \<Longrightarrow> triple P m Q E) \<Longrightarrow> triple (\<lambda>w. C \<and> P w) m Q E"
  unfolding triple_def by blast

lemma triple_await_up:
  assumes "\<And>w w' r. m w = Some (w', r) \<Longrightarrow> jw_host w' = jw_host w" and "leaks c"
  shows "triple (machine_up env h) (at_pc others p (context_job c m)) (\<lambda>_. machine_up env h) (after_error env h)"
  unfolding machine_up_def
proof (rule triple_at_pc, rule triple_context, rule tripleI)
  fix w w' x
  assume "on_host (\<lambda>h' _. h' = started_host (je_paths env) (je_vm env) h) w" "m w = Some (w', Ok x)"
  then show "on_host (\<lambda>h' _. h' = started_host (je_paths env) (je_vm env) h) w'"
    using assms(1) [of w w'] by (simp add: on_host_def)
next
  fix w w' e
  assume "on_host (\<lambda>h' _. h' = started_host (je_paths env) (je_vm env) h) w" "m w = Some (w', Err e)"
  then show "after_error env h (c # e) w'"
    using assms(1) [of w w'] assms(2) by (simp add: on_host_def after_error_def machine_up_def anyhow_to_string_def)
qed

lemma awaits_leave_host:
  "bootstrap_agent env jid jd w = Some (w', r1) \<Longrightarrow> jw_host w' = jw_host w"
  "connect_agent env jd certs w = Some (w', r2) \<Longrightarrow> jw_host w' = jw_host w"
  "send_sample env name w = Some (w', r3) \<Longrightarrow> jw_host w' = jw_host w"
  by (auto simp: bootstrap_agent_def connect_agent_def send_sample_def)

lemma triple_stages:
  "triple (machine_up env h) (at_pc others p (context_job ''mTLS bootstrap failed'' (bootstrap_agent env jid jd)))
     (\<lambda>_. machine_up env h) (after_error env h)"
  "triple (machine_up env h) (at_pc others p (context_job ''mTLS connect failed'' (connect_agent env jd certs)))
     (\<lambda>_. machine_up env h) (after_error env h)"
  "triple (machine_up env h) (at_pc others p (context_job ''sample upload failed'' (send_sample env name)))
     (\<lambda>_. machine_up env h) (after_error env h)"
  subgoal by (rule triple_await_up) (erule awaits_leave_host, simp add: leaks_def)
  subgoal by (rule triple_await_up) (erule awaits_leave_host, simp add: leaks_def)
  subgoal by (rule triple_await_up) (erule awaits_leave_host, simp add: leaks_def)
  done

lemma triple_announce_up:
  "triple (machine_up env h) (at_pc others p (announce st jid)) (\<lambda>_. machine_up env h) E"
  unfolding machine_up_def by (rule triple_at_pc, rule triple_announce)

lemma not_leaks [simp]: "\<not> leaks ''job cancelled''" "\<not> leaks (analysis_error m)"
  by (simp_all add: leaks_def analysis_error_def)

lemma not_create [simp]: "analysis_error m \<noteq> ''failed to create VM''"
  by (simp add: analysis_error_def)

lemma removed_machine:
  assumes "removable env h" and "create_job_domain (je_paths env) (je_vm env) h = Some (h1, Ok jd)"
  shows "triple (machine_up env h) (remove_machine env jd) (\<lambda>_. machine_gone h) E"
proof -
  have "teardown (je_vm env) True True jd h1 = h"
    using created_torn_down [OF assms(2)] assms(1) by (simp add: removable_def)
  then show ?thesis
    using created_host [OF assms(2)] assms(1)
    by (intro tripleI) (auto simp: machine_up_def machine_gone_def on_host_def remove_machine_def removable_def)
qed

lemma triple_check:
  assumes "removable env h" and "create_job_domain (je_paths env) (je_vm env) h = Some (h1, Ok jd)"
  shows "triple (machine_up env h) (at_pc others p (check_wanted env jid jd)) (\<lambda>_. machine_up env h) (after_error env h)"
  unfolding machine_up_def
proof (rule triple_at_pc, fold machine_up_def, rule tripleI)
  fix w w' x
  assume "machine_up env h w" "check_wanted env jid jd w = Some (w', Ok x)"
  then show "machine_up env h w'" by (auto simp: check_wanted_def bind_job_def remove_machine_def split: if_splits)
next
  fix w w' e
  assume w: "machine_up env h w" and "check_wanted env jid jd w = Some (w', Err e)"
  then have "e = [''job cancelled'']" "remove_machine env jd w = Some (w', Ok ())"
    by (auto simp: check_wanted_def bind_job_def remove_machine_def split: if_splits)
  then show "after_error env h e w'"
    using triple_Ok [OF removed_machine [OF assms] w] by (simp add: after_error_def anyhow_to_string_def)
qed

lemma triple_analysis:
  assumes "removable env h" and "create_job_domain (je_paths env) (je_vm env) h = Some (h1, Ok jd)"
  shows "triple (machine_up env h) (at_pc others p (await_analysis env jd timeout name)) (\<lambda>_. machine_up env h) (after_error env h)"
  unfolding machine_up_def
proof (rule triple_at_pc, fold machine_up_def, rule tripleI)
  fix w w' x
  assume "machine_up env h w" "await_analysis env jd timeout name w = Some (w', Ok x)"
  then show "machine_up env h w'" by (auto simp: await_analysis_def bind_job_def remove_machine_def split: res.splits)
next
  fix w w' e
  assume w: "machine_up env h w" and "await_analysis env jd timeout name w = Some (w', Err e)"
  then obtain m where "e = [analysis_error m]" "remove_machine env jd w = Some (w', Ok ())"
    by (auto simp: await_analysis_def bind_job_def remove_machine_def split: res.splits)
  then show "after_error env h e w'"
    using triple_Ok [OF removed_machine [OF assms] w] by (simp add: after_error_def anyhow_to_string_def)
qed

lemma triple_teardown:
  assumes "removable env h" and "create_job_domain (je_paths env) (je_vm env) h = Some (h1, Ok jd)"
  shows "triple (machine_up env h) (at_pc others p (remove_machine env jd)) (\<lambda>_. machine_gone h) E"
  unfolding machine_up_def
  by (rule triple_at_pc, fold machine_up_def, rule removed_machine [OF assms])

lemma triple_done: "triple P (\<lambda>w. Some (w, Ok r)) (\<lambda>_. P) E"
  by (rule tripleI) simp_all

lemma inner_host:
  assumes "removable env h"
  shows "triple (machine_gone h) (run_job_inner env jid name timeout) (\<lambda>_. machine_gone h) (after_error env h)"
proof -
  let ?C = "\<lambda>jd. \<exists>h1. create_job_domain (je_paths env) (je_vm env) h = Some (h1, Ok jd)"
  have rest: "triple (\<lambda>w. ?C jd \<and> machine_up env h w) (with_machine env jid name timeout jd) (\<lambda>_. machine_gone h) (after_error env h)" for jd
  proof (rule triple_pure, elim exE)
    fix h1
    assume c: "create_job_domain (je_paths env) (je_vm env) h = Some (h1, Ok jd)"
    note steps = triple_check [OF assms c] triple_announce_up triple_analysis [OF assms c] triple_teardown [OF assms c]
      triple_stages
    show "triple (machine_up env h) (with_machine env jid name timeout jd) (\<lambda>_. machine_gone h) (after_error env h)"
      unfolding with_machine_def by (rule triple_done triple_bind steps)+
  qed
  have create: "triple (machine_gone h) (at_pc others p (context_job ''failed to create VM'' (create_machine env)))
      (\<lambda>jd w. ?C jd \<and> machine_up env h w) (after_error env h)" for others p
    unfolding machine_gone_def
  proof (rule triple_at_pc, rule triple_context, rule tripleI)
    fix w w' jd
    assume "on_host (\<lambda>h' _. h' = h) w" "create_machine env w = Some (w', Ok jd)"
    then have "create_job_domain (je_paths env) (je_vm env) h = Some (jw_host w', Ok jd)"
      by (auto simp: on_host_def create_machine_def)
    then show "?C jd \<and> machine_up env h w'" using created_host by (auto simp: machine_up_def on_host_def)
  qed (simp add: after_error_def anyhow_to_string_def leaks_def)
  have ann: "triple (machine_gone h) (at_pc others p (announce st jid)) (\<lambda>_. machine_gone h) E" for others p st E
    unfolding machine_gone_def by (rule triple_at_pc, rule triple_announce)
  show ?thesis unfolding run_job_inner_def by (rule triple_bind ann create rest)+
qed

section \<open>Properties\<close>

lemma run_job_cases:
  assumes "run_job env jid name timeout w = Some (w', Ok out)"
  obtains (result) w1 r where "run_job_inner env jid name timeout w = Some (w1, Ok r)" "out = None"
      "w' = w1\<lparr>jw_tracker := set_result r (je_others env (PSetResult r) (jw_tracker w1)) jid\<rparr>"
    | (failed) w1 e m where "run_job_inner env jid name timeout w = Some (w1, Err e)" "m = anyhow_to_string e" "out = Some m"
      "w' = w1\<lparr>jw_tracker := emit_error m (je_others env (PEmit m)
         (set_status Failed (je_others env (PFail m) (jw_tracker w1)) jid)) jid\<rparr>"
  using assms by (auto simp: run_job_def at_pc_def announce_def bind_job_def Let_def split: option.splits res.splits)

text \<open>C7: The task of a job with everything it awaits put in refines the task of \<open>Run_Job\<close>: whatever the machine, the
  agent and the network do, and whatever the others do to the table of jobs before each step, a run of it
  that returns is a run of the steps of the task, with the same final table and the same outcome; so what
  is proved of all interleavings of those steps holds for it.\<close>

theorem run_job_refines:
  assumes "run_job env jid name timeout w = Some (w', Ok out)"
  shows "\<exists>xs vm. drive jid (je_others env) xs (PSpawnStatus, jw_tracker w, False) = (PDone out, jw_tracker w', vm)"
  using assms
proof (cases rule: run_job_cases)
  case (result w1 r)
  then obtain xs where xs: "drive jid (je_others env) xs (PSpawnStatus, jw_tracker w, False) = (PSetResult r, jw_tracker w1, False)"
    using follows_inner [of jid env name timeout] unfolding follows_def by blast
  have "drive jid (je_others env) (xs @ [Good dummy]) (PSpawnStatus, jw_tracker w, False) = (PDone None, jw_tracker w', False)"
    using result by (simp add: drive_append xs)
  then show ?thesis using result(2) by blast
next
  case (failed w1 e m)
  then obtain xs vm where xs: "drive jid (je_others env) xs (PSpawnStatus, jw_tracker w, False) = (PFail m, jw_tracker w1, vm)"
    using follows_inner [of jid env name timeout] unfolding follows_def by blast
  have "drive jid (je_others env) (xs @ [Good dummy, Good dummy]) (PSpawnStatus, jw_tracker w, False) = (PDone (Some m), jw_tracker w', vm)"
    using failed by (simp add: drive_append xs)
  then show ?thesis using failed(3) by blast
qed

text \<open>A job whose machine starts and whose agent answers the first call with an error.\<close>

definition example_job :: "(unit, unit, unit, unit, unit) job_env" where
  "example_job = \<lparr>je_others = (\<lambda>_ t. t), je_paths = example_cfg,
     je_vm = example_env None [Some ''x'', Some ''default''], je_destroy_ok = True, je_undefine_ok = True,
     je_up_bootstrap = (\<lambda>k. k = 0), je_rcgen = null_rcgen, je_key1 = Ok (), je_key2 = Ok (),
     je_who = (\<lambda>a. (a, Err (Status Internal ''no address''))), je_csr = (\<lambda>_ a. (a, Panic)), je_switch = (\<lambda>_ a. (a, Panic)),
     je_bad_url = (\<lambda>_. None), je_bad_tls = (\<lambda>_. None), je_up_mtls = (\<lambda>_. True), je_hello = hello_svc,
     je_open_error = None, je_read = (\<lambda>s _. (Ok [], s)), je_sample = (), je_live = (\<lambda>_. True),
     je_upload = (\<lambda>_ a. (a, Panic)), je_analyze = (\<lambda>_ _. Panic)\<rparr>"

definition example_world :: "'a \<Rightarrow> 'a world" where
  "example_world a = \<lparr>jw_tracker = fst (submit new_tracker ''j'' ''/s/a'' ''a.exe'' 300 9), jw_host = example_host, jw_agent = a\<rparr>"

lemma has_set_status [simp]: "has (set_status st t jid) jid = has t jid"
  by (simp add: has_def set_status_def tx_send_def Let_def split: option.splits)

lemma has_submitted [simp]: "has (fst (submit t jid path name timeout now)) jid"
  by (simp add: has_def submit_def Let_def)

lemma example_job_runs:
  "\<exists>w'. run_job example_job ''j'' ''a.exe'' 300 (example_world ()) = Some (w', Ok (Some ''mTLS bootstrap failed''))"
  by (simp add: run_job_def run_job_inner_def with_machine_def bind_job_def at_pc_def announce_def context_job_def
      create_machine_def check_wanted_def bootstrap_agent_def example_job_def example_world_def example_created
      context_msg_def bootstrap_mtls_def connect_loop.simps exchange_def bind_st_def call_def over_wire_def
      anyhow_to_string_def Let_def)

theorem run_job_refines_witness:
  "\<exists>w' xs vm. drive ''j'' (je_others example_job) xs (PSpawnStatus, fst (submit new_tracker ''j'' ''/s/a'' ''a.exe'' 300 9), False) =
     (PDone (Some ''mTLS bootstrap failed''), jw_tracker (w' :: unit world), vm)"
proof -
  obtain w' where "run_job example_job ''j'' ''a.exe'' 300 (example_world ()) = Some (w', Ok (Some ''mTLS bootstrap failed''))"
    using example_job_runs by blast
  from run_job_refines [OF this] show ?thesis by (auto simp: example_world_def)
qed



end
