(* ===== verification/Monitor.thy ===== *)
theory Monitor
  imports Agent_Service
begin

text \<open>
  \<open>crates/malbox-agent/src/monitor.rs\<close>: the files of the monitor (two libraries and two loaders that
  are compiled into the agent), the names it is given, and its clean-up. The files of the guest are
  those of \<open>Agent_Service\<close>; directories are not kept. A random string of the code is a stream of
  characters \<open>nat \<Rightarrow> char\<close>, of which the code takes as many as it asks for.
\<close>

section \<open>Files\<close>

datatype write_out = Written | NotCreated string | Cut string nat

record mon_env =
  me_mkdir :: "string \<Rightarrow> string option"
  me_write :: "nat \<Rightarrow> write_out"                  \<comment> \<open>the \<open>k\<close>-th file; \<open>Cut\<close>: that many bytes were written\<close>
  me_remove :: "string \<Rightarrow> bool"
  me_remove_under :: "string \<Rightarrow> string \<Rightarrow> bool"   \<comment> \<open>directory and file\<close>

definition fs_write :: "mon_env \<Rightarrow> nat \<Rightarrow> string \<Rightarrow> u8 list \<Rightarrow> files \<Rightarrow> files \<times> (string, unit) res" where
  "fs_write env k path data fs = (case me_write env k of
       Written \<Rightarrow> (fs(path \<mapsto> data), Ok ())
     | NotCreated e \<Rightarrow> (fs, Err e)
     | Cut e n \<Rightarrow> (fs(path \<mapsto> take n data), Err e))"

definition fs_remove :: "mon_env \<Rightarrow> string \<Rightarrow> files \<Rightarrow> files" where
  "fs_remove env path fs = (if me_remove env path then fs(path := None) else fs)"

text \<open>A file is below a directory when the path the system resolves it to extends the directory's.\<close>

definition below_dir :: "string \<Rightarrow> string \<Rightarrow> bool" where
  "below_dir d p \<longleftrightarrow>
     length (win_resolve d) < length (win_resolve p) \<and>
     take (length (win_resolve d)) (win_resolve p) = win_resolve d"

definition fs_remove_dir_all :: "mon_env \<Rightarrow> string \<Rightarrow> files \<Rightarrow> files" where
  "fs_remove_dir_all env d fs = (\<lambda>p. if below_dir d p \<and> me_remove_under env d p then None else fs p)"

text \<open>The \<open>?\<close> operator over operations on files: an error returns at once, and the files stay.\<close>

definition then_files :: "files \<times> (string, 'a) res \<Rightarrow> (files \<Rightarrow> files \<times> (string, 'b) res) \<Rightarrow>
    files \<times> (string, 'b) res" where
  "then_files m f = (case m of (fs, r) \<Rightarrow>
     (case r of Ok _ \<Rightarrow> f fs | Err e \<Rightarrow> (fs, Err e) | Panic \<Rightarrow> (fs, Panic)))"

section \<open>Names\<close>

definition random_string :: "nat \<Rightarrow> (nat \<Rightarrow> char) \<Rightarrow> string" where
  "random_string len rng = map rng [0..<len]"

definition random_name :: "nat \<Rightarrow> string \<Rightarrow> (nat \<Rightarrow> char) \<Rightarrow> string" where
  "random_name len ext rng = map to_lower (map rng [0..<len]) @ ''.'' @ ext"

section \<open>The binaries\<close>

record monitor_assets =
  as_capemon32 :: "u8 list"
  as_capemon64 :: "u8 list"
  as_loader32 :: "u8 list"
  as_loader64 :: "u8 list"

record monitor_binaries =
  mb_capemon32 :: string
  mb_capemon64 :: string
  mb_loader32 :: string
  mb_loader64 :: string
  mb_work_dir :: string
  mb_dll_dir :: string
  mb_results_dir :: string

text \<open>The paths that \<open>setup\<close> chooses: \<open>rnd k\<close> is the stream of the \<open>k\<close>-th random name.\<close>

definition setup_paths :: "(nat \<Rightarrow> nat \<Rightarrow> char) \<Rightarrow> string \<Rightarrow> monitor_binaries" where
  "setup_paths rnd work_dir =
     (let dll_dir = win_join work_dir ''dll''
      in \<lparr>mb_capemon32 = win_join dll_dir (random_name 8 ''dll'' (rnd 0)),
          mb_capemon64 = win_join dll_dir (random_name 8 ''dll'' (rnd 1)),
          mb_loader32 = win_join work_dir (random_name 8 ''exe'' (rnd 2)),
          mb_loader64 = win_join work_dir (random_name 8 ''exe'' (rnd 3)),
          mb_work_dir = work_dir, mb_dll_dir = dll_dir,
          mb_results_dir = win_join work_dir ''results''\<rparr>)"

definition setup_binaries ::
    "mon_env \<Rightarrow> monitor_assets \<Rightarrow> (nat \<Rightarrow> nat \<Rightarrow> char) \<Rightarrow> string \<Rightarrow> files \<Rightarrow>
       files \<times> (string, monitor_binaries) res" where
  "setup_binaries env assets rnd work_dir fs =
     (let b = setup_paths rnd work_dir
      in case me_mkdir env (mb_dll_dir b) of
           Some e \<Rightarrow> (fs, Err e)
         | None \<Rightarrow>
             (case me_mkdir env (mb_results_dir b) of
                Some e \<Rightarrow> (fs, Err e)
              | None \<Rightarrow>
                  then_files (fs_write env 0 (mb_capemon32 b) (as_capemon32 assets) fs) (\<lambda>fs1.
                  then_files (fs_write env 1 (mb_capemon64 b) (as_capemon64 assets) fs1) (\<lambda>fs2.
                  then_files (fs_write env 2 (mb_loader32 b) (as_loader32 assets) fs2) (\<lambda>fs3.
                  then_files (fs_write env 3 (mb_loader64 b) (as_loader64 assets) fs3) (\<lambda>fs4.
                  (fs4, Ok b)))))))"

definition cleanup_binaries :: "mon_env \<Rightarrow> monitor_binaries \<Rightarrow> files \<Rightarrow> files" where
  "cleanup_binaries env b fs =
     (let fs1 = fs_remove env (mb_capemon32 b) fs;
          fs2 = fs_remove env (mb_capemon64 b) fs1;
          fs3 = fs_remove env (mb_loader32 b) fs2;
          fs4 = fs_remove env (mb_loader64 b) fs3;
          fs5 = fs_remove_dir_all env (mb_dll_dir b) fs4
      in fs_remove_dir_all env (mb_results_dir b) fs5)"

section \<open>The state\<close>

record monitor_state =
  ms_binaries :: monitor_binaries
  ms_shutdown_mutex :: string
  ms_terminate_event_prefix :: string
  ms_command_pipe :: string
  ms_log_pipe_prefix :: string

definition pipe_dir :: string where
  "pipe_dir = [bslash, bslash] @ ''.'' @ [bslash] @ ''PIPE'' @ [bslash]"

definition global_ns :: string where "global_ns = ''Global'' @ [bslash]"

definition monitor_init ::
    "mon_env \<Rightarrow> monitor_assets \<Rightarrow> (nat \<Rightarrow> nat \<Rightarrow> char) \<Rightarrow> string \<Rightarrow> files \<Rightarrow>
       files \<times> (string, monitor_state) res" where
  "monitor_init env assets rnd work_dir fs =
     (case setup_binaries env assets rnd work_dir fs of (fs', r) \<Rightarrow>
       (fs', bind_res r (\<lambda>binaries. Ok
          \<lparr>ms_binaries = binaries,
           ms_shutdown_mutex = global_ns @ random_string 10 (rnd 4),
           ms_terminate_event_prefix = global_ns @ random_string 10 (rnd 5),
           ms_command_pipe = pipe_dir @ random_string 7 (rnd 6),
           ms_log_pipe_prefix = pipe_dir @ random_string 9 (rnd 7)\<rparr>)))"

definition monitor_cleanup :: "mon_env \<Rightarrow> monitor_state \<Rightarrow> files \<Rightarrow> files" where
  "monitor_cleanup env st fs = cleanup_binaries env (ms_binaries st) fs"

section \<open>The configuration of the monitor\<close>

text \<open>A text reaches a file as UTF-8; characters are Latin-1.\<close>

definition utf8_char :: "char \<Rightarrow> u8 list" where
  "utf8_char c = (let n = of_char c :: nat
     in if n < 128 then [word_of_nat n] else [word_of_nat (192 + n div 64), word_of_nat (128 + n mod 64)])"

definition utf8 :: "string \<Rightarrow> u8 list" where "utf8 s = concat (map utf8_char s)"

definition config_line :: "string \<Rightarrow> string \<Rightarrow> string" where
  "config_line key val = key @ ''='' @ val @ [CHR 0x0A]"

definition ini_path :: "string \<Rightarrow> u32 \<Rightarrow> string" where
  "ini_path dll_dir pid = win_join dll_dir (show_dec (unat pid) @ ''.ini'')"

definition monitor_config :: "monitor_state \<Rightarrow> u32 \<Rightarrow> string \<Rightarrow> bool \<Rightarrow> u64 \<Rightarrow> string" where
  "monitor_config st pid sample_path is_first_process startup_time =
     concat [config_line ''host-ip'' ''127.0.0.1'', config_line ''host-port'' ''8000'',
       config_line ''pipe'' (ms_command_pipe st),
       config_line ''logserver'' (ms_log_pipe_prefix st @ show_dec (unat pid)),
       config_line ''results'' (mb_results_dir (ms_binaries st)),
       config_line ''analyzer'' (mb_work_dir (ms_binaries st)),
       config_line ''first-process'' (if is_first_process then ''1'' else ''0''),
       config_line ''startup-time'' (show_dec (unat startup_time)),
       config_line ''file-of-interest'' sample_path,
       config_line ''shutdown-mutex'' (ms_shutdown_mutex st),
       config_line ''terminate-event'' (ms_terminate_event_prefix st @ show_dec (unat pid))]"

definition write_config ::
    "mon_env \<Rightarrow> monitor_state \<Rightarrow> u32 \<Rightarrow> string \<Rightarrow> bool \<Rightarrow> u64 \<Rightarrow> files \<Rightarrow> files \<times> (string, unit) res" where
  "write_config env st pid sample_path is_first_process startup_time fs =
     fs_write env 4 (ini_path (mb_dll_dir (ms_binaries st)) pid)
       (utf8 (monitor_config st pid sample_path is_first_process startup_time)) fs"

section \<open>Where the files are\<close>

lemma alnum_plain: "is_alnum c \<Longrightarrow> \<not> win_sep (to_lower c) \<and> to_lower c \<noteq> CHR '':''"
  by (auto simp: is_alnum_def to_lower_def win_sep_def Let_def char_of_eq_iff take_bit_eq_mod)

lemma relative_name:
  assumes "\<not> win_sep c" and "d \<noteq> CHR '':''"
  shows "parse_prefix (c # d # r) = None" "\<not> starts_sep (c # d # r)"
  using assms by (auto simp: parse_prefix_def norm8_def begins_def parse_drive_def starts_sep_def win_sep_def)

lemma random_name_plain:
  assumes "\<And>i. is_alnum (g i)" and "\<forall>c \<in> set ext. \<not> win_sep c"
  shows "parse_prefix (random_name 8 ext g) = None" "\<not> starts_sep (random_name 8 ext g)"
    "body_components False win_sep (random_name 8 ext g) = [Normal (random_name 8 ext g)]"
proof -
  have cons: "random_name 8 ext g = to_lower (g 0) # to_lower (g 1) #
      (map to_lower (map g [2..<8]) @ ''.'' @ ext)"
    by (simp add: random_name_def upt_rec numeral_2_eq_2)
  show "parse_prefix (random_name 8 ext g) = None" "\<not> starts_sep (random_name 8 ext g)"
    using relative_name [OF conjunct1 conjunct2, OF alnum_plain alnum_plain, OF assms(1) assms(1)]
    unfolding cons by blast+
  have dot: "\<not> win_sep (CHR ''.'')" by (simp add: win_sep_def)
  have "\<forall>c \<in> set (random_name 8 ext g). \<not> win_sep c"
    using alnum_plain [OF assms(1)] assms(2) dot by (auto simp: random_name_def)
  moreover have "random_name 8 ext g \<notin> {[], ''.'', ''..''}" by (simp add: random_name_def upt_rec)
  ultimately show "body_components False win_sep (random_name 8 ext g) = [Normal (random_name 8 ext g)]"
    by (simp add: body_single seg_component_def)
qed

lemma join_after:
  assumes "last a \<noteq> bslash" and "last a \<noteq> CHR ''/''" and "2 < length a"
    and "parse_prefix f = None" and "\<not> starts_sep f"
  shows "win_join a f = a @ bslash # f"
proof -
  from assms(3) have "a \<noteq> []" "length a \<noteq> 2" by auto
  with assms show ?thesis by (simp add: win_join_def win_sep_def)
qed

lemma dll_dir: "win_join upload_dir ''dll'' = upload_dir @ bslash # ''dll''"
  and results_dir: "win_join upload_dir ''results'' = upload_dir @ bslash # ''results''"
  by (simp_all add: upload_join parse_prefix_def norm8_def begins_def parse_drive_def starts_sep_def win_sep_def)

lemma in_dll_dir:
  assumes "parse_prefix f = None" and "\<not> starts_sep f"
  shows "win_join (win_join upload_dir ''dll'') f = upload_dir @ bslash # ''dll'' @ bslash # f"
  unfolding dll_dir by (subst join_after) (simp_all add: assms)

lemma resolve_sub:
  "win_resolve (upload_dir @ bslash # ''dll'') = win_components upload_dir @ [Normal ''dll'']"
  "win_resolve (upload_dir @ bslash # ''results'') = win_components upload_dir @ [Normal ''results'']"
  by (simp_all add: resolve_upload resolve_step_def body_single seg_component_def win_sep_def)

lemma resolve_in_dll:
  assumes "body_components False win_sep f = [Normal f]"
  shows "win_resolve (upload_dir @ bslash # ''dll'' @ bslash # f) =
     win_components upload_dir @ [Normal ''dll'', Normal f]"
proof -
  have "body_components False win_sep (''dll'' @ bslash # f) = [Normal ''dll'', Normal f]"
    using body_append [of win_sep bslash False "''dll''" f] assms
    by (simp add: body_single seg_component_def win_sep_def)
  then show ?thesis by (simp add: resolve_upload resolve_step_def)
qed

lemma below_dll:
  assumes "body_components False win_sep f = [Normal f]"
  shows "below_dir (upload_dir @ bslash # ''dll'') (upload_dir @ bslash # ''dll'' @ bslash # f)"
  using resolve_in_dll [OF assms] by (simp add: below_dir_def resolve_sub)

lemma capemon_below:
  assumes "\<And>k i. is_alnum (rnd k i)"
  shows "below_dir (win_join upload_dir ''dll'') (mb_capemon32 (setup_paths rnd upload_dir))"
    "below_dir (win_join upload_dir ''dll'') (mb_capemon64 (setup_paths rnd upload_dir))"
proof -
  have "\<forall>c \<in> set ''dll''. \<not> win_sep c" by (simp add: win_sep_def)
  note plain = random_name_plain [OF assms this]
  show "below_dir (win_join upload_dir ''dll'') (mb_capemon32 (setup_paths rnd upload_dir))"
    "below_dir (win_join upload_dir ''dll'') (mb_capemon64 (setup_paths rnd upload_dir))"
    unfolding setup_paths_def Let_def monitor_binaries.simps in_dll_dir [OF plain(1,2)]
    unfolding dll_dir by (rule below_dll [OF plain(3)])+
qed

section \<open>Setting up and cleaning up\<close>

lemma setup_ok:
  assumes "setup_binaries env assets rnd w fs = (fs1, Ok b)"
  shows "b = setup_paths rnd w" and
    "fs1 = fs(mb_capemon32 b \<mapsto> as_capemon32 assets, mb_capemon64 b \<mapsto> as_capemon64 assets,
       mb_loader32 b \<mapsto> as_loader32 assets, mb_loader64 b \<mapsto> as_loader64 assets)"
  using assms by (auto simp: setup_binaries_def Let_def then_files_def fs_write_def
      split: option.splits write_out.splits)

lemma init_ok:
  assumes "monitor_init env assets rnd w fs = (fs1, Ok st)"
  shows "setup_binaries env assets rnd w fs = (fs1, Ok (ms_binaries st))"
    "ms_log_pipe_prefix st = pipe_dir @ random_string 9 (rnd 7)"
    "ms_command_pipe st = pipe_dir @ random_string 7 (rnd 6)"
    "ms_terminate_event_prefix st = global_ns @ random_string 10 (rnd 5)"
    "ms_shutdown_mutex st = global_ns @ random_string 10 (rnd 4)"
  using assms by (auto simp: monitor_init_def bind_res_Ok_iff split: prod.splits)

text \<open>Cleaning up the monitor undoes setting it up: when the two loader names are new and the \<open>dll\<close> and
  \<open>results\<close> directories of the sample directory held no files, then after the clean-up every file of the
  guest is as it was, whatever the monitor put into the two directories in between, provided that nothing
  else changed and that no removal fails. The set-up itself changes no existing file.\<close>

lemma monitor_undone:
  assumes "monitor_init env assets rnd upload_dir fs = (fs1, Ok st)" and "\<And>k i. is_alnum (rnd k i)"
    and "\<And>p. below_dir (win_join upload_dir ''dll'') p \<or> below_dir (win_join upload_dir ''results'') p \<Longrightarrow>
           fs p = None"
    and "fs (mb_loader32 (ms_binaries st)) = None" and "fs (mb_loader64 (ms_binaries st)) = None"
    and "\<And>p. \<not> below_dir (win_join upload_dir ''dll'') p \<and> \<not> below_dir (win_join upload_dir ''results'') p \<Longrightarrow>
           fs2 p = fs1 p"
    and "\<And>p. me_remove cenv p" and "\<And>d p. me_remove_under cenv d p"
  shows "monitor_cleanup cenv st fs2 = fs \<and> fs \<subseteq>\<^sub>m fs1"
proof -
  let ?b = "ms_binaries st"
  have b: "?b = setup_paths rnd upload_dir" and fs1:
    "fs1 = fs(mb_capemon32 ?b \<mapsto> as_capemon32 assets, mb_capemon64 ?b \<mapsto> as_capemon64 assets,
       mb_loader32 ?b \<mapsto> as_loader32 assets, mb_loader64 ?b \<mapsto> as_loader64 assets)"
    using setup_ok [OF init_ok(1) [OF assms(1)]] by auto
  have dirs: "mb_dll_dir ?b = win_join upload_dir ''dll''" "mb_results_dir ?b = win_join upload_dir ''results''"
    by (simp_all add: b setup_paths_def Let_def)
  note low = capemon_below [where rnd = rnd, OF assms(2), folded b]
  have none: "fs (mb_capemon32 ?b) = None" "fs (mb_capemon64 ?b) = None"
    using low assms(3) by blast+
  have "fs \<subseteq>\<^sub>m fs1"
    using none assms(4,5) by (auto simp: fs1 map_le_def dom_def)
  moreover have "monitor_cleanup cenv st fs2 p = fs p" for p
  proof (cases "below_dir (win_join upload_dir ''dll'') p \<or> below_dir (win_join upload_dir ''results'') p")
    case True
    then show ?thesis using assms(3,7,8)
      by (auto simp: monitor_cleanup_def cleanup_binaries_def Let_def fs_remove_dir_all_def dirs)
  next
    case False
    then have "p \<noteq> mb_capemon32 ?b" "p \<noteq> mb_capemon64 ?b" using low by auto
    with False show ?thesis using assms(4-8)
      by (simp add: monitor_cleanup_def cleanup_binaries_def Let_def fs_remove_dir_all_def dirs
          fs_remove_def fs1)
  qed
  ultimately show ?thesis by blast
qed

definition good_mon :: mon_env where
  "good_mon = \<lparr>me_mkdir = (\<lambda>_. None), me_write = (\<lambda>_. Written), me_remove = (\<lambda>_. True),
     me_remove_under = (\<lambda>_ _. True)\<rparr>"

definition example_assets :: monitor_assets where
  "example_assets = \<lparr>as_capemon32 = [77, 90, 1], as_capemon64 = [77, 90, 2], as_loader32 = [77, 90, 3],
     as_loader64 = [77, 90, 4]\<rparr>"

definition example_rnd :: "nat \<Rightarrow> nat \<Rightarrow> char" where
  "example_rnd k i = (if k mod 2 = 0 then CHR ''a'' else CHR ''B'')"

definition example_state :: monitor_state where
  "example_state = \<lparr>ms_binaries = setup_paths example_rnd upload_dir,
     ms_shutdown_mutex = global_ns @ random_string 10 (example_rnd 4),
     ms_terminate_event_prefix = global_ns @ random_string 10 (example_rnd 5),
     ms_command_pipe = pipe_dir @ random_string 7 (example_rnd 6),
     ms_log_pipe_prefix = pipe_dir @ random_string 9 (example_rnd 7)\<rparr>"

definition example_files :: "files \<Rightarrow> files" where
  "example_files fs = (let b = ms_binaries example_state
     in fs(mb_capemon32 b \<mapsto> [77, 90, 1], mb_capemon64 b \<mapsto> [77, 90, 2], mb_loader32 b \<mapsto> [77, 90, 3],
           mb_loader64 b \<mapsto> [77, 90, 4]))"

lemma example_init:
  "monitor_init good_mon example_assets example_rnd upload_dir fs = (example_files fs, Ok example_state)"
  by (simp add: monitor_init_def setup_binaries_def then_files_def fs_write_def good_mon_def Let_def
      example_files_def example_state_def example_assets_def)

lemma example_rnd_alnum: "is_alnum (example_rnd k i)"
  by (simp add: example_rnd_def is_alnum_def)

end
