(* ===== verification/Bson_Log.thy ===== *)
theory Bson_Log
  imports Rust_Text
begin

text \<open>
  \<open>crates/malbox-agent/src/bson_log.rs\<close>: the schema registry and the translation of one
  BSON document of the monitor's log into an API call.

  The crate \<open>bson\<close> is a parameter: \<open>'d\<close> is its type of documents and a
  \<open>bson_crate\<close> record holds the functions of it that the code calls. The constructors of
  \<open>bson\<close> are those the code matches on; \<open>Other\<close> stands for the remaining variants. The typed
  getters (\<open>get_i32\<close>, \<open>get_str\<close>, \<open>get_array\<close>, \<open>as_i32\<close>, ...) succeed exactly on a
  present value of their own variant, as the crate documents. An error of a getter is
  represented by the key it was called with. Printing is not modelled.
\<close>

section \<open>Data\<close>

datatype ('d, 'o) bson =
    BString string
  | BInt32 i32
  | BInt64 i64
  | BDocument 'd
  | BBinary "u8 list"
  | BArray "('d, 'o) bson list"
  | BObjectId 'o
  | BBoolean bool
  | BOther 'o

record ('d, 'o) bson_crate =
  doc_get :: "'d \<Rightarrow> string \<Rightarrow> ('d, 'o) bson option"
  doc_len :: "'d \<Rightarrow> nat"
  doc_from_reader :: "u8 list \<Rightarrow> 'd option"
  display_oid :: "'o \<Rightarrow> string"
  display_other :: "'o \<Rightarrow> string"

record api_schema =
  sch_name :: string
  sch_category :: string
  sch_arg_names :: "string list"

type_synonym schema_registry = "i32 \<rightharpoonup> api_schema"

record api_call =
  call_api :: string
  call_category :: string
  call_status :: string
  call_return_value :: i64
  call_thread_id :: u32
  call_time :: i32
  call_arguments :: "(string \<times> string) list"

fun as_str :: "('d, 'o) bson \<Rightarrow> string option" where
  "as_str (BString s) = Some s" | "as_str _ = None"
fun as_i32 :: "('d, 'o) bson \<Rightarrow> i32 option" where
  "as_i32 (BInt32 i) = Some i" | "as_i32 _ = None"
fun as_i64 :: "('d, 'o) bson \<Rightarrow> i64 option" where
  "as_i64 (BInt64 i) = Some i" | "as_i64 _ = None"
fun as_array :: "('d, 'o) bson \<Rightarrow> ('d, 'o) bson list option" where
  "as_array (BArray a) = Some a" | "as_array _ = None"

definition get_i32 :: "('d, 'o) bson_crate \<Rightarrow> 'd \<Rightarrow> string \<Rightarrow> i32 option" where
  "get_i32 bc d k = Option.bind (doc_get bc d k) as_i32"
definition get_str :: "('d, 'o) bson_crate \<Rightarrow> 'd \<Rightarrow> string \<Rightarrow> string option" where
  "get_str bc d k = Option.bind (doc_get bc d k) as_str"
definition get_array :: "('d, 'o) bson_crate \<Rightarrow> 'd \<Rightarrow> string \<Rightarrow> ('d, 'o) bson list option" where
  "get_array bc d k = Option.bind (doc_get bc d k) as_array"

section \<open>The schema registry\<close>

definition arg_name :: "('d, 'o) bson \<Rightarrow> string" where
  "arg_name v = (case v of
       BArray arr \<Rightarrow>
         (case arr of
            [] \<Rightarrow> ''unknown''
          | x # _ \<Rightarrow> (case as_str x of Some s \<Rightarrow> s | None \<Rightarrow> ''unknown''))
     | BString s \<Rightarrow> s
     | _ \<Rightarrow> ''unknown'')"

definition ingest_info ::
    "('d, 'o) bson_crate \<Rightarrow> schema_registry \<Rightarrow> 'd \<Rightarrow> (string, schema_registry) res" where
  "ingest_info bc reg doc =
     (case get_i32 bc doc ''I'' of None \<Rightarrow> Err ''I'' | Some index \<Rightarrow>
      case get_str bc doc ''name'' of None \<Rightarrow> Err ''name'' | Some name \<Rightarrow>
      case get_str bc doc ''category'' of None \<Rightarrow> Err ''category'' | Some category \<Rightarrow>
      case get_array bc doc ''args'' of None \<Rightarrow> Err ''args'' | Some args \<Rightarrow>
        Ok (reg(index \<mapsto> \<lparr>sch_name = name, sch_category = category,
                           sch_arg_names = map arg_name args\<rparr>)))"

definition registry_get :: "schema_registry \<Rightarrow> i32 \<Rightarrow> api_schema option" where
  "registry_get reg index = reg index"

section \<open>Rendering values\<close>

definition join_comma :: "string list \<Rightarrow> string" where
  "join_comma xs = (case xs of [] \<Rightarrow> [] | y # ys \<Rightarrow> y @ concat (map (\<lambda>s. '', '' @ s) ys))"

definition byte_hex :: "u8 \<Rightarrow> string" where
  "byte_hex b = pad_left 2 (CHR ''0'') (show_hex (unat b))"

fun bson_to_string :: "('d, 'o) bson_crate \<Rightarrow> ('d, 'o) bson \<Rightarrow> string" where
  "bson_to_string bc (BString s) = s"
| "bson_to_string bc (BInt32 i) = ''0x'' @ show_hex (unat i)"
| "bson_to_string bc (BInt64 i) = ''0x'' @ show_hex (unat i)"
| "bson_to_string bc (BDocument d) = ''{...'' @ show_dec (doc_len bc d) @ '' fields}''"
| "bson_to_string bc (BBinary b) = ''0x'' @ concat (map byte_hex b)"
| "bson_to_string bc (BArray arr) = ''['' @ join_comma (map (bson_to_string bc) arr) @ '']''"
| "bson_to_string bc (BObjectId oid) = display_oid bc oid"
| "bson_to_string bc (BBoolean b) = (if b then ''1'' else ''0'')"
| "bson_to_string bc (BOther x) = display_other bc x"

section \<open>One document\<close>

text \<open>
  \<open>process_call\<close> is \<open>process_doc\<close> after the test for an info document. \<open>return_value\<close> and
  \<open>is_success\<close> read \<open>args\<close> under \<open>and_then\<close>, so a document without \<open>args\<close> takes their
  defaults there; the slice of the values then unwraps \<open>args\<close> once more.
\<close>

definition return_value :: "('d, 'o) bson option \<Rightarrow> (string, i64) res" where
  "return_value args = (case args of
       None \<Rightarrow> Ok 0
     | Some v \<Rightarrow>
         bind_res (unwrap (as_array v)) (\<lambda>arr.
         bind_res (vec_index arr 1) (\<lambda>x.
         case as_i32 x of Some i \<Rightarrow> Ok (scast i) | None \<Rightarrow> unwrap (as_i64 x))))"

definition is_success :: "('d, 'o) bson option \<Rightarrow> (string, bool) res" where
  "is_success args = (case args of
       None \<Rightarrow> Ok True
     | Some v \<Rightarrow>
         bind_res (unwrap (as_array v)) (\<lambda>arr.
         bind_res (vec_index arr 0) (\<lambda>x.
         bind_res (unwrap (as_i32 x)) (\<lambda>i. Ok (i = 1)))))"

definition process_call ::
    "('d, 'o) bson_crate \<Rightarrow> schema_registry \<Rightarrow> 'd \<Rightarrow> (string, api_call option) res" where
  "process_call bc reg doc =
     (case get_i32 bc doc ''I'' of None \<Rightarrow> Ok None | Some index \<Rightarrow>
      case registry_get reg index of None \<Rightarrow> Ok None | Some schema \<Rightarrow>
        (let thread_id = (case get_i32 bc doc ''T'' of Some t \<Rightarrow> t | None \<Rightarrow> 0);
             time = (case get_i32 bc doc ''t'' of Some t \<Rightarrow> t | None \<Rightarrow> 0)
         in bind_res (return_value (doc_get bc doc ''args'')) (\<lambda>rv.
            bind_res (is_success (doc_get bc doc ''args'')) (\<lambda>succ.
            bind_res (unwrap (doc_get bc doc ''args'')) (\<lambda>v.
            bind_res (unwrap (as_array v)) (\<lambda>arr.
            bind_res (slice_from arr 2) (\<lambda>vals.
            bind_res (slice_from (sch_arg_names schema) 2) (\<lambda>names.
              Ok (Some \<lparr>call_api = sch_name schema, call_category = sch_category schema,
                        call_status = (if succ then ''success'' else ''failed''),
                        call_return_value = rv, call_thread_id = thread_id, call_time = time,
                        call_arguments = zip names (map (bson_to_string bc) vals)\<rparr>)))))))))"

definition process_doc ::
    "('d, 'o) bson_crate \<Rightarrow> schema_registry \<Rightarrow> 'd \<Rightarrow>
       schema_registry \<times> (string, api_call option) res" where
  "process_doc bc reg doc =
     (let doc_type = (case get_str bc doc ''type'' of Some t \<Rightarrow> t | None \<Rightarrow> [])
      in if doc_type = ''info'' then
           (case ingest_info bc reg doc of
              Ok reg' \<Rightarrow> (reg', Ok None)
            | Err e \<Rightarrow> (reg, Ok None)
            | Panic \<Rightarrow> (reg, Panic))
         else (reg, process_call bc reg doc))"

section \<open>What the translation guarantees\<close>

text \<open>The shape of the arguments for which none of the unwraps of \<open>process_call\<close> fails.\<close>

definition good_args :: "('d, 'o) bson option \<Rightarrow> bool" where
  "good_args args = (case args of
       Some (BArray (a # b # _)) \<Rightarrow>
         as_i32 a \<noteq> None \<and> (as_i32 b \<noteq> None \<or> as_i64 b \<noteq> None)
     | _ \<Rightarrow> False)"

lemma good_args_cases:
  assumes "good_args args"
  obtains a b vs i where "args = Some (BArray (a # b # vs))" "as_i32 a = Some i"
    "as_i32 b \<noteq> None \<or> as_i64 b \<noteq> None"
  using assms by (auto simp: good_args_def split: option.splits bson.splits list.splits)

lemma ingest_info_no_panic: "ingest_info bc reg doc \<noteq> Panic"
  by (simp add: ingest_info_def split: option.splits)

lemma ingest_info_OkD:
  "ingest_info bc reg doc = Ok reg' \<Longrightarrow>
     \<exists>i n c a. get_i32 bc doc ''I'' = Some i \<and> get_str bc doc ''name'' = Some n \<and>
       get_str bc doc ''category'' = Some c \<and> get_array bc doc ''args'' = Some a \<and>
       reg' = reg(i \<mapsto> \<lparr>sch_name = n, sch_category = c, sch_arg_names = map arg_name a\<rparr>)"
  by (auto simp: ingest_info_def split: option.splits)

lemma values_good:
  assumes "good_args args"
  shows "\<exists>rv s. return_value args = Ok rv \<and> is_success args = Ok s \<and>
           (\<exists>arr. args = Some (BArray arr) \<and> 2 \<le> length arr)"
  using assms
  by (elim good_args_cases)
    (auto simp: return_value_def is_success_def vec_index_def split: option.splits)

lemma values_bad:
  assumes "\<not> good_args args" and "args \<noteq> None"
  shows "return_value args = Panic \<or> is_success args = Panic"
proof -
  from assms(2) obtain v where v: "args = Some v" by blast
  show ?thesis
  proof (cases "as_array v")
    case None
    then show ?thesis using v by (simp add: return_value_def)
  next
    case (Some arr)
    then have va: "v = BArray arr" by (cases v) auto
    show ?thesis
    proof (cases arr)
      case Nil
      then show ?thesis using v va by (simp add: return_value_def vec_index_def)
    next
      case (Cons a as)
      show ?thesis
      proof (cases as)
        case Nil
        then show ?thesis using v va Cons by (simp add: return_value_def vec_index_def)
      next
        fix b bs assume as: "as = b # bs"
        have "as_i32 a = None \<or> (as_i32 b = None \<and> as_i64 b = None)"
          using assms(1) v va Cons as by (auto simp: good_args_def)
        then show ?thesis using v va Cons as
          by (auto simp: return_value_def is_success_def vec_index_def)
      qed
    qed
  qed
qed

lemma return_value_no_err [simp]: "return_value args \<noteq> Err e"
  by (cases args)
    (auto simp: return_value_def vec_index_def bind_res_Err_iff split: option.splits if_splits)

lemma process_call_panic_iff:
  "process_call bc reg doc = Panic \<longleftrightarrow>
     (\<exists>index schema. get_i32 bc doc ''I'' = Some index \<and> reg index = Some schema \<and>
        \<not> (good_args (doc_get bc doc ''args'') \<and> 2 \<le> length (sch_arg_names schema)))"
proof (cases "get_i32 bc doc ''I''")
  case (Some index)
  show ?thesis
  proof (cases "reg index")
    case (Some schema)
    note here = \<open>get_i32 bc doc ''I'' = Some index\<close> Some
    show ?thesis
    proof (cases "good_args (doc_get bc doc ''args'')")
      case True
      with values_good [OF True] here show ?thesis
        by (auto simp: process_call_def registry_get_def slice_from_def Let_def)
    next
      case False
      have "process_call bc reg doc = Panic"
      proof (cases "doc_get bc doc ''args''")
        case None
        then show ?thesis using here
          by (simp add: process_call_def registry_get_def return_value_def is_success_def)
      next
        case (Some v)
        then have "return_value (doc_get bc doc ''args'') = Panic \<or>
            is_success (doc_get bc doc ''args'') = Panic"
          using values_bad [OF False] by simp
        then show ?thesis using here
          by (cases "return_value (doc_get bc doc ''args'')")
            (simp_all add: process_call_def registry_get_def)
      qed
      then show ?thesis using here False by simp
    qed
  qed (simp add: process_call_def registry_get_def \<open>get_i32 bc doc ''I'' = Some index\<close>)
qed (simp add: process_call_def)

section \<open>Properties\<close>

text \<open>C16: \<open>process_doc\<close> panics on exactly these documents: a document that is not an info document,
  whose index is registered, and whose \<open>args\<close> are not an array that starts with the success flag
  (an int32) and the return value (an int32 or int64), or whose schema has fewer than two argument
  names. Every other document is processed or skipped, whatever it holds.\<close>

theorem process_doc_panics_iff:
  "snd (process_doc bc reg doc) = Panic \<longleftrightarrow>
     get_str bc doc ''type'' \<noteq> Some ''info'' \<and>
     (\<exists>index schema. get_i32 bc doc ''I'' = Some index \<and> reg index = Some schema \<and>
        \<not> (good_args (doc_get bc doc ''args'') \<and> 2 \<le> length (sch_arg_names schema)))"
  using ingest_info_no_panic [of bc reg doc]
  by (auto simp: process_doc_def process_call_panic_iff Let_def
      split: option.splits if_splits res.splits)

text \<open>A small crate to evaluate the definitions on: documents are numbers, read off the fifth byte
  of the frame; document 0 describes \<open>NtOpenFile\<close>, document 1 is a call of it.\<close>

definition example_doc :: "nat \<Rightarrow> (string \<times> (nat, unit) bson) list" where
  "example_doc n = (if n = 0 then
      [(''type'', BString ''info''), (''I'', BInt32 7), (''name'', BString ''NtOpenFile''),
       (''category'', BString ''filesystem''),
       (''args'', BArray [BString ''is_success'', BString ''retval'',
          BArray [BString ''FileHandle'', BString ''p''], BInt32 0])]
    else [(''I'', BInt32 7), (''T'', BInt32 100), (''t'', BInt32 5),
       (''args'', BArray [BInt32 1, BInt32 0, BInt32 16, BString ''a''])])"

definition example_crate :: "(nat, unit) bson_crate" where
  "example_crate = \<lparr>doc_get = (\<lambda>d. map_of (example_doc d)), doc_len = (\<lambda>d. length (example_doc d)),
     doc_from_reader = (\<lambda>bs. if length bs = 9 then Some (unat (bs ! 4)) else None),
     display_oid = (\<lambda>_. []), display_other = (\<lambda>_. [])\<rparr>"

definition example_call :: api_call where
  "example_call = \<lparr>call_api = ''NtOpenFile'', call_category = ''filesystem'',
     call_status = ''success'', call_return_value = 0, call_thread_id = 100, call_time = 5,
     call_arguments = [(''FileHandle'', ''0x10''), (''unknown'', ''a'')]\<rparr>"

lemma example_hex: "show_hex 16 = ''10''"
  by code_simp

lemma example_docs [simp]:
  "process_doc example_crate reg 0 =
     (reg(7 \<mapsto> \<lparr>sch_name = ''NtOpenFile'', sch_category = ''filesystem'',
        sch_arg_names = [''is_success'', ''retval'', ''FileHandle'', ''unknown'']\<rparr>), Ok None)"
  "reg 7 = Some \<lparr>sch_name = ''NtOpenFile'', sch_category = ''filesystem'',
        sch_arg_names = [''is_success'', ''retval'', ''FileHandle'', ''unknown'']\<rparr> \<Longrightarrow>
   process_doc example_crate reg (Suc 0) = (reg, Ok (Some example_call))"
  by (simp_all add: process_doc_def process_call_def ingest_info_def example_crate_def
      example_doc_def get_str_def get_i32_def get_array_def arg_name_def registry_get_def
      return_value_def is_success_def vec_index_def slice_from_def example_call_def
      example_hex)

text \<open>An info document followed by a document of the same index gives a call that carries the
  info document's name and category, the success flag and return value of the first two arguments,
  and the remaining values paired with the remaining argument names, up to the shorter of the two.\<close>

theorem info_then_call:
  assumes info: "get_str bc d0 ''type'' = Some ''info''" "get_i32 bc d0 ''I'' = Some i"
      "get_str bc d0 ''name'' = Some n" "get_str bc d0 ''category'' = Some c"
      "get_array bc d0 ''args'' = Some names"
    and call: "get_str bc d1 ''type'' \<noteq> Some ''info''" "get_i32 bc d1 ''I'' = Some i"
      "doc_get bc d1 ''args'' = Some (BArray (BInt32 ok # rv # vals))"
    and rv: "map_option scast (as_i32 rv) = Some r \<or> as_i64 rv = Some r"
    and two: "2 \<le> length names"
  shows "\<exists>call. snd (process_doc bc (fst (process_doc bc reg d0)) d1) = Ok (Some call) \<and>
     call_api call = n \<and> call_category call = c \<and> call_return_value call = r \<and>
     call_status call = (if ok = 1 then ''success'' else ''failed'') \<and>
     call_arguments call = zip (map arg_name (drop 2 names)) (map (bson_to_string bc) vals)"
proof -
  let ?reg = "reg(i \<mapsto> \<lparr>sch_name = n, sch_category = c, sch_arg_names = map arg_name names\<rparr>)"
  have reg: "fst (process_doc bc reg d0) = ?reg"
    using info by (simp add: process_doc_def ingest_info_def)
  have "as_i32 rv = None" if "as_i64 rv = Some r" using that by (cases rv) auto
  then have ret: "return_value (Some (BArray (BInt32 ok # rv # vals))) = Ok r"
    using rv by (auto simp: return_value_def vec_index_def)
  have "is_success (Some (BArray (BInt32 ok # rv # vals))) = Ok (ok = 1)"
    by (simp add: is_success_def vec_index_def)
  with ret call two have "snd (process_doc bc ?reg d1) = process_call bc ?reg d1"
    by (simp add: process_doc_def Let_def split: option.splits)
  with ret call two show ?thesis
    unfolding reg
    by (simp add: process_call_def registry_get_def slice_from_def drop_map is_success_def
        vec_index_def)
qed

theorem info_then_call_witness:
  "\<exists>call. snd (process_doc example_crate (fst (process_doc example_crate Map.empty 0)) 1) =
       Ok (Some call) \<and>
     call_api call = ''NtOpenFile'' \<and> call_category call = ''filesystem'' \<and>
     call_return_value call = 0 \<and> call_status call = (if (1 :: i32) = 1 then ''success'' else ''failed'') \<and>
     call_arguments call = zip (map arg_name (drop 2 [BString ''is_success'', BString ''retval'',
          BArray [BString ''FileHandle'', BString ''p''], BInt32 0 :: (nat, unit) bson]))
       (map (bson_to_string example_crate) [BInt32 16, BString ''a''])"
  by (rule info_then_call [where i = 7 and rv = "BInt32 0"])
    (simp_all add: example_crate_def example_doc_def get_str_def get_i32_def get_array_def)

end
