(* ===== verification/Bson_Frame.thy ===== *)
theory Bson_Frame
  imports Bson_Log Pipe_Raw
begin

text \<open>
  The reading half of \<open>bson_log.rs\<close>: the header line of a log pipe and its length-prefixed
  BSON frames, over any reader. The lemmas on what they read are proved once for every reader
  that meets \<open>byte_reader\<close> and hold for the named pipe by interpretation.
\<close>

section \<open>The header line\<close>

partial_function (option) read_header_loop ::
    "'s read_fn \<Rightarrow> 's \<Rightarrow> string \<Rightarrow> ((io_error, string) res \<times> 's) option" where
  "read_header_loop rd s header =
     (case read_exact rd s 1 [] of
        None \<Rightarrow> None
      | Some p \<Rightarrow>
          (case fst p of
             Ok buf \<Rightarrow>
               (if buf ! 0 = 10 then Some (Ok header, snd p)
                else read_header_loop rd (snd p) (header @ [char_of_u8 (buf ! 0)]))
           | Err e \<Rightarrow> Some (Err e, snd p)
           | Panic \<Rightarrow> Some (Panic, snd p)))"

definition parse_header :: "string \<Rightarrow> string \<times> u32" where
  "parse_header header =
     (let parts = split_whitespace header
      in ((case parts of [] \<Rightarrow> [] | p # _ \<Rightarrow> p),
          (case parts of
             _ # s # _ \<Rightarrow> (case parse_u32 s of Some pid \<Rightarrow> pid | None \<Rightarrow> 0)
           | _ \<Rightarrow> 0)))"

definition read_header ::
    "'s read_fn \<Rightarrow> 's \<Rightarrow> ((io_error, string \<times> u32) res \<times> 's) option" where
  "read_header rd s =
     (case read_header_loop rd s [] of
        None \<Rightarrow> None
      | Some (r, s') \<Rightarrow> Some (bind_res r (\<lambda>header. Ok (parse_header header)), s'))"

section \<open>One frame\<close>

datatype frame_error = FrameIo io_error | InvalidLength nat | BsonError

text \<open>The length prefix, and the part of \<open>read_bson_frame\<close> after it.\<close>

definition frame_len :: "u8 list \<Rightarrow> nat" where
  "frame_len b = unat (u32_from_le (b ! 0) (b ! 1) (b ! 2) (b ! 3))"

definition read_frame_body ::
    "('d, 'o) bson_crate \<Rightarrow> 's read_fn \<Rightarrow> 's \<Rightarrow> u8 list \<Rightarrow>
       ((frame_error, 'd option) res \<times> 's) option" where
  "read_frame_body bc rd s1 len_buf =
     (let len = frame_len len_buf
      in if len < 5 \<or> 20 * 1024 * 1024 < len then Some (Err (InvalidLength len), s1)
         else
           (case read_exact rd s1 (len - 4) [] of
              None \<Rightarrow> None
            | Some (r, s2) \<Rightarrow>
                (case r of
                   Err e \<Rightarrow> Some (Err (FrameIo e), s2)
                 | Panic \<Rightarrow> Some (Panic, s2)
                 | Ok body \<Rightarrow>
                     (case doc_from_reader bc (len_buf @ body) of
                        None \<Rightarrow> Some (Err BsonError, s2)
                      | Some doc \<Rightarrow> Some (Ok (Some doc), s2)))))"

definition read_bson_frame ::
    "('d, 'o) bson_crate \<Rightarrow> 's read_fn \<Rightarrow> 's \<Rightarrow> ((frame_error, 'd option) res \<times> 's) option" where
  "read_bson_frame bc rd s =
     (case read_exact rd s 4 [] of
        None \<Rightarrow> None
      | Some (r, s1) \<Rightarrow>
          (case r of
             Ok len_buf \<Rightarrow> read_frame_body bc rd s1 len_buf
           | Err e \<Rightarrow> Some (if e = UnexpectedEof then Ok None else Err (FrameIo e), s1)
           | Panic \<Rightarrow> Some (Panic, s1)))"

text \<open>A frame on the wire: a BSON document whose first four bytes are its own length.\<close>

definition frame_ok :: "('d, 'o) bson_crate \<Rightarrow> u8 list \<Rightarrow> 'd \<Rightarrow> bool" where
  "frame_ok bc f d \<longleftrightarrow>
     5 \<le> length f \<and> length f \<le> 20 * 1024 * 1024 \<and>
     frame_len f = length f \<and>
     doc_from_reader bc f = Some d"

definition header_line :: "string \<Rightarrow> u8 list" where
  "header_line h = map u8_of_char h @ [10]"

lemma u8_of_newline: "u8_of_char c = 10 \<longleftrightarrow> c = CHR 0x0A"
proof -
  have "u8_of_char (CHR 0x0A) = 10" by (simp add: u8_of_char_def)
  then show ?thesis using u8_of_char_inj by metis
qed

context byte_reader
begin

lemma read_header_loop_line:
  assumes "invar s" and "pending s = header_line h @ rest" and "CHR 0x0A \<notin> set h"
  shows "\<exists>s'. read_header_loop rd s acc = Some (Ok (acc @ h), s') \<and>
           pending s' = rest \<and> fin s' = fin s \<and> invar s'"
  using assms
proof (induction h arbitrary: s acc)
  case Nil
  then obtain s' where "read_exact rd s 1 [] = Some (Ok [10], s')" "pending s' = rest"
    "fin s' = fin s" "invar s'"
    using read_exact_enough [of s 1 "[]"] by (auto simp: header_line_def)
  then show ?case by (simp add: read_header_loop.simps [of rd s])
next
  case (Cons c h)
  then have "c \<noteq> CHR 0x0A" "CHR 0x0A \<notin> set h" by auto
  obtain s' where s': "read_exact rd s 1 [] = Some (Ok [u8_of_char c], s')"
    "pending s' = header_line h @ rest" "fin s' = fin s" "invar s'"
    using read_exact_enough [of s 1 "[]"] Cons.prems by (auto simp: header_line_def)
  from Cons.IH [OF s'(4,2) \<open>CHR 0x0A \<notin> set h\<close>, of "acc @ [c]"] show ?case
    using s' \<open>c \<noteq> CHR 0x0A\<close> by (auto simp: read_header_loop.simps [of rd s] u8_of_newline)
qed

lemma read_header_line:
  assumes "invar s" and "pending s = header_line h @ rest" and "CHR 0x0A \<notin> set h"
  shows "\<exists>s'. read_header rd s = Some (Ok (parse_header h), s') \<and>
           pending s' = rest \<and> fin s' = fin s \<and> invar s'"
  using read_header_loop_line [OF assms, of "[]"] by (auto simp: read_header_def)

lemma read_header_loop_eof:
  assumes "invar s" and "10 \<notin> set (pending s)"
  shows "\<exists>s'. read_header_loop rd s acc =
           Some (Err (case fin s of None \<Rightarrow> UnexpectedEof | Some e \<Rightarrow> e), s') \<and> invar s'"
  using assms
proof (induction "pending s" arbitrary: s acc)
  case Nil
  then show ?case using read_exact_short [of s 1 "[]"]
    by (auto simp: read_header_loop.simps [of rd s])
next
  case (Cons b bs)
  obtain s' where s': "read_exact rd s 1 [] = Some (Ok [b], s')" "pending s' = bs"
    "fin s' = fin s" "invar s'"
    using read_exact_enough [of s 1 "[]"] Cons.prems Cons.hyps(2) [symmetric] by auto
  have "b \<noteq> 10" "10 \<notin> set (pending s')"
    using Cons.prems Cons.hyps(2) [symmetric] s' by auto
  with Cons.hyps(1) [of s' "acc @ [char_of_u8 b]"] s' show ?case
    by (auto simp: read_header_loop.simps [of rd s])
qed

text \<open>A complete frame is read as its document, however the reader cuts it up.\<close>

lemma read_frame_ok:
  assumes "invar s" and "pending s = f @ rest" and "frame_ok bc f d"
  shows "\<exists>s'. read_bson_frame bc rd s = Some (Ok (Some d), s') \<and>
           pending s' = rest \<and> fin s' = fin s \<and> invar s'"
proof -
  from assms(3) have len: "5 \<le> length f" "length f \<le> 20 * 1024 * 1024"
    and num: "frame_len f = length f" and doc: "doc_from_reader bc f = Some d"
    by (auto simp: frame_ok_def)
  have pre: "frame_len (take 4 f) = length f"
    using num by (simp add: frame_len_def)
  obtain s1 where s1: "read_exact rd s 4 [] = Some (Ok (take 4 f), s1)"
    "pending s1 = drop 4 f @ rest" "fin s1 = fin s" "invar s1"
    using read_exact_enough [of s 4 "[]"] assms(1,2) len by auto
  have "length f - 4 < 2 ^ 32" using len by simp
  then obtain s2 where s2: "read_exact rd s1 (length f - 4) [] = Some (Ok (drop 4 f), s2)"
    "pending s2 = rest" "fin s2 = fin s" "invar s2"
    using read_exact_enough [OF s1(4), of "length f - 4" "[]"] s1(2,3) by auto
  have "read_frame_body bc rd s1 (take 4 f) = Some (Ok (Some d), s2)"
    using len by (simp add: read_frame_body_def pre s2(1) doc)
  with s1(1) have "read_bson_frame bc rd s = Some (Ok (Some d), s2)"
    by (simp add: read_bson_frame_def)
  with s2 show ?thesis by blast
qed

text \<open>Fewer than four bytes before the end of the stream are the orderly end of the log.\<close>

lemma read_frame_eof:
  assumes "invar s" and "length (pending s) < 4" and "fin s = None"
  shows "\<exists>s'. read_bson_frame bc rd s = Some (Ok None, s')"
  using read_exact_short [of s 4 "[]"] assms by (auto simp: read_bson_frame_def)

text \<open>A length outside 5 bytes to 20 MiB is refused before anything is allocated or read.\<close>

lemma read_frame_bad_length:
  assumes "invar s" and "pending s = b @ rest" and "length b = 4"
    and "frame_len b < 5 \<or> 20 * 1024 * 1024 < frame_len b"
  shows "\<exists>s'. read_bson_frame bc rd s = Some (Err (InvalidLength (frame_len b)), s') \<and>
           pending s' = rest"
proof -
  obtain s1 where "read_exact rd s 4 [] = Some (Ok b, s1)" "pending s1 = rest"
    using read_exact_enough [of s 4 "[]"] assms(1-3) by auto
  then show ?thesis using assms(4) by (auto simp: read_bson_frame_def read_frame_body_def)
qed

text \<open>Every call returns, without a panic, and reads at least one byte or ends the log.\<close>

lemma read_frame_body_returns:
  assumes "invar s"
  obtains r s' where "read_frame_body bc rd s len_buf = Some (r, s')" "invar s'" "r \<noteq> Panic"
    "length (pending s') \<le> length (pending s)"
proof -
  define len where "len = frame_len len_buf"
  have "len < 2 ^ 32"
    unfolding len_def frame_len_def by (rule order.strict_trans2 [OF unsigned_less]) simp
  then have len32: "len - 4 < 2 ^ 32" by simp
  obtain r2 s2 where r2: "read_exact rd s (len - 4) [] = Some (r2, s2)" "invar s2" "r2 \<noteq> Panic"
    "length (pending s2) = length (pending s) - (len - 4)"
    using read_exact_ends [OF assms len32, of "[]"] by auto
  show ?thesis
  proof (cases "len < 5 \<or> 20 * 1024 * 1024 < len")
    case True
    then have "read_frame_body bc rd s len_buf = Some (Err (InvalidLength len), s)"
      by (simp add: read_frame_body_def len_def)
    then show ?thesis using that assms by blast
  next
    case False
    have "\<exists>r. read_frame_body bc rd s len_buf = Some (r, s2) \<and> r \<noteq> Panic"
      using False r2
      by (cases r2) (auto simp: read_frame_body_def len_def [symmetric] split: option.splits)
    then show ?thesis using that r2 by auto
  qed
qed

lemma read_frame_returns:
  assumes "invar s"
  obtains r s' where "read_bson_frame bc rd s = Some (r, s')" "invar s'" "r \<noteq> Panic"
    "\<And>d. r = Ok (Some d) \<Longrightarrow> length (pending s') < length (pending s)"
proof (cases "4 \<le> length (pending s)")
  case True
  then obtain s1 where s1: "read_exact rd s 4 [] = Some (Ok (take 4 (pending s)), s1)"
    "pending s1 = drop 4 (pending s)" "invar s1"
    using read_exact_enough [OF assms, of 4 "[]"] by auto
  obtain r s' where r: "read_frame_body bc rd s1 (take 4 (pending s)) = Some (r, s')" "invar s'"
    "r \<noteq> Panic" "length (pending s') \<le> length (pending s1)"
    using read_frame_body_returns [OF s1(3)] by blast
  then show ?thesis
    using that [of r s'] s1 True by (simp add: read_bson_frame_def)
next
  case False
  then obtain s1 e where "read_exact rd s 4 [] = Some (Err e, s1)" "invar s1"
    using read_exact_short [OF assms, of 4 "[]"] by auto
  then show ?thesis
    using that [of "Ok None" s1] that [of "Err (FrameIo e)" s1]
    by (cases "e = UnexpectedEof") (simp_all add: read_bson_frame_def)
qed

end

lemma split_header:
  assumes "\<forall>c \<in> set proto. \<not> is_ws c" and "proto \<noteq> []"
  shows "split_whitespace (proto @ CHR '' '' # show_dec (unat (pid :: u32))) = [proto, show_dec (unat pid)]"
  using assms show_dec_not_ws [of "unat pid"]
  by (simp add: split_ws_cons split_ws_word is_ws_def)

section \<open>Properties\<close>

text \<open>The header line that names a protocol and a process id is read back as both: printing a
  32-bit process id after a word and a space, and parsing the line, is the identity.\<close>

theorem header_roundtrip:
  assumes "\<forall>c \<in> set proto. \<not> is_ws c" and "proto \<noteq> []"
  shows "parse_header (proto @ '' '' @ show_dec (unat pid)) = (proto, pid)"
  using split_header [OF assms, of pid] by (simp add: parse_header_def parse_show_u32)

theorem header_roundtrip_witness:
  "parse_header (''BSON'' @ '' '' @ show_dec (unat (1234 :: u32))) = (''BSON'', 1234)"
  by (rule header_roundtrip) (simp_all add: is_ws_def)

text \<open>C34: A frame whose length prefix is below 5 or above 20 MiB is refused with that length, over
  any pipe, after the four bytes of the prefix and before anything else is read or allocated.\<close>

theorem frame_length_refused:
  assumes "win_read_file rf queued code valid" and "valid p" and "queued p = b @ rest"
    and "length b = 4" and "frame_len b < 5 \<or> 20 * 1024 * 1024 < frame_len b"
  shows "\<exists>p'. read_bson_frame bc (np_read rf) p = Some (Err (InvalidLength (frame_len b)), p') \<and>
     queued p' = rest"
  using byte_reader.read_frame_bad_length [OF win_read_file.pipe_reader [OF assms(1)] assms(2-)] .

theorem frame_length_refused_witness:
  "\<exists>p'. read_bson_frame example_crate (np_read queue_read_file)
      \<lparr>pq_writes = [[4, 0], [0, 0, 7]], pq_code = 109\<rparr> =
        Some (Err (InvalidLength (frame_len [4, 0, 0, 0])), p') \<and> queue_bytes p' = [7]"
  by (rule frame_length_refused [OF win_pipe.win_read_file_axioms])
    (simp_all add: queue_valid_def queue_bytes_def frame_len_def unat_u32_from_le ERROR_MORE_DATA_def)

end
