(* ===== verification/Collector.thy ===== *)
theory Collector
  imports Bson_Log
begin

text \<open>
  \<open>crates/malbox-agent/src/collector.rs\<close>: the processes of an analysis and their API calls.

  A \<open>HashMap\<close> is an association list with distinct keys; what the code does with the
  order of its entries takes an iteration order as a parameter (theory \<open>Report\<close>). A
  \<open>BTreeSet\<close> is its ascending list. Every process carries the number of processes known
  when it was registered, which is its place in the report.
\<close>

record proc_info =
  pi_pid :: u32
  pi_parent_id :: u32
  pi_process_name :: string
  pi_first_seen_order :: nat
  pi_thread_ids :: "u32 list"
  pi_calls :: "api_call list"

record analysis_collector =
  procs :: "(u32 \<times> proc_info) list"
  child_links :: "(u32 \<times> u32) list"

definition empty_collector :: analysis_collector where
  "empty_collector = \<lparr>procs = [], child_links = []\<rparr>"

definition register_process :: "analysis_collector \<Rightarrow> u32 \<Rightarrow> u32 \<Rightarrow> string \<Rightarrow> analysis_collector" where
  "register_process c pid parent name =
     (let order = length (procs c);
          c1 = (if map_of (procs c) pid = None
                then c\<lparr>procs := procs c @ [(pid,
                       \<lparr>pi_pid = pid, pi_parent_id = parent, pi_process_name = name,
                        pi_first_seen_order = order, pi_thread_ids = [], pi_calls = []\<rparr>)]\<rparr>
                else c)
      in if parent \<noteq> 0 then c1\<lparr>child_links := child_links c1 @ [(parent, pid)]\<rparr> else c1)"

definition record_call :: "api_call \<Rightarrow> proc_info \<Rightarrow> proc_info" where
  "record_call call p =
     p\<lparr>pi_thread_ids := insort_insert (call_thread_id call) (pi_thread_ids p),
       pi_calls := pi_calls p @ [call]\<rparr>"

definition push_call :: "analysis_collector \<Rightarrow> u32 \<Rightarrow> api_call \<Rightarrow> analysis_collector" where
  "push_call c pid call =
     (if map_of (procs c) pid = None then c
      else c\<lparr>procs := map (\<lambda>(k, p). (k, if k = pid then record_call call p else p)) (procs c)\<rparr>)"

definition tracked_pids :: "((u32 \<times> proc_info) list \<Rightarrow> (u32 \<times> proc_info) list) \<Rightarrow>
    analysis_collector \<Rightarrow> u32 list" where
  "tracked_pids iter c = map fst (iter (procs c))"

section \<open>The invariant\<close>

definition proc_ok :: "u32 \<times> proc_info \<Rightarrow> bool" where
  "proc_ok e = (case e of (pid, p) \<Rightarrow>
     pi_pid p = pid \<and> sorted (pi_thread_ids p) \<and> distinct (pi_thread_ids p) \<and>
     set (pi_thread_ids p) = call_thread_id ` set (pi_calls p))"

definition collector_inv :: "analysis_collector \<Rightarrow> bool" where
  "collector_inv c \<longleftrightarrow>
     distinct (map fst (procs c)) \<and> list_all proc_ok (procs c) \<and>
     map (pi_first_seen_order \<circ> snd) (procs c) = [0 ..< length (procs c)] \<and>
     list_all (\<lambda>(p, k). p \<noteq> 0 \<and> map_of (procs c) k \<noteq> None) (child_links c)"

definition calls_of :: "analysis_collector \<Rightarrow> u32 \<Rightarrow> api_call list option" where
  "calls_of c pid = map_option pi_calls (map_of (procs c) pid)"

lemma collector_inv_empty: "collector_inv empty_collector"
  by (simp add: collector_inv_def empty_collector_def)

lemma map_of_register [simp]:
  "map_of (procs (register_process c pid parent name)) k =
     (if k = pid \<and> map_of (procs c) pid = None
      then Some \<lparr>pi_pid = pid, pi_parent_id = parent, pi_process_name = name,
                 pi_first_seen_order = length (procs c), pi_thread_ids = [], pi_calls = []\<rparr>
      else map_of (procs c) k)"
  by (auto simp: register_process_def Let_def map_add_def split: option.splits)

lemma register_inv:
  assumes "collector_inv c"
  shows "collector_inv (register_process c pid parent name)"
proof (cases "map_of (procs c) pid")
  case None
  then have "pid \<notin> fst ` set (procs c)" by (simp add: map_of_eq_None_iff)
  moreover have "list_all (\<lambda>(p, k). p \<noteq> 0 \<and>
      map_of (procs (register_process c pid parent name)) k \<noteq> None) (child_links c)"
    using assms by (auto simp: collector_inv_def list_all_iff)
  ultimately show ?thesis
    using assms None
    by (auto simp: collector_inv_def register_process_def Let_def proc_ok_def map_add_def
        list_all_iff split: option.splits)
next
  case (Some p)
  with assms show ?thesis
    by (auto simp: collector_inv_def register_process_def Let_def)
qed

lemma map_of_push [simp]:
  "map_of (procs (push_call c pid call)) k =
     (if k = pid then map_option (record_call call) (map_of (procs c) k) else map_of (procs c) k)"
proof -
  have "map_of (map (\<lambda>(k, p). (k, if k = pid then record_call call p else p)) xs) k =
      (if k = pid then map_option (record_call call) (map_of xs k) else map_of xs k)" for xs
    by (induction xs) auto
  then show ?thesis by (auto simp: push_call_def)
qed

lemma push_shape:
  "map fst (procs (push_call c pid call)) = map fst (procs c)"
  "map (pi_first_seen_order \<circ> snd) (procs (push_call c pid call)) =
     map (pi_first_seen_order \<circ> snd) (procs c)"
  "child_links (push_call c pid call) = child_links c"
  "length (procs (push_call c pid call)) = length (procs c)"
  by (auto simp: push_call_def record_call_def comp_def split: prod.splits)

lemma record_call_ok: "proc_ok (pid, p) \<Longrightarrow> proc_ok (pid, record_call call p)"
  by (auto simp: proc_ok_def record_call_def sorted_insort_insert distinct_insort_insert
      set_insort_insert)

lemma push_inv:
  assumes "collector_inv c"
  shows "collector_inv (push_call c pid call)"
proof -
  have "list_all proc_ok (procs (push_call c pid call))"
    using assms record_call_ok
    by (auto simp: collector_inv_def push_call_def list_all_iff)
  moreover have "list_all (\<lambda>(p, k). p \<noteq> 0 \<and> map_of (procs (push_call c pid call)) k \<noteq> None)
      (child_links c)"
    using assms by (auto simp: collector_inv_def list_all_iff)
  ultimately show ?thesis
    using assms by (simp add: collector_inv_def push_shape)
qed

section \<open>The contract of a call sink\<close>

text \<open>
  What the log readers rely on: a call is appended to the calls of its own process, a call of
  an unknown process is dropped, and no other process is touched.
\<close>

locale call_sink =
  fixes push :: "'c \<Rightarrow> u32 \<Rightarrow> api_call \<Rightarrow> 'c"
    and calls :: "'c \<Rightarrow> u32 \<Rightarrow> api_call list option"
    and inv :: "'c \<Rightarrow> bool"
  assumes push_calls: "calls (push c p x) q =
      (if q = p then map_option (\<lambda>xs. xs @ [x]) (calls c q) else calls c q)"
    and push_keeps: "inv c \<Longrightarrow> inv (push c p x)"
begin

definition push_all :: "'c \<Rightarrow> u32 \<Rightarrow> api_call list \<Rightarrow> 'c" where
  "push_all c p xs = foldl (\<lambda>c x. push c p x) c xs"

lemma push_all_calls:
  "calls (push_all c p xs) q =
     (if q = p then map_option (\<lambda>ys. ys @ xs) (calls c q) else calls c q)"
proof (induction xs arbitrary: c)
  case Nil
  then show ?case by (cases "calls c q") (auto simp: push_all_def)
next
  case (Cons x xs)
  from Cons.IH [of "push c p x"] show ?case
    by (cases "calls c q") (auto simp: push_all_def push_calls)
qed

lemma push_all_inv: "inv c \<Longrightarrow> inv (push_all c p xs)"
  by (induction xs arbitrary: c) (auto simp: push_all_def push_keeps)

text \<open>The readers of two processes may run in any order.\<close>

lemma push_all_other: "p \<noteq> q \<Longrightarrow> calls (push_all (push_all c p xs) q ys) = calls (push_all (push_all c q ys) p xs)"
  by (auto simp: push_all_calls fun_eq_iff)

end

interpretation sink: call_sink push_call calls_of collector_inv
proof
  show "calls_of (push_call c p x) q =
      (if q = p then map_option (\<lambda>xs. xs @ [x]) (calls_of c q) else calls_of c q)" for c p x q
    by (cases "map_of (procs c) q") (auto simp: calls_of_def record_call_def)
qed (rule push_inv)

section \<open>Properties\<close>

text \<open>
  The collector sits behind a mutex: whatever the threads do, it goes through a sequence of
  registrations and pushes.
\<close>

datatype coll_op = Register u32 u32 string | PushCall u32 api_call

fun apply_op :: "analysis_collector \<Rightarrow> coll_op \<Rightarrow> analysis_collector" where
  "apply_op c (Register pid parent name) = register_process c pid parent name"
| "apply_op c (PushCall pid call) = push_call c pid call"

definition run_ops :: "coll_op list \<Rightarrow> analysis_collector" where
  "run_ops ops = foldl apply_op empty_collector ops"

text \<open>What a process should have recorded: the calls pushed for it since it was first registered.\<close>

fun calls_for :: "u32 \<Rightarrow> api_call list option \<Rightarrow> coll_op list \<Rightarrow> api_call list option" where
  "calls_for pid acc [] = acc"
| "calls_for pid acc (Register p parent name # ops) =
     calls_for pid (if p = pid \<and> acc = None then Some [] else acc) ops"
| "calls_for pid acc (PushCall p call # ops) =
     calls_for pid (if p = pid then map_option (\<lambda>cs. cs @ [call]) acc else acc) ops"

lemma calls_of_register:
  "calls_of (register_process c p parent name) pid =
     (if p = pid \<and> calls_of c pid = None then Some [] else calls_of c pid)"
  by (simp add: calls_of_def)

lemma calls_of_foldl: "calls_of (foldl apply_op c ops) pid = calls_for pid (calls_of c pid) ops"
proof (induction ops arbitrary: c)
  case (Cons x ops)
  then show ?case by (cases x) (auto simp: calls_of_register sink.push_calls)
qed simp

lemma foldl_inv: "collector_inv c \<Longrightarrow> collector_inv (foldl apply_op c ops)"
proof (induction ops arbitrary: c)
  case (Cons x ops)
  then show ?case by (cases x) (simp_all add: register_inv push_inv)
qed simp

text \<open>C29: Whatever sequence of registrations and pushes the threads make, the collector's invariant
  holds: one entry per process id, under its own id, the orders of first sight are 0, 1, 2, ... without
  a gap, the thread ids are the sorted set of the thread ids of the recorded calls, and every link
  has a non-zero parent and a registered child.\<close>

theorem collector_always_ok: "collector_inv (run_ops ops)"
  by (simp add: run_ops_def foldl_inv collector_inv_empty)

text \<open>C9: The calls recorded for a process are exactly those pushed for it after its first registration,
  in the order they were pushed, however the pushes for other processes are interleaved with them and
  however often it is registered again; a process that was never registered has none, and calls pushed
  for it before are lost.\<close>

theorem collector_calls: "calls_of (run_ops ops) pid = calls_for pid None ops"
  by (simp add: run_ops_def calls_of_foldl) (simp add: calls_of_def empty_collector_def)

end
