(* ===== verification/Logserver.thy ===== *)
theory Logserver
  imports Bson_Frame Collector
begin

text \<open>
  \<open>crates/malbox-agent/src/pipes/logserver.rs\<close>: one reader per log pipe. It reads the header
  line, then frames until the pipe ends, and pushes every call into the shared collector under
  the process id of the header. A panic in \<open>process_doc\<close> ends only this reader: the collector
  keeps what was pushed before. The collector is locked for one push at a time.
\<close>

datatype loop_end =
    ConnectFailed u32
  | HeaderFailed io_error
  | PipeClosed
  | FrameFailed frame_error
  | ReaderPanicked

text \<open>The \<open>loop\<close> of \<open>read_loop\<close>; \<open>None\<close> if the reader never returns.\<close>

partial_function (option) frames_loop ::
    "('d, 'o) bson_crate \<Rightarrow> 's read_fn \<Rightarrow> 's \<Rightarrow> schema_registry \<Rightarrow> analysis_collector \<Rightarrow> u32 \<Rightarrow>
       (analysis_collector \<times> loop_end) option" where
  "frames_loop bc rd s reg coll pid =
     (case read_bson_frame bc rd s of
        None \<Rightarrow> None
      | Some p \<Rightarrow>
          (case fst p of
             Ok frame \<Rightarrow>
               (case frame of
                  None \<Rightarrow> Some (coll, PipeClosed)
                | Some doc \<Rightarrow>
                    (case snd (process_doc bc reg doc) of
                       Ok oc \<Rightarrow>
                         (case oc of
                            Some call \<Rightarrow>
                              frames_loop bc rd (snd p) (fst (process_doc bc reg doc))
                                (push_call coll pid call) pid
                          | None \<Rightarrow>
                              frames_loop bc rd (snd p) (fst (process_doc bc reg doc)) coll pid)
                     | Err e \<Rightarrow> Some (coll, ReaderPanicked)
                     | Panic \<Rightarrow> Some (coll, ReaderPanicked)))
           | Err e \<Rightarrow> Some (coll, FrameFailed e)
           | Panic \<Rightarrow> Some (coll, ReaderPanicked)))"

text \<open>The shadowing of the source is kept: from the header on, \<open>pid\<close> is the header's.\<close>

definition read_loop ::
    "('d, 'o) bson_crate \<Rightarrow> 's read_fn \<Rightarrow> (u32, unit) res \<Rightarrow> 's \<Rightarrow> analysis_collector \<Rightarrow> u32 \<Rightarrow>
       (analysis_collector \<times> loop_end) option" where
  "read_loop bc rd connected s coll pid =
     (case connected of
        Err e \<Rightarrow> Some (coll, ConnectFailed e)
      | Panic \<Rightarrow> Some (coll, ReaderPanicked)
      | Ok _ \<Rightarrow>
          (case read_header rd s of
             None \<Rightarrow> None
           | Some (r, s') \<Rightarrow>
               (case r of
                  Err e \<Rightarrow> Some (coll, HeaderFailed e)
                | Panic \<Rightarrow> Some (coll, ReaderPanicked)
                | Ok (proto, pid) \<Rightarrow> frames_loop bc rd s' Map.empty coll pid)))"

text \<open>
  \<open>spawn_reader\<close>: the pipe is created first, and only then is a thread started and its handle
  kept for \<open>drain_logservers\<close>. The name of the pipe is the prefix and the process id.
\<close>

definition log_pipe_name :: "string \<Rightarrow> u32 \<Rightarrow> string" where
  "log_pipe_name prefix pid = prefix @ show_dec (unat pid)"

definition spawn_reader :: "(string \<Rightarrow> (u32, 'h) res) \<Rightarrow> string \<Rightarrow> (u32 \<times> 'h) list \<Rightarrow> u32 \<Rightarrow>
    (u32, (u32 \<times> 'h) list) res" where
  "spawn_reader create prefix tasks pid =
     bind_res (create (log_pipe_name prefix pid)) (\<lambda>pipe. Ok (tasks @ [(pid, pipe)]))"

section \<open>The documents of a log, abstractly\<close>

text \<open>What a list of documents contributes: its calls in order, up to the first panic.\<close>

fun run_docs :: "('d, 'o) bson_crate \<Rightarrow> schema_registry \<Rightarrow> 'd list \<Rightarrow> api_call list \<times> bool" where
  "run_docs bc reg [] = ([], False)"
| "run_docs bc reg (d # ds) =
     (case snd (process_doc bc reg d) of
        Ok oc \<Rightarrow>
          (let (cs, p) = run_docs bc (fst (process_doc bc reg d)) ds
           in ((case oc of Some c \<Rightarrow> c # cs | None \<Rightarrow> cs), p))
      | _ \<Rightarrow> ([], True))"

definition frames_of :: "('d, 'o) bson_crate \<Rightarrow> u8 list list \<Rightarrow> 'd list \<Rightarrow> bool" where
  "frames_of bc fs ds \<longleftrightarrow> list_all2 (frame_ok bc) fs ds"

context byte_reader
begin

lemma frames_loop_docs:
  assumes "invar s" and "pending s = concat fs @ tail" and "list_all2 (frame_ok bc) fs ds"
    and "length tail < 4" and "fin s = None"
  shows "frames_loop bc rd s reg coll pid =
     Some (sink.push_all coll pid (fst (run_docs bc reg ds)),
           if snd (run_docs bc reg ds) then ReaderPanicked else PipeClosed)"
  using assms(3,1,2,5)
proof (induction fs ds arbitrary: s reg coll rule: list_all2_induct)
  case Nil
  then obtain s' where "read_bson_frame bc rd s = Some (Ok None, s')"
    using read_frame_eof [of s] assms(4) by auto
  then show ?case by (simp add: frames_loop.simps [of bc rd s] sink.push_all_def)
next
  case (Cons f fs d ds)
  from Cons.prems have "pending s = f @ (concat fs @ tail)" by simp
  from read_frame_ok [OF Cons.prems(1) this Cons.hyps(1)] obtain s' where
    s': "read_bson_frame bc rd s = Some (Ok (Some d), s')" "pending s' = concat fs @ tail"
      "fin s' = None" "invar s'"
    using Cons.prems(3) by auto
  note IH = Cons.IH [OF s'(4,2,3)]
  show ?case
    using s'(1)
    by (cases "snd (process_doc bc reg d)")
      (auto simp: frames_loop.simps [of bc rd s] IH sink.push_all_def split_beta Let_def
        split: option.splits)
qed

lemma frames_loop_returns:
  assumes "invar s"
  shows "\<exists>coll' e. frames_loop bc rd s reg coll pid = Some (coll', e)"
  using assms
proof (induction "length (pending s)" arbitrary: s reg coll rule: less_induct)
  case less
  obtain r s' where r: "read_bson_frame bc rd s = Some (r, s')" "invar s'" "r \<noteq> Panic"
    "\<And>d. r = Ok (Some d) \<Longrightarrow> length (pending s') < length (pending s)"
    using read_frame_returns [OF less.prems] by blast
  show ?case
  proof (cases "\<exists>d. r = Ok (Some d)")
    case True
    then obtain d where d: "r = Ok (Some d)" by blast
    note IH = less.hyps [OF r(4) [OF d] r(2)]
    show ?thesis
      using r(1) d IH
      by (cases "snd (process_doc bc reg d)")
        (auto simp: frames_loop.simps [of bc rd s] split: option.splits)
  next
    case False
    then show ?thesis
      using r(1) by (cases r) (auto simp: frames_loop.simps [of bc rd s] split: option.splits)
  qed
qed

lemma read_header_returns:
  assumes "invar s"
  obtains r s' where "read_header rd s = Some (r, s')" "invar s'" "r \<noteq> Panic"
proof (cases "10 \<in> set (pending s)")
  case False
  then show ?thesis
    using read_header_loop_eof [OF assms, of "[]"] that by (auto simp: read_header_def)
next
  case True
  then obtain a b where ab: "pending s = a @ 10 # b" "10 \<notin> set a"
    by (meson split_list_first)
  define h where "h = map char_of_u8 a"
  have u8: "u8_of_char (char_of_u8 x) = x" for x
    using unat_u8_less [of x] by (simp add: u8_of_char_def char_of_u8_def)
  then have "map u8_of_char h = a" by (simp add: h_def comp_def)
  with ab have "pending s = header_line h @ b" "CHR 0x0A \<notin> set h"
    by (auto simp: header_line_def h_def) (metis u8 u8_of_newline)
  from read_header_line [OF assms this] that show ?thesis by blast
qed

lemma read_loop_returns:
  assumes "invar s"
  shows "\<exists>coll' e. read_loop bc rd connected s coll pid = Some (coll', e)"
proof (cases connected)
  case (Ok x1)
  obtain r s' where r: "read_header rd s = Some (r, s')" "invar s'" "r \<noteq> Panic"
    using read_header_returns [OF assms] by blast
  show ?thesis
  proof (cases r)
    case (Ok h)
    then show ?thesis
      using r(1) \<open>connected = Ok x1\<close> frames_loop_returns [OF r(2)]
      by (cases h) (simp add: read_loop_def)
  qed (use r \<open>connected = Ok x1\<close> in \<open>auto simp: read_loop_def\<close>)
qed (simp_all add: read_loop_def)

lemma read_loop_docs:
  assumes "invar s" and "pending s = header_line h @ concat fs @ tail" and "CHR 0x0A \<notin> set h"
    and "list_all2 (frame_ok bc) fs ds" and "length tail < 4" and "fin s = None"
  shows "read_loop bc rd (Ok ()) s coll pid =
     Some (sink.push_all coll (snd (parse_header h)) (fst (run_docs bc Map.empty ds)),
           if snd (run_docs bc Map.empty ds) then ReaderPanicked else PipeClosed)"
proof -
  obtain s' where s': "read_header rd s = Some (Ok (parse_header h), s')"
    "pending s' = concat fs @ tail" "fin s' = None" "invar s'"
    using read_header_line [OF assms(1,2,3)] assms(6) by auto
  show ?thesis
    using s'(1) frames_loop_docs [OF s'(4,2) assms(4,5) s'(3)]
    by (cases "parse_header h") (simp add: read_loop_def)
qed

end

section \<open>Properties\<close>

text \<open>C1: A log that consists of a header line, complete BSON frames and fewer than four stray bytes is
  delivered in full and in order, however the pipe cuts it into reads: the reader pushes exactly the
  calls of the documents, each under the process id of the header, and ends with the pipe's end; only
  a document on which \<open>process_doc\<close> panics ends it earlier, after the calls before that document.\<close>

theorem log_delivered:
  assumes "win_read_file rf queued code valid" and "valid p" and "code p = ERROR_BROKEN_PIPE"
    and "queued p = header_line h @ concat fs @ tail" and "CHR 0x0A \<notin> set h"
    and "frames_of bc fs ds" and "length tail < 4"
  shows "read_loop bc (np_read rf) (Ok ()) p coll pid =
     Some (sink.push_all coll (snd (parse_header h)) (fst (run_docs bc Map.empty ds)),
           if snd (run_docs bc Map.empty ds) then ReaderPanicked else PipeClosed)"
  by (rule byte_reader.read_loop_docs [OF win_read_file.pipe_reader [OF assms(1)] assms(2,4,5)])
    (use assms(3,6,7) in \<open>simp_all add: frames_of_def pipe_fin_def\<close>)

definition example_frame :: "u8 \<Rightarrow> u8 list" where
  "example_frame n = [9, 0, 0, 0, n, 0, 0, 0, 0]"

definition example_pipe :: pipe_queue where
  "example_pipe = \<lparr>pq_writes =
     [[66, 83, 79], [78, 32, 55, 10, 9, 0], [0, 0, 0, 0, 0, 0, 0], example_frame 1, [1, 2]],
     pq_code = 109\<rparr>"

lemma example_pipe:
  "queue_valid example_pipe" "pq_code example_pipe = ERROR_BROKEN_PIPE"
  "queue_bytes example_pipe =
     header_line ''BSON 7'' @ concat [example_frame 0, example_frame 1] @ [1, 2]"
  "frames_of example_crate [example_frame 0, example_frame 1] [0, 1]"
  by (simp_all add: example_pipe_def queue_valid_def queue_bytes_def header_line_def u8_of_char_def
      frames_of_def frame_ok_def example_frame_def frame_len_def unat_u32_from_le example_crate_def
      ERROR_MORE_DATA_def ERROR_BROKEN_PIPE_def)

lemma example_run: "run_docs example_crate Map.empty [0, Suc 0] = ([example_call], False)"
  by simp

lemma example_header: "parse_header ''BSON 7'' = (''BSON'', 7)"
proof -
  have "show_dec (unat (7 :: u32)) = ''7''" by code_simp
  then show ?thesis
    using split_header [of "''BSON''" 7] parse_show_u32 [of 7]
    by (simp add: parse_header_def is_ws_def)
qed

theorem log_delivered_witness:
  "read_loop example_crate (np_read queue_read_file) (Ok ()) example_pipe
      (register_process empty_collector 7 0 ''a.exe'') 7 =
     Some (push_call (register_process empty_collector 7 0 ''a.exe'') 7 example_call, PipeClosed)"
  using log_delivered [OF win_pipe.win_read_file_axioms example_pipe(1,2,3) _ example_pipe(4)]
  by (simp add: example_run example_header sink.push_all_def del: run_docs.simps)



end
