(* ===== verification/Process.thy ===== *)
theory Process
  imports Monitor Logserver
begin

text \<open>
  \<open>crates/malbox-agent/src/process.rs\<close>: the handle on a monitored process. What Win32 answers is the
  record \<open>os_env\<close>. The state \<open>win_os\<close> holds the handles that the agent has open, so that it can be
  stated that no operation uses, closes or forgets a handle that it should not, what the agent did to
  processes, in order, the files of the guest, and the counter \<open>PROCESS_NUM\<close>.
\<close>

datatype handle = Null | Pseudo | Handle nat

record process =
  pr_pid :: u32
  pr_tid :: u32
  pr_h_process :: "handle option"
  pr_h_thread :: "handle option"
  pr_suspended :: bool

record creation =
  cr_path :: string
  cr_args :: string
  cr_flags :: u32
  cr_dir :: string

datatype os_event =
    Created u32 creation
  | Ran "string list"
  | Resumed handle
  | Terminated handle
  | EventSet "nat list"
  | MutexCreated string
  | Nudged string

record win_os =
  os_open :: "nat set"
  os_next :: nat
  os_events :: "os_event list"
  os_files :: files
  os_process_num :: u32

datatype image_answer = InvalidClass | QueryFailed | ImageName "nat list option"

record os_env =
  oe_current_pid :: u32
  oe_open_process :: "bool \<Rightarrow> u32 \<Rightarrow> bool"   \<comment> \<open>with all access, or only to query\<close>
  oe_open_thread :: "u32 \<Rightarrow> bool"
  oe_is_wow64 :: "handle \<Rightarrow> bool \<times> bool"      \<comment> \<open>success and the flag\<close>
  oe_exit_code :: "handle \<Rightarrow> u32 option"
  oe_resume :: "handle \<Rightarrow> u32"
  oe_create :: "creation \<Rightarrow> (u32, u32 \<times> u32) res"
  oe_exists :: "string \<Rightarrow> bool"
  oe_image :: "handle \<Rightarrow> image_answer"              \<comment> \<open>the 16-bit units of the name, if there is one\<close>
  oe_new_file :: "string \<Rightarrow> bool"
  oe_line_cut :: "nat \<Rightarrow> nat option"                \<comment> \<open>a line whose write fails, and the bytes written\<close>
  oe_startup :: nat                               \<comment> \<open>the random number from 1 to 30\<close>
  oe_run :: "string list \<Rightarrow> (string, u32 option) res"

type_synonym error = string

section \<open>Handles\<close>

definition new_handle :: "win_os \<Rightarrow> handle \<times> win_os" where
  "new_handle os = (Handle (os_next os), os\<lparr>os_open := insert (os_next os) (os_open os), os_next := Suc (os_next os)\<rparr>)"

definition emit :: "os_event \<Rightarrow> win_os \<Rightarrow> win_os" where
  "emit e os = os\<lparr>os_events := os_events os @ [e]\<rparr>"

definition close_handle :: "handle \<Rightarrow> win_os \<Rightarrow> bool \<times> win_os" where
  "close_handle h os = (case h of
       Handle n \<Rightarrow> (if n \<in> os_open os then (True, os\<lparr>os_open := os_open os - {n}\<rparr>) else (False, os))
     | Pseudo \<Rightarrow> (True, os)
     | Null \<Rightarrow> (False, os))"

section \<open>Opening\<close>

definition open_process_handle :: "os_env \<Rightarrow> u32 \<Rightarrow> win_os \<Rightarrow> handle \<times> win_os" where
  "open_process_handle env pid os =
     (if pid = oe_current_pid env then (Pseudo, os)
      else if oe_open_process env True pid then new_handle os
      else if oe_open_process env False pid then new_handle os
      else (Null, os))"

definition open_thread_part :: "os_env \<Rightarrow> process \<Rightarrow> win_os \<Rightarrow> bool \<Rightarrow> process \<times> win_os \<times> (error, bool) res" where
  "open_thread_part env p os ret =
     (if pr_tid p \<noteq> 0 \<and> pr_h_thread p = None then
        (case (if oe_open_thread env (pr_tid p) then new_handle os else (Null, os)) of (h, os') \<Rightarrow>
          (p\<lparr>pr_h_thread := Some h\<rparr>, os',
           if h = Null
           then Err (''OpenThread(THREAD_ALL_ACCESS, ...) failed for thread '' @ show_dec (unat (pr_tid p)))
           else Ok True))
      else (p, os, Ok ret))"

definition open_process :: "os_env \<Rightarrow> process \<Rightarrow> win_os \<Rightarrow> process \<times> win_os \<times> (error, bool) res" where
  "open_process env p os =
     (let ret = (pr_pid p \<noteq> 0 \<or> pr_tid p \<noteq> 0)
      in if pr_pid p \<noteq> 0 \<and> pr_h_process p = None then
           (case open_process_handle env (pr_pid p) os of (h, os1) \<Rightarrow>
             (let p1 = p\<lparr>pr_h_process := Some h\<rparr>
              in if h = Null then (p1, os1, Err (''failed to open process '' @ show_dec (unat (pr_pid p))))
                 else open_thread_part env p1 os1 True))
         else open_thread_part env p os ret)"

definition is_64bit :: "os_env \<Rightarrow> process \<Rightarrow> (error, bool) res" where
  "is_64bit env p = (case pr_h_process p of
       Some h \<Rightarrow>
         (if h \<noteq> Null then (case oe_is_wow64 env h of (ret, is_wow64) \<Rightarrow> Ok (ret \<and> \<not> is_wow64))
          else Err (''the process of id '' @ show_dec (unat (pr_pid p)) @ '' does not have an open handle.''))
     | None \<Rightarrow> Err (''the process of id '' @ show_dec (unat (pr_pid p)) @ '' does not have an open handle.''))"

section \<open>Starting\<close>

unbundle bit_operations_syntax

definition CREATE_NEW_CONSOLE :: u32 where "CREATE_NEW_CONSOLE = 16"
definition CREATE_SUSPENDED :: u32 where "CREATE_SUSPENDED = 4"

definition creation_of :: "string \<Rightarrow> string option \<Rightarrow> bool \<Rightarrow> creation" where
  "creation_of path args suspended =
     \<lparr>cr_path = path,
      cr_args = [CHR 0x22] @ path @ [CHR 0x22, CHR '' ''] @ (case args of Some a \<Rightarrow> a | None \<Rightarrow> []),
      cr_flags = (if suspended then CREATE_NEW_CONSOLE OR CREATE_SUSPENDED else CREATE_NEW_CONSOLE),
      cr_dir = ''C:'' @ [CHR 0x5C] @ ''Users'' @ [CHR 0x5C] @ ''mohamed'' @ [CHR 0x5C] @ ''Desktop'' @ [CHR 0x5C] @ ''sample''\<rparr>"

definition execute ::
    "os_env \<Rightarrow> string \<Rightarrow> string option \<Rightarrow> bool \<Rightarrow> process \<Rightarrow> win_os \<Rightarrow> process \<times> win_os \<times> (error, unit) res" where
  "execute env path args suspended p os =
     (if \<not> oe_exists env path then (p, os, Err (''failed to access file at path '' @ path))
      else
        (let p1 = (if suspended then p\<lparr>pr_suspended := True\<rparr> else p)
         in case oe_create env (creation_of path args suspended) of
              Ok (pid, tid) \<Rightarrow>
                (case new_handle os of (hp, os1) \<Rightarrow>
                  (case new_handle os1 of (ht, os2) \<Rightarrow>
                    (p1\<lparr>pr_pid := pid, pr_h_process := Some hp, pr_tid := tid, pr_h_thread := Some ht\<rparr>,
                     emit (Created pid (creation_of path args suspended)) os2, Ok ())))
            | Err e \<Rightarrow>
                (p1, os, Err (''Failed to execute process from path '' @ [CHR 0x22] @ path @ [CHR 0x22] @
                              '' (Error Code: '' @ show_dec (unat e) @ '')''))
            | Panic \<Rightarrow> (p1, os, Panic)))"

section \<open>Watching\<close>

definition STILL_ACTIVE :: u32 where "STILL_ACTIVE = 259"

definition has_handle :: "process \<Rightarrow> bool" where
  "has_handle p = (case pr_h_process p of None \<Rightarrow> False | Some h \<Rightarrow> h \<noteq> Null)"

definition exit_code :: "os_env \<Rightarrow> process \<Rightarrow> win_os \<Rightarrow> process \<times> win_os \<times> (error, u32 option) res" where
  "exit_code env p os =
     (case (if has_handle p then (p, os, Ok True) else open_process env p os) of (p1, os1, _) \<Rightarrow>
       (p1, os1, bind_res (unwrap (pr_h_process p1)) (\<lambda>h. Ok (oe_exit_code env h))))"

definition is_alive :: "os_env \<Rightarrow> process \<Rightarrow> win_os \<Rightarrow> process \<times> win_os \<times> (error, bool) res" where
  "is_alive env p os =
     (case exit_code env p os of (p1, os1, r) \<Rightarrow>
       (p1, os1, bind_res r (\<lambda>code. Ok (case code of Some c \<Rightarrow> c = STILL_ACTIVE | None \<Rightarrow> False))))"

section \<open>Resuming and closing\<close>

definition resume :: "os_env \<Rightarrow> process \<Rightarrow> win_os \<Rightarrow> process \<times> win_os \<times> (error, bool) res" where
  "resume env p os =
     (if \<not> pr_suspended p then (p, os, Ok False)
      else (case pr_h_thread p of
          None \<Rightarrow> (p, os, Err ''thread handle is not open'')
        | Some h \<Rightarrow>
            (if oe_resume env h \<noteq> - 1 then (p\<lparr>pr_suspended := False\<rparr>, emit (Resumed h) os, Ok True)
             else (p, os, Err (''failed to resume process '' @ show_dec (unat (pr_pid p)))))))"

definition close :: "process \<Rightarrow> win_os \<Rightarrow> process \<times> win_os \<times> (error, unit) res" where
  "close p os =
     (let p1 = p\<lparr>pr_h_process := None\<rparr>;
          (ok1, os1) = (case pr_h_process p of Some h \<Rightarrow> close_handle h os | None \<Rightarrow> (True, os))
      in if \<not> ok1 then (p1, os1, Err (''could not close process handle: '' @ show_dec (unat (pr_pid p))))
         else
           (let p2 = p1\<lparr>pr_h_thread := None\<rparr>;
                (ok2, os2) = (case pr_h_thread p of Some h \<Rightarrow> close_handle h os1 | None \<Rightarrow> (True, os1))
            in if \<not> ok2 then (p2, os2, Err (''could not close thread handle: '' @ show_dec (unat (pr_tid p))))
               else (p2, os2, Ok ())))"

definition terminate_and_close :: "process \<Rightarrow> win_os \<Rightarrow> process \<times> win_os" where
  "terminate_and_close p os =
     (let os1 = (case pr_h_process p of
                   Some h \<Rightarrow> if h \<noteq> Null then snd (close_handle h (emit (Terminated h) os)) else os
                 | None \<Rightarrow> os);
          os2 = (case pr_h_thread p of Some h \<Rightarrow> if h \<noteq> Null then snd (close_handle h os1) else os1 | None \<Rightarrow> os1)
      in (p\<lparr>pr_h_process := None, pr_h_thread := None, pr_suspended := False\<rparr>, os2))"

text \<open>The name of the image, decoded from UTF-16; a lone surrogate becomes the replacement character.\<close>

fun utf16_lossy :: "nat list \<Rightarrow> nat list" where
  "utf16_lossy (u # v # us) =
     (if 0xD800 \<le> u \<and> u < 0xDC00 \<and> 0xDC00 \<le> v \<and> v < 0xE000
      then (0x10000 + (u - 0xD800) * 1024 + (v - 0xDC00)) # utf16_lossy us
      else (if 0xD800 \<le> u \<and> u < 0xE000 then 0xFFFD else u) # utf16_lossy (v # us))"
| "utf16_lossy [u] = [if 0xD800 \<le> u \<and> u < 0xE000 then 0xFFFD else u]"
| "utf16_lossy [] = []"

definition get_filepath :: "os_env \<Rightarrow> process \<Rightarrow> win_os \<Rightarrow> process \<times> win_os \<times> (error, nat list) res" where
  "get_filepath env p os =
     (case (if has_handle p then (p, os, Ok True) else open_process env p os) of (p1, os1, _) \<Rightarrow>
       (p1, os1, bind_res (unwrap (pr_h_process p1)) (\<lambda>h. Ok (case oe_image env h of
            ImageName (Some us) \<Rightarrow> utf16_lossy us
          | _ \<Rightarrow> []))))"

section \<open>Injecting the monitor\<close>

definition terminate_event_name :: "string \<Rightarrow> u32 \<Rightarrow> string" where
  "terminate_event_name prefix pid = prefix @ show_dec (unat pid)"

definition config_lines ::
    "monitor_state \<Rightarrow> u32 \<Rightarrow> bool \<Rightarrow> nat \<Rightarrow> string \<Rightarrow> bool \<Rightarrow> (string \<times> string) list" where
  "config_lines st pid firstproc startup interest_str force =
     [(''host-ip'', ''127.0.0.1''), (''host-port'', ''5000''), (''pipe'', ms_command_pipe st),
      (''logserver'', ms_log_pipe_prefix st @ show_dec (unat pid)),
      (''results'', upload_dir @ [bslash] @ ''results''), (''analyzer'', upload_dir), (''pythonpath'', []),
      (''first-process'', if firstproc then ''1'' else ''0''),
      (''startup-time'', show_dec (startup * 20 * 60 * 1000)), (''file-of-interest'', interest_str),
      (''shutdown-mutex'', ms_shutdown_mutex st),
      (''terminate-event'', terminate_event_name (ms_terminate_event_prefix st) pid)] @
     (if force then [(''force-sleepskip'', ''0'')] else [])"

text \<open>A failed \<open>writeln!\<close> is ignored: what was written of its line stays, and the next line follows.\<close>

definition write_lines :: "(nat \<Rightarrow> nat option) \<Rightarrow> (string \<times> string) list \<Rightarrow> u8 list" where
  "write_lines stop ls = concat (map (\<lambda>(k, key, val).
       let bytes = utf8 (config_line key val)
       in case stop k of None \<Rightarrow> bytes | Some n \<Rightarrow> take n bytes) (enumerate 0 ls))"

definition write_monitor_config ::
    "os_env \<Rightarrow> process \<Rightarrow> string option \<Rightarrow> bool \<Rightarrow> monitor_state \<Rightarrow> win_os \<Rightarrow> win_os \<times> (error, unit) res" where
  "write_monitor_config env p interest nosleepskip st os =
     (let config_path = win_join (mb_work_dir (ms_binaries st))
            (''dll'' @ [bslash] @ show_dec (unat (pr_pid p)) @ ''.ini'');
          firstproc = (os_process_num os = 0);
          os1 = os\<lparr>os_process_num := os_process_num os + 1\<rparr>;
          interest_str = (case interest of None \<Rightarrow> [] | Some s \<Rightarrow> s);
          force = (\<not> nosleepskip \<and> 2 < utf8_len interest_str \<and> \<not> begins [bslash, CHR '':''] interest_str \<and>
                   os_process_num os1 \<le> 2)
      in if \<not> oe_new_file env config_path then (os1, Panic)
         else (os1\<lparr>os_files := (os_files os1)(config_path \<mapsto> write_lines (oe_line_cut env)
                 (config_lines st (pr_pid p) firstproc (oe_startup env) interest_str force))\<rparr>, Ok ()))"

definition show_status :: "u32 \<Rightarrow> string" where
  "show_status c = ''exit code: '' @
     (if c AND 0x80000000 \<noteq> 0 then ''0x'' @ show_hex (unat c) else show_dec (unat c))"

definition run_loader ::
    "os_env \<Rightarrow> process \<Rightarrow> string \<Rightarrow> string \<Rightarrow> string \<Rightarrow> win_os \<Rightarrow> win_os \<times> (error, unit) res" where
  "run_loader env p loader_name dll bit_str os =
     (let command = [loader_name, ''inject'', show_dec (unat (pr_pid p)), show_dec (unat (pr_tid p)), dll]
      in case oe_run env command of
           Ok status \<Rightarrow> (emit (Ran command) os,
             (case status of
                None \<Rightarrow> Panic
              | Some c \<Rightarrow> if c = 1 then Ok ()
                          else Err (''Unable to inject into '' @ bit_str @ '' process '' @
                                    show_dec (unat (pr_pid p)) @ '', error: '' @ show_status c)))
         | Err e \<Rightarrow> (os, Err (''Error running process: '' @ e))
         | Panic \<Rightarrow> (os, Panic))"

definition inject_with ::
    "os_env \<Rightarrow> process \<Rightarrow> string option \<Rightarrow> bool \<Rightarrow> monitor_state \<Rightarrow> win_os \<Rightarrow> win_os \<times> (error, unit) res" where
  "inject_with env p interest nosleepskip st os = (case is_64bit env p of
       Ok is64 \<Rightarrow>
         (let b = ms_binaries st;
              loader_name = (if is64 then mb_loader64 b else mb_loader32 b);
              dll = (if is64 then mb_capemon64 b else mb_capemon32 b);
              bit_str = (if is64 then ''64-bit'' else ''32-bit'')
          in if \<not> oe_exists env loader_name then
               (os, Err (''invalid loader path '' @ loader_name @ '' for injecting DLL, injection aborted''))
             else if \<not> oe_exists env dll then
               (os, Err (''invalid path '' @ dll @ '' for monitor DLL to be injected, injection aborted''))
             else (case write_monitor_config env p interest nosleepskip st os of (os1, r) \<Rightarrow>
               (case r of
                  Ok _ \<Rightarrow> run_loader env p loader_name dll bit_str os1
                | Err e \<Rightarrow> (os1, Err (''Failed to write monitor config:'' @ [CHR 0x0A] @ ''  '' @ e))
                | Panic \<Rightarrow> (os1, Panic))))
     | _ \<Rightarrow> (os, Panic))"

definition inject ::
    "os_env \<Rightarrow> string option \<Rightarrow> bool \<Rightarrow> monitor_state \<Rightarrow> process \<Rightarrow> win_os \<Rightarrow>
       process \<times> win_os \<times> (error, unit) res" where
  "inject env interest nosleepskip st p os =
     (if pr_pid p = 0 then (p, os, Err ''invalid PID'')
      else (case is_alive env p os of (p1, os1, alive) \<Rightarrow>
        (case alive of
           Ok a \<Rightarrow>
             (if \<not> a then (p1, os1, Err (''the process '' @ show_dec (unat (pr_pid p1)) @
                                          '' is not alive, injection aborted''))
              else (case (if pr_h_process p1 = None then open_process env p1 os1 else (p1, os1, Ok True)) of
                (p2, os2, opened) \<Rightarrow>
                  (case opened of
                     Ok o2 \<Rightarrow>
                       (if \<not> o2 then (p2, os2, Err (''failed to open process '' @ show_dec (unat (pr_pid p2)) @ '' handle''))
                        else (p2, inject_with env p2 interest nosleepskip st os2))
                   | Err e \<Rightarrow> (p2, os2, Err (''failed to open process '' @ show_dec (unat (pr_pid p2)) @ '' handle: '' @ e))
                   | Panic \<Rightarrow> (p2, os2, Panic))))
         | Err e \<Rightarrow> (p1, os1, Err e)
         | Panic \<Rightarrow> (p1, os1, Panic))))"

text \<open>\<open>set_terminate_event\<close>: \<open>OpenEventW\<close> is given the 8-bit text of a \<open>CString\<close> and reads it as 16-bit
  units up to a zero unit; the terminator of the text is one byte, and what lies \<open>beyond\<close> it in memory is
  read too.\<close>

fun bytes_as_units :: "nat list \<Rightarrow> nat list" where
  "bytes_as_units (a # b # bs) = (a + 256 * b) # bytes_as_units bs"
| "bytes_as_units bs = bs"

definition event_units :: "nat list \<Rightarrow> string \<Rightarrow> nat list" where
  "event_units beyond name = takeWhile (\<lambda>u. u \<noteq> 0) (bytes_as_units (map unat (utf8 name) @ [0] @ beyond))"

definition set_terminate_event ::
    "nat list \<Rightarrow> (nat list \<Rightarrow> bool) \<Rightarrow> string \<Rightarrow> process \<Rightarrow> win_os \<Rightarrow> win_os \<times> (error, unit) res" where
  "set_terminate_event beyond opens terminate_event_prefix p os =
     (let event_name = terminate_event_name terminate_event_prefix (pr_pid p)
      in if CHR 0x00 \<in> set event_name then
           (os, Err (''nul byte found in provided data at position: '' @
                     show_dec (utf8_len (takeWhile (\<lambda>c. c \<noteq> CHR 0x00) event_name))))
         else if opens (event_units beyond event_name) then
           (emit (EventSet (event_units beyond event_name)) os, Ok ())
         else (os, Ok ()))"

section \<open>No handle is forgotten or closed twice\<close>

fun handle_set :: "handle option \<Rightarrow> nat set" where
  "handle_set (Some (Handle n)) = {n}"
| "handle_set _ = {}"

text \<open>\<open>others\<close> are the handles that the agent has open for other purposes.\<close>

definition handles_ok :: "nat set \<Rightarrow> process \<Rightarrow> win_os \<Rightarrow> bool" where
  "handles_ok others p os \<longleftrightarrow>
     os_open os = others \<union> handle_set (pr_h_process p) \<union> handle_set (pr_h_thread p) \<and>
     others \<inter> (handle_set (pr_h_process p) \<union> handle_set (pr_h_thread p)) = {} \<and>
     handle_set (pr_h_process p) \<inter> handle_set (pr_h_thread p) = {} \<and>
     (\<forall>n \<in> os_open os. n < os_next os)"

lemma handle_cases:
  obtains "h = None" "handle_set h = {}" | "h = Some Null" "handle_set h = {}"
    | "h = Some Pseudo" "handle_set h = {}" | n where "h = Some (Handle n)" "handle_set h = {n}"
proof (cases h)
  case (Some x)
  then show ?thesis using that by (cases x) auto
qed (use that in simp)

lemma open_thread_ok:
  assumes "handles_ok others p os" and "open_thread_part env p os ret = (p', os', r)"
  shows "handles_ok others p' os'"
proof (cases "pr_tid p \<noteq> 0 \<and> pr_h_thread p = None")
  case False
  then show ?thesis using assms by (auto simp: open_thread_part_def)
next
  case True
  show ?thesis
  proof (cases "oe_open_thread env (pr_tid p)")
    case opened: True
    have "os_next os \<notin> os_open os" using assms(1) by (auto simp: handles_ok_def)
    then show ?thesis using True opened assms
      by (auto simp: open_thread_part_def new_handle_def handles_ok_def less_Suc_eq)
  next
    case False
    then show ?thesis using True assms by (auto simp: open_thread_part_def handles_ok_def)
  qed
qed

lemma open_handle_ok:
  assumes "handles_ok others p os" and "pr_h_process p = None"
    and "open_process_handle env pid os = (h, os')"
  shows "handles_ok others (p\<lparr>pr_h_process := Some h\<rparr>) os'"
proof -
  have "os_next os \<notin> os_open os" using assms(1) by (auto simp: handles_ok_def)
  then show ?thesis using assms
    by (auto simp: open_process_handle_def new_handle_def handles_ok_def less_Suc_eq split: if_splits)
qed

lemma open_process_ok:
  assumes "handles_ok others p os" and "open_process env p os = (p', os', r)"
  shows "handles_ok others p' os'"
proof (cases "pr_pid p \<noteq> 0 \<and> pr_h_process p = None")
  case False
  then show ?thesis using assms open_thread_ok by (auto simp: open_process_def Let_def)
next
  case True
  obtain h os1 where h: "open_process_handle env (pr_pid p) os = (h, os1)"
    by (cases "open_process_handle env (pr_pid p) os")
  have ok: "handles_ok others (p\<lparr>pr_h_process := Some h\<rparr>) os1"
    using True by (intro open_handle_ok [OF assms(1) _ h]) simp
  show ?thesis
  proof (cases "h = Null")
    case null: True
    then show ?thesis using True h ok assms(2) by (simp add: open_process_def)
  next
    case False
    then have "open_thread_part env (p\<lparr>pr_h_process := Some h\<rparr>) os1 True = (p', os', r)"
      using True h assms(2) by (simp add: open_process_def)
    from open_thread_ok [OF ok this] show ?thesis .
  qed
qed

lemma exit_code_ok:
  assumes "handles_ok others p os" and "exit_code env p os = (p', os', r)"
  shows "handles_ok others p' os'"
  using assms open_process_ok by (auto simp: exit_code_def split: prod.splits if_splits)

lemma is_alive_ok:
  assumes "handles_ok others p os" and "is_alive env p os = (p', os', r)"
  shows "handles_ok others p' os'"
  using assms exit_code_ok by (auto simp: is_alive_def split: prod.splits)

lemma close_handle_set:
  "close_handle h os = (ok, os') \<Longrightarrow> os_open os' = os_open os - handle_set (Some h) \<and> os_next os' = os_next os"
  by (cases h) (auto simp: close_handle_def split: if_splits)

lemma close_ok:
  assumes "handles_ok others p os" and "close p os = (p', os', r)"
  shows "handles_ok others p' os' \<and> (r = Ok () \<longrightarrow> os_open os' = others)"
proof -
  obtain ok1 os1 where c1: "(case pr_h_process p of Some h \<Rightarrow> close_handle h os | None \<Rightarrow> (True, os)) = (ok1, os1)"
    by (metis surj_pair)
  have o1: "os_open os1 = os_open os - handle_set (pr_h_process p) \<and> os_next os1 = os_next os"
    using c1 close_handle_set by (cases "pr_h_process p") auto
  obtain ok2 os2 where c2: "(case pr_h_thread p of Some h \<Rightarrow> close_handle h os1 | None \<Rightarrow> (True, os1)) = (ok2, os2)"
    by (metis surj_pair)
  have o2: "os_open os2 = os_open os1 - handle_set (pr_h_thread p) \<and> os_next os2 = os_next os1"
    using c2 close_handle_set by (cases "pr_h_thread p") auto
  show ?thesis
  proof (cases ok1)
    case False
    then have "p' = p\<lparr>pr_h_process := None\<rparr>" "os' = os1" "r \<noteq> Ok ()"
      using assms(2) c1 by (auto simp: close_def Let_def)
    then show ?thesis using assms(1) o1 by (auto simp: handles_ok_def)
  next
    case True
    then have "p' = p\<lparr>pr_h_process := None, pr_h_thread := None\<rparr>" "os' = os2"
      using assms(2) c1 c2 by (auto simp: close_def Let_def split: if_splits)
    then show ?thesis using assms(1) o1 o2 by (auto simp: handles_ok_def)
  qed
qed

lemma emit_simps [simp]:
  "os_open (emit e os) = os_open os" "os_next (emit e os) = os_next os"
  "os_files (emit e os) = os_files os" "os_process_num (emit e os) = os_process_num os"
  "os_events (emit e os) = os_events os @ [e]"
  "handles_ok others p (emit e os) = handles_ok others p os"
  by (simp_all add: emit_def handles_ok_def)

lemma snd_close_handle [simp]:
  "os_open (snd (close_handle h os)) = os_open os - handle_set (Some h)"
  "os_next (snd (close_handle h os)) = os_next os"
  using close_handle_set [of h os, OF prod.collapse [symmetric]] by blast+

lemma terminate_ok:
  assumes "handles_ok others p os" and "terminate_and_close p os = (p', os')"
  shows "handles_ok others p' os' \<and> os_open os' = others"
proof -
  define os1 where "os1 = (case pr_h_process p of
      Some h \<Rightarrow> if h \<noteq> Null then snd (close_handle h (emit (Terminated h) os)) else os | None \<Rightarrow> os)"
  define os2 where "os2 = (case pr_h_thread p of
      Some h \<Rightarrow> if h \<noteq> Null then snd (close_handle h os1) else os1 | None \<Rightarrow> os1)"
  have o1: "os_open os1 = os_open os - handle_set (pr_h_process p)" "os_next os1 = os_next os"
    by (auto simp: os1_def split: option.split)
  have o2: "os_open os2 = os_open os1 - handle_set (pr_h_thread p)" "os_next os2 = os_next os1"
    by (auto simp: os2_def split: option.split)
  have "p' = p\<lparr>pr_h_process := None, pr_h_thread := None, pr_suspended := False\<rparr>" "os' = os2"
    using assms(2) unfolding terminate_and_close_def Let_def os2_def os1_def by simp_all
  then show ?thesis using assms(1) o1 o2 by (auto simp: handles_ok_def)
qed

lemma new_handle_ok:
  assumes "handles_ok others p os" and "new_handle os = (h, os')"
  shows "pr_h_process p = None \<Longrightarrow> handles_ok others (p\<lparr>pr_h_process := Some h\<rparr>) os'"
    "pr_h_thread p = None \<Longrightarrow> handles_ok others (p\<lparr>pr_h_thread := Some h\<rparr>) os'"
proof -
  have "os_next os \<notin> os_open os" using assms(1) by (auto simp: handles_ok_def)
  then show "pr_h_process p = None \<Longrightarrow> handles_ok others (p\<lparr>pr_h_process := Some h\<rparr>) os'"
    "pr_h_thread p = None \<Longrightarrow> handles_ok others (p\<lparr>pr_h_thread := Some h\<rparr>) os'"
    using assms by (auto simp: new_handle_def handles_ok_def less_Suc_eq)
qed

lemma handles_ok_fields:
  "pr_h_process q = pr_h_process p \<Longrightarrow> pr_h_thread q = pr_h_thread p \<Longrightarrow>
     handles_ok others q os = handles_ok others p os"
  by (simp add: handles_ok_def)

lemma execute_ok:
  assumes "handles_ok others p os" and "pr_h_process p = None" and "pr_h_thread p = None"
    and "execute env path args susp p os = (p', os', r)"
  shows "handles_ok others p' os'"
proof -
  define p1 where "p1 = (if susp then p\<lparr>pr_suspended := True\<rparr> else p)"
  have h: "pr_h_process p1 = None" "pr_h_thread p1 = None" and ok: "handles_ok others p1 os"
    using assms(1-3) handles_ok_fields [of p1 p] by (simp_all add: p1_def)
  obtain hp os1 where n1: "new_handle os = (hp, os1)" by (cases "new_handle os")
  obtain ht os2 where n2: "new_handle os1 = (ht, os2)" by (cases "new_handle os1")
  have "handles_ok others (p1\<lparr>pr_h_process := Some hp\<rparr>) os1" using new_handle_ok(1) [OF ok n1 h(1)] .
  from new_handle_ok(2) [OF this n2] have
    both: "handles_ok others (p1\<lparr>pr_h_process := Some hp, pr_h_thread := Some ht\<rparr>) os2" using h by simp
  consider "p' = p" "os' = os" | "p' = p1" "os' = os"
    | pid tid where "p' = p1\<lparr>pr_pid := pid, pr_h_process := Some hp, pr_tid := tid, pr_h_thread := Some ht\<rparr>"
        "os' = emit (Created pid (creation_of path args susp)) os2"
    using assms(4) n1 n2 unfolding execute_def p1_def [symmetric] Let_def
    by (auto split: if_splits res.splits prod.splits)
  then show ?thesis
  proof cases
    case 3
    then show ?thesis using both by (simp add: handles_ok_def)
  qed (use assms(1) ok in auto)
qed

lemma write_monitor_config_os:
  "write_monitor_config env p i n st os = (os', r) \<Longrightarrow> os_open os' = os_open os \<and> os_next os' = os_next os \<and>
     os_events os' = os_events os"
  by (auto simp: write_monitor_config_def Let_def split: if_splits)

lemma run_loader_os:
  "run_loader env p l d b os = (os', r) \<Longrightarrow> os_open os' = os_open os \<and> os_next os' = os_next os"
  by (auto simp: run_loader_def Let_def split: res.splits)

lemma inject_with_os:
  assumes "inject_with env p i n st os = (os', r)"
  shows "os_open os' = os_open os \<and> os_next os' = os_next os"
proof (cases "write_monitor_config env p i n st os")
  case (Pair os1 r1)
  note w = write_monitor_config_os [OF Pair]
  show ?thesis using assms w Pair run_loader_os unfolding inject_with_def Let_def
    by (fastforce split: res.splits if_splits)
qed

lemma handles_ok_os:
  "os_open os' = os_open os \<Longrightarrow> os_next os' = os_next os \<Longrightarrow> handles_ok others p os' = handles_ok others p os"
  by (simp add: handles_ok_def)

lemma get_filepath_ok:
  assumes "handles_ok others p os" and "get_filepath env p os = (p', os', r)"
  shows "handles_ok others p' os'"
  using assms open_process_ok by (auto simp: get_filepath_def split: prod.splits if_splits)

lemma resume_ok:
  assumes "handles_ok others p os" and "resume env p os = (p', os', r)"
  shows "handles_ok others p' os'"
  using assms handles_ok_fields [of "p\<lparr>pr_suspended := False\<rparr>" p]
  by (auto simp: resume_def split: if_splits option.splits)

lemma inject_ok:
  assumes "handles_ok others p os" and "inject env i n st p os = (p', os', r)"
  shows "handles_ok others p' os'"
proof (cases "pr_pid p = 0")
  case True
  then show ?thesis using assms by (simp add: inject_def)
next
  case pid: False
  obtain p1 os1 alive where a: "is_alive env p os = (p1, os1, alive)" by (cases "is_alive env p os")
  have ok1: "handles_ok others p1 os1" by (rule is_alive_ok [OF assms(1) a])
  obtain p2 os2 opened where o2: "(if pr_h_process p1 = None then open_process env p1 os1
      else (p1, os1, Ok True)) = (p2, os2, opened)"
    by (metis prod_cases3)
  have ok2: "handles_ok others p2 os2"
    using o2 ok1 open_process_ok by (auto split: if_splits)
  obtain os3 r3 where w: "inject_with env p2 i n st os2 = (os3, r3)" by (cases "inject_with env p2 i n st os2")
  have ok3: "handles_ok others p2 os3"
    using ok2 handles_ok_os inject_with_os [OF w] by blast
  have "(p', os') \<in> {(p1, os1), (p2, os2), (p2, os3)}"
    using assms(2) pid unfolding inject_def a o2 prod.case w by (auto split: res.splits if_splits)
  then show ?thesis using ok1 ok2 ok3 by blast
qed

text \<open>Which operations leave a trace.\<close>

lemma open_process_quiet: "open_process env p os = (p', os', r) \<Longrightarrow> os_events os' = os_events os"
  by (auto simp: open_process_def open_process_handle_def open_thread_part_def new_handle_def Let_def
      split: if_splits prod.splits)

lemma exit_code_quiet: "exit_code env p os = (p', os', r) \<Longrightarrow> os_events os' = os_events os"
  using open_process_quiet by (auto simp: exit_code_def split: if_splits prod.splits)

lemma is_alive_quiet: "is_alive env p os = (p', os', r) \<Longrightarrow> os_events os' = os_events os"
  using exit_code_quiet by (auto simp: is_alive_def split: prod.splits)

lemma close_handle_quiet: "close_handle h os = (ok, os') \<Longrightarrow> os_events os' = os_events os"
  by (auto simp: close_handle_def split: handle.splits if_splits)

lemma close_quiet: "close p os = (p', os', r) \<Longrightarrow> os_events os' = os_events os"
  using close_handle_quiet by (auto simp: close_def Let_def split: option.splits if_splits prod.splits)

lemma terminate_events:
  "terminate_and_close p os = (p', os') \<Longrightarrow>
     os_events os' = os_events os @ (case pr_h_process p of
        Some h \<Rightarrow> if h \<noteq> Null then [Terminated h] else [] | None \<Rightarrow> [])"
proof -
  assume t: "terminate_and_close p os = (p', os')"
  have q: "os_events (snd (close_handle h o1)) = os_events o1" for h o1
    using close_handle_quiet [of h o1] by (metis prod.collapse)
  from t show ?thesis by (auto simp: terminate_and_close_def Let_def q split: option.splits)
qed

lemma execute_events:
  "execute env path args susp p os = (p', os', r) \<Longrightarrow>
     os_events os' = os_events os @ (if r = Ok () then [Created (pr_pid p') (creation_of path args susp)] else []) \<and>
     (r = Ok () \<longrightarrow> pr_suspended p' = (susp \<or> pr_suspended p))"
  by (auto simp: execute_def Let_def new_handle_def split: if_splits res.splits prod.splits)

lemma resume_events:
  "resume env p os = (p', os', r) \<Longrightarrow> os_events os' = os_events os \<or>
     (\<exists>h. pr_h_thread p = Some h \<and> pr_suspended p \<and> os_events os' = os_events os @ [Resumed h])"
  by (auto simp: resume_def split: if_splits option.splits)

lemma resume_ids: "resume env p os = (p', os', r) \<Longrightarrow> pr_pid p' = pr_pid p \<and> pr_tid p' = pr_tid p"
  by (auto simp: resume_def split: if_splits option.splits)

lemma close_ids: "close p os = (p', os', r) \<Longrightarrow> pr_pid p' = pr_pid p \<and> pr_tid p' = pr_tid p"
  by (auto simp: close_def Let_def split: prod.splits if_splits)

lemma terminate_ids: "terminate_and_close p os = (p', os') \<Longrightarrow> pr_pid p' = pr_pid p \<and> pr_tid p' = pr_tid p"
  by (auto simp: terminate_and_close_def Let_def)

text \<open>Only \<open>inject\<close> writes a file.\<close>

lemma open_process_files: "open_process env p os = (p', os', r) \<Longrightarrow> os_files os' = os_files os"
  by (auto simp: open_process_def open_process_handle_def open_thread_part_def new_handle_def Let_def
      split: if_splits prod.splits)

lemma exit_code_files: "exit_code env p os = (p', os', r) \<Longrightarrow> os_files os' = os_files os"
  using open_process_files by (auto simp: exit_code_def split: if_splits prod.splits)

lemma is_alive_files: "is_alive env p os = (p', os', r) \<Longrightarrow> os_files os' = os_files os"
  using exit_code_files by (auto simp: is_alive_def split: prod.splits)

lemma close_handle_files [simp]: "os_files (snd (close_handle h os)) = os_files os"
  by (auto simp: close_handle_def split: handle.splits)

lemma close_files: "close p os = (p', os', r) \<Longrightarrow> os_files os' = os_files os"
proof -
  have "close_handle h o1 = (ok, o2) \<Longrightarrow> os_files o2 = os_files o1" for h o1 ok o2
    using close_handle_files [of h o1] by simp
  then show "close p os = (p', os', r) \<Longrightarrow> os_files os' = os_files os"
    by (auto simp: close_def Let_def split: option.splits if_splits prod.splits)
qed

lemma terminate_files: "terminate_and_close p os = (p', os') \<Longrightarrow> os_files os' = os_files os"
  by (auto simp: terminate_and_close_def Let_def split: option.splits)

lemma resume_files: "resume env p os = (p', os', r) \<Longrightarrow> os_files os' = os_files os"
  by (auto simp: resume_def split: if_splits option.splits)

lemma execute_files: "execute env path args susp p os = (p', os', r) \<Longrightarrow> os_files os' = os_files os"
  by (auto simp: execute_def Let_def new_handle_def split: if_splits res.splits prod.splits)

text \<open>The command that injects the monitor.\<close>

definition loader_command :: "monitor_binaries \<Rightarrow> process \<Rightarrow> bool \<Rightarrow> string list" where
  "loader_command b p is64 =
     [if is64 then mb_loader64 b else mb_loader32 b, ''inject'', show_dec (unat (pr_pid p)),
      show_dec (unat (pr_tid p)), if is64 then mb_capemon64 b else mb_capemon32 b]"

lemma open_process_ids: "open_process env p os = (p', os', r) \<Longrightarrow> pr_pid p' = pr_pid p \<and> pr_tid p' = pr_tid p \<and>
    pr_suspended p' = pr_suspended p"
  by (auto simp: open_process_def open_thread_part_def Let_def split: if_splits prod.splits)

lemma exit_code_ids: "exit_code env p os = (p', os', r) \<Longrightarrow> pr_pid p' = pr_pid p \<and> pr_tid p' = pr_tid p \<and>
    pr_suspended p' = pr_suspended p"
  using open_process_ids by (auto simp: exit_code_def split: if_splits prod.splits)

lemma is_alive_ids: "is_alive env p os = (p', os', r) \<Longrightarrow> pr_pid p' = pr_pid p \<and> pr_tid p' = pr_tid p \<and>
    pr_suspended p' = pr_suspended p"
  using exit_code_ids by (auto simp: is_alive_def split: prod.splits)

lemma inject_files:
  assumes "inject env i n st p os = (p', os', r)"
  shows "os_files os' = os_files os \<or> (\<exists>data. os_files os' =
     (os_files os)(win_join (mb_work_dir (ms_binaries st)) (''dll'' @ [bslash] @ show_dec (unat (pr_pid p)) @ ''.ini'') \<mapsto> data))"
proof -
  obtain p1 os1 alive where a: "is_alive env p os = (p1, os1, alive)" by (cases "is_alive env p os")
  obtain p2 os2 opened where o2: "(if pr_h_process p1 = None then open_process env p1 os1
      else (p1, os1, Ok True)) = (p2, os2, opened)"
    by (metis prod_cases3)
  obtain os3 r3 where w: "inject_with env p2 i n st os2 = (os3, r3)" by (cases "inject_with env p2 i n st os2")
  have f1: "os_files os1 = os_files os" by (rule is_alive_files [OF a])
  have f2: "os_files os2 = os_files os" using o2 f1 open_process_files by (auto split: if_splits)
  have pid: "pr_pid p2 = pr_pid p" using o2 is_alive_ids [OF a] open_process_ids [of env p1 os1 p2 os2] by (auto split: if_splits)
  obtain os4 r4 where wr: "write_monitor_config env p2 i n st os2 = (os4, r4)"
    by (cases "write_monitor_config env p2 i n st os2")
  have "os_files os3 = os_files os2 \<or> os_files os3 = os_files os4"
    using w wr unfolding inject_with_def Let_def
    by (auto simp: run_loader_def Let_def split: res.splits if_splits)
  moreover have "os_files os4 = os_files os2 \<or> (\<exists>data. os_files os4 = (os_files os2)(win_join (mb_work_dir (ms_binaries st))
      (''dll'' @ [bslash] @ show_dec (unat (pr_pid p)) @ ''.ini'') \<mapsto> data))"
    using wr pid unfolding write_monitor_config_def Let_def by (auto split: if_splits)
  moreover have "os' \<in> {os, os1, os2, os3}"
    using assms unfolding inject_def a o2 prod.case w by (auto split: res.splits if_splits)
  ultimately show ?thesis using f1 f2 by auto
qed

definition ran_loader :: "monitor_state \<Rightarrow> process \<Rightarrow> win_os \<Rightarrow> win_os \<Rightarrow> bool" where
  "ran_loader st p os os' =
     (\<exists>is64. os_events os' = os_events os @ [Ran (loader_command (ms_binaries st) p is64)])"

lemma inject_with_events:
  assumes "inject_with env p i n st os = (os', r)"
  shows "ran_loader st p os os' \<or> (os_events os' = os_events os \<and> r \<noteq> Ok ())"
proof (cases "is_64bit env p")
  case (Ok is64)
  obtain os1 r1 where w: "write_monitor_config env p i n st os = (os1, r1)"
    by (cases "write_monitor_config env p i n st os")
  have ev: "os_events os1 = os_events os" using write_monitor_config_os [OF w] by simp
  let ?b = "ms_binaries st"
  let ?run = "run_loader env p (if is64 then mb_loader64 ?b else mb_loader32 ?b)
      (if is64 then mb_capemon64 ?b else mb_capemon32 ?b) (if is64 then ''64-bit'' else ''32-bit'') os1"
  have "(os_events (fst ?run) = os_events os @ [Ran (loader_command ?b p is64)]) \<or>
      (os_events (fst ?run) = os_events os \<and> snd ?run \<noteq> Ok ())"
    by (auto simp: run_loader_def Let_def loader_command_def ev split: res.splits)
  moreover have "(os', r) = ?run \<or> (os_events os' = os_events os \<and> r \<noteq> Ok ())"
    using assms Ok w ev unfolding inject_with_def Let_def by (auto split: if_splits res.splits)
  ultimately show ?thesis unfolding ran_loader_def by (metis fst_conv snd_conv)
qed (use assms in \<open>simp_all add: inject_with_def\<close>)

lemma inject_events:
  assumes "inject env i n st p os = (p', os', r)"
  shows "ran_loader st p os os' \<or> (os_events os' = os_events os \<and> r \<noteq> Ok ())" and
    "pr_pid p' = pr_pid p \<and> pr_tid p' = pr_tid p \<and> pr_suspended p' = pr_suspended p"
proof -
  obtain p1 os1 alive where a: "is_alive env p os = (p1, os1, alive)" by (cases "is_alive env p os")
  obtain p2 os2 opened where o2: "(if pr_h_process p1 = None then open_process env p1 os1
      else (p1, os1, Ok True)) = (p2, os2, opened)"
    by (metis prod_cases3)
  obtain os3 r3 where w: "inject_with env p2 i n st os2 = (os3, r3)" by (cases "inject_with env p2 i n st os2")
  have ev1: "os_events os1 = os_events os" by (rule is_alive_quiet [OF a])
  have ids1: "pr_pid p1 = pr_pid p" "pr_tid p1 = pr_tid p" "pr_suspended p1 = pr_suspended p"
    using is_alive_ids [OF a] by auto
  have ev2: "os_events os2 = os_events os" using o2 ev1 open_process_quiet by (auto split: if_splits)
  have ids2: "pr_pid p2 = pr_pid p" "pr_tid p2 = pr_tid p" "pr_suspended p2 = pr_suspended p"
    using o2 ids1 open_process_ids [of env p1 os1 p2 os2] by (auto split: if_splits)
  have "loader_command b p2 is64 = loader_command b p is64" for b is64
    by (simp add: loader_command_def ids2)
  then have w3: "ran_loader st p os os3 \<or> (os_events os3 = os_events os \<and> r3 \<noteq> Ok ())"
    using inject_with_events [OF w] by (simp add: ran_loader_def ev2)
  have "(p', os', r) = (p2, os3, r3) \<or> (r \<noteq> Ok () \<and> (p', os') \<in> {(p, os), (p1, os1), (p2, os2)})"
    using assms unfolding inject_def a o2 prod.case w by (auto split: res.splits if_splits)
  then show "ran_loader st p os os' \<or> (os_events os' = os_events os \<and> r \<noteq> Ok ())"
    "pr_pid p' = pr_pid p \<and> pr_tid p' = pr_tid p \<and> pr_suspended p' = pr_suspended p"
    using w3 ev1 ev2 ids1 ids2 by auto
qed

section \<open>Sequences of operations\<close>

datatype process_op =
    OpOpen
  | OpExecute string "string option" bool
  | OpExitCode
  | OpIsAlive
  | OpFilepath
  | OpInject "string option" bool monitor_state
  | OpResume
  | OpClose
  | OpTerminate

definition run_op :: "os_env \<Rightarrow> process_op \<Rightarrow> process \<times> win_os \<Rightarrow> process \<times> win_os" where
  "run_op env op = (\<lambda>(p, os). case op of
       OpOpen \<Rightarrow> (case open_process env p os of (p', os', _) \<Rightarrow> (p', os'))
     | OpExecute path args susp \<Rightarrow> (case execute env path args susp p os of (p', os', _) \<Rightarrow> (p', os'))
     | OpExitCode \<Rightarrow> (case exit_code env p os of (p', os', _) \<Rightarrow> (p', os'))
     | OpIsAlive \<Rightarrow> (case is_alive env p os of (p', os', _) \<Rightarrow> (p', os'))
     | OpFilepath \<Rightarrow> (case get_filepath env p os of (p', os', _) \<Rightarrow> (p', os'))
     | OpInject i n st \<Rightarrow> (case inject env i n st p os of (p', os', _) \<Rightarrow> (p', os'))
     | OpResume \<Rightarrow> (case resume env p os of (p', os', _) \<Rightarrow> (p', os'))
     | OpClose \<Rightarrow> (case close p os of (p', os', _) \<Rightarrow> (p', os'))
     | OpTerminate \<Rightarrow> terminate_and_close p os)"

text \<open>A sequence of operations, each with what the system answers it; a process is only started by a
  \<open>Process\<close> that holds no handle.\<close>

primrec run_process :: "(os_env \<times> process_op) list \<Rightarrow> process \<times> win_os \<Rightarrow> process \<times> win_os" where
  "run_process [] s = s"
| "run_process (o1 # ops) s = run_process ops (run_op (fst o1) (snd o1) s)"

definition is_execute :: "process_op \<Rightarrow> bool" where
  "is_execute op = (case op of OpExecute _ _ _ \<Rightarrow> True | _ \<Rightarrow> False)"

primrec starts_fresh :: "(os_env \<times> process_op) list \<Rightarrow> process \<times> win_os \<Rightarrow> bool" where
  "starts_fresh [] s = True"
| "starts_fresh (o1 # ops) s =
     ((is_execute (snd o1) \<longrightarrow> pr_h_process (fst s) = None \<and> pr_h_thread (fst s) = None) \<and>
      starts_fresh ops (run_op (fst o1) (snd o1) s))"

lemma run_op_ok:
  assumes "handles_ok others p os"
    and "is_execute op \<longrightarrow> pr_h_process p = None \<and> pr_h_thread p = None"
    and "run_op env op (p, os) = (p', os')"
  shows "handles_ok others p' os'"
proof (cases op)
  case (OpExecute path args susp)
  then show ?thesis using assms execute_ok by (auto simp: run_op_def is_execute_def split: prod.splits)
next
  case OpOpen
  then show ?thesis using assms open_process_ok by (auto simp: run_op_def split: prod.splits)
next
  case OpExitCode
  then show ?thesis using assms exit_code_ok by (auto simp: run_op_def split: prod.splits)
next
  case OpIsAlive
  then show ?thesis using assms is_alive_ok by (auto simp: run_op_def split: prod.splits)
next
  case OpFilepath
  then show ?thesis using assms get_filepath_ok by (auto simp: run_op_def split: prod.splits)
next
  case (OpInject i n st)
  then show ?thesis using assms inject_ok by (auto simp: run_op_def split: prod.splits)
next
  case OpResume
  then show ?thesis using assms resume_ok by (auto simp: run_op_def split: prod.splits)
next
  case OpClose
  obtain q ot r where c: "close p os = (q, ot, r)" by (cases "close p os")
  then have "p' = q" "os' = ot" using assms(3) OpClose by (simp_all add: run_op_def)
  then show ?thesis using close_ok [OF assms(1) c] by simp
next
  case OpTerminate
  then show ?thesis using terminate_ok [OF assms(1)] assms(3) by (simp add: run_op_def)
qed

lemma run_process_ok:
  "handles_ok others p os \<Longrightarrow> starts_fresh ops (p, os) \<Longrightarrow> run_process ops (p, os) = (p', os') \<Longrightarrow>
     handles_ok others p' os'"
proof (induction ops arbitrary: p os)
  case (Cons o1 ops)
  obtain q ot where q: "run_op (fst o1) (snd o1) (p, os) = (q, ot)"
    by (cases "run_op (fst o1) (snd o1) (p, os)")
  have "handles_ok others q ot" by (rule run_op_ok [OF Cons.prems(1) _ q]) (use Cons.prems(2) in simp)
  then show ?case using Cons q by simp
qed simp

section \<open>Reading the configuration back\<close>

text \<open>What a reader of the configuration finds under a key: the first line that starts with the key and
  an equals sign.\<close>

definition is_newline :: "char \<Rightarrow> bool" where "is_newline c = (c = CHR 0x0A)"

definition ini_value :: "string \<Rightarrow> string \<Rightarrow> string option" where
  "ini_value text key =
     map_option (drop (Suc (length key))) (find (\<lambda>l. begins (key @ ''='') l) (split_on is_newline text))"

definition config_text :: "(string \<times> string) list \<Rightarrow> string" where
  "config_text ls = concat (map (\<lambda>(key, val). config_line key val) ls)"

lemma split_config:
  assumes "\<forall>(key, val) \<in> set ls. \<forall>c \<in> set (key @ val). \<not> is_newline c"
  shows "split_on is_newline (config_text ls) = map (\<lambda>(key, val). key @ ''='' @ val) ls @ [[]]"
  using assms
proof (induction ls)
  case Nil
  then show ?case by (simp add: config_text_def)
next
  case (Cons kv ls)
  obtain key val where kv: "kv = (key, val)" by (cases kv)
  have none: "\<forall>c \<in> set (key @ ''='' @ val). \<not> is_newline c"
    using Cons.prems kv by (auto simp: is_newline_def)
  have "config_text (kv # ls) = (key @ ''='' @ val) @ CHR 0x0A # config_text ls"
    by (simp add: config_text_def config_line_def kv)
  then have "split_on is_newline (config_text (kv # ls)) =
      split_on is_newline (key @ ''='' @ val) @ split_on is_newline (config_text ls)"
    by (simp only: split_on_append is_newline_def)
  then show ?case
    using Cons.IH Cons.prems kv split_on_none [of "key @ ''='' @ val" is_newline] none by simp
qed

lemma write_lines_whole: "(\<And>k. stop k = None) \<Longrightarrow> write_lines stop ls = utf8 (config_text ls)"
proof -
  assume "\<And>k. stop k = None"
  then have "write_lines stop ls = concat (map (\<lambda>kv. utf8 (config_line (fst kv) (snd kv))) (map snd (enumerate 0 ls)))"
    unfolding write_lines_def map_map comp_def by (simp add: case_prod_unfold Let_def)
  also have "\<dots> = utf8 (config_text ls)"
    by (induction ls) (simp_all add: utf8_def config_text_def case_prod_unfold)
  finally show ?thesis .
qed

definition one_line :: "string \<Rightarrow> bool" where "one_line s \<longleftrightarrow> (\<forall>c \<in> set s. \<not> is_newline c)"

lemma digits_one_line: "one_line (show_dec n)"
proof -
  have "is_ws (CHR 0x0A)" by (simp add: is_ws_def)
  then show ?thesis using show_dec_not_ws [of n] unfolding one_line_def is_newline_def by metis
qed

lemma one_line_simps [simp]:
  "one_line []" "one_line (a @ b) = (one_line a \<and> one_line b)"
  "one_line (c # a) = (\<not> is_newline c \<and> one_line a)"
  by (auto simp: one_line_def)

lemma one_line_upload_dir: "one_line upload_dir"
  by (simp add: upload_dir_def is_newline_def)

lemma config_lines_split:
  assumes "one_line (ms_command_pipe st)" and "one_line (ms_log_pipe_prefix st)" and "one_line (ms_shutdown_mutex st)"
    and "one_line (ms_terminate_event_prefix st)" and "one_line i"
  shows "split_on is_newline (config_text (config_lines st pid f n i force)) =
     map (\<lambda>(key, val). key @ ''='' @ val) (config_lines st pid f n i force) @ [[]]"
proof (rule split_config)
  have "list_all (\<lambda>(key, val). one_line (key @ val)) (config_lines st pid f n i force)"
    using assms digits_one_line one_line_upload_dir
    by (simp add: config_lines_def terminate_event_name_def is_newline_def)
  then show "\<forall>(key, val) \<in> set (config_lines st pid f n i force). \<forall>c \<in> set (key @ val). \<not> is_newline c"
    by (auto simp: list_all_iff one_line_def)
qed

lemma config_values:
  assumes "one_line (ms_command_pipe st)" and "one_line (ms_log_pipe_prefix st)" and "one_line (ms_shutdown_mutex st)"
    and "one_line (ms_terminate_event_prefix st)" and "one_line i"
    and "text = config_text (config_lines st pid f n i force)"
  shows "ini_value text ''pipe'' = Some (ms_command_pipe st)"
    "ini_value text ''logserver'' = Some (log_pipe_name (ms_log_pipe_prefix st) pid)"
    "ini_value text ''file-of-interest'' = Some i"
    "ini_value text ''shutdown-mutex'' = Some (ms_shutdown_mutex st)"
    "ini_value text ''terminate-event'' = Some (terminate_event_name (ms_terminate_event_prefix st) pid)"
    "ini_value text ''force-sleepskip'' = (if force then Some ''0'' else None)"
  unfolding ini_value_def assms(6) config_lines_split [OF assms(1-5)]
  by (simp_all add: config_lines_def begins_def log_pipe_name_def)

lemma digit_char_plain: "d < 10 \<Longrightarrow> \<not> win_sep (digit_char d) \<and> digit_char d \<noteq> CHR '':''"
  by (auto simp: digit_char_def win_sep_def char_of_eq_iff take_bit_eq_mod)

lemma ini_name_relative:
  "parse_prefix (show_dec n @ ''.ini'') = None" "\<not> starts_sep (show_dec n @ ''.ini'')"
proof -
  obtain c cs where s: "show_dec n = c # cs" by (cases "show_dec n") auto
  have plain: "\<forall>x \<in> set (show_dec n). \<not> win_sep x \<and> x \<noteq> CHR '':''"
    using show_dec_digits [of n] digit_char_plain by metis
  obtain d r where dr: "show_dec n @ ''.ini'' = c # d # r" "d \<noteq> CHR '':''"
  proof (cases cs)
    case Nil
    show ?thesis by (rule that [of "CHR ''.''" "''ini''"]) (simp_all only: s Nil append_Cons append_Nil, simp)
  next
    case (Cons d ds)
    have "d \<in> set (show_dec n)" by (simp add: s Cons)
    then have "d \<noteq> CHR '':''" using plain by blast
    then show ?thesis by (intro that [of d "ds @ ''.ini''"]) (simp_all only: s Cons append_Cons simp_thms)
  qed
  have "c \<in> set (show_dec n)" by (simp add: s)
  then have "\<not> win_sep c" using plain by blast
  then show "parse_prefix (show_dec n @ ''.ini'') = None" "\<not> starts_sep (show_dec n @ ''.ini'')"
    unfolding dr(1) by (rule relative_name [OF _ dr(2)])+
qed

lemma config_path_agrees:
  "win_join upload_dir (''dll'' @ [bslash] @ show_dec (unat pid) @ ''.ini'') =
     ini_path (win_join upload_dir ''dll'') pid"
proof -
  have "\<not> win_sep (CHR ''d'')" "CHR ''l'' \<noteq> CHR '':''" by (simp_all add: win_sep_def)
  from relative_name [OF this] show ?thesis
    unfolding ini_path_def in_dll_dir [OF ini_name_relative] by (simp add: upload_join)
qed

lemma ini_plain: "body_components False win_sep (show_dec n @ ''.ini'') = [Normal (show_dec n @ ''.ini'')]"
proof -
  have "\<forall>x \<in> set (show_dec n). \<not> win_sep x"
    using show_dec_digits [of n] digit_char_plain by metis
  then have "\<forall>x \<in> set (show_dec n @ ''.ini''). \<not> win_sep x" by (auto simp: win_sep_def)
  moreover have "length (show_dec n @ ''.ini'') > 2" by simp
  then have "show_dec n @ ''.ini'' \<notin> {[], ''.'', ''..''}" by force
  ultimately show ?thesis by (simp add: body_single seg_component_def)
qed

lemma ini_below:
  "below_dir (win_join upload_dir ''dll'') (win_join upload_dir (''dll'' @ [bslash] @ show_dec (unat (pid :: u32)) @ ''.ini''))"
  unfolding config_path_agrees ini_path_def in_dll_dir [OF ini_name_relative]
  unfolding dll_dir by (rule below_dll [OF ini_plain])

lemma alnum_one_line: "(\<And>i. is_alnum (g i)) \<Longrightarrow> one_line (random_string n g)"
proof -
  assume alnum: "\<And>i. is_alnum (g i)"
  have "\<not> is_alnum (CHR 0x0A)" by (simp add: is_alnum_def)
  then show ?thesis using alnum by (auto simp: one_line_def random_string_def is_newline_def) metis
qed

lemma init_one_line:
  assumes "monitor_init env assets rnd w fs = (fs1, Ok st)" and "\<And>k i. is_alnum (rnd k i)"
  shows "one_line (ms_command_pipe st)" "one_line (ms_log_pipe_prefix st)"
    "one_line (ms_shutdown_mutex st)" "one_line (ms_terminate_event_prefix st)"
  unfolding init_ok(2-5) [OF assms(1)]
  by (simp_all add: alnum_one_line [OF assms(2)] pipe_dir_def global_ns_def is_newline_def)

section \<open>Properties\<close>


definition fresh_process :: process where
  "fresh_process = \<lparr>pr_pid = 0, pr_tid = 0, pr_h_process = None, pr_h_thread = None, pr_suspended = True\<rparr>"

definition example_os :: win_os where
  "example_os = \<lparr>os_open = {0}, os_next = 1, os_events = [], os_files = Map.empty, os_process_num = 0\<rparr>"

text \<open>A system on which everything works; the process has the identifiers 7 and 8.\<close>

definition agent_os_env :: "u32 option \<Rightarrow> os_env" where
  "agent_os_env code = \<lparr>oe_current_pid = 1, oe_open_process = (\<lambda>_ _. True), oe_open_thread = (\<lambda>_. True),
     oe_is_wow64 = (\<lambda>_. (True, False)), oe_exit_code = (\<lambda>_. code), oe_resume = (\<lambda>_. 1),
     oe_create = (\<lambda>_. Ok (7, 8)), oe_exists = (\<lambda>_. True), oe_image = (\<lambda>_. ImageName (Some [97])),
     oe_new_file = (\<lambda>_. True), oe_line_cut = (\<lambda>_. None), oe_startup = 3, oe_run = (\<lambda>_. Ok (Some 1))\<rparr>"

lemmas example_simps = fresh_process_def example_os_def agent_os_env_def run_op_def is_execute_def
  execute_def new_handle_def emit_def close_def close_handle_def is_alive_def exit_code_def has_handle_def
  open_process_def open_process_handle_def open_thread_part_def STILL_ACTIVE_def




text \<open>\<open>set_terminate_event\<close> never reaches the monitor: the event that the monitor creates under the name in
  its configuration is not the one that is looked for, because the bytes of the name are read as 16-bit
  units; the call succeeds and nothing is set.\<close>

theorem terminate_event_missed:
  assumes "ms_terminate_event_prefix st = global_ns @ r" and "CHR 0x00 \<notin> set r"
    and "\<And>us. opens us \<longleftrightarrow> us = map of_char (terminate_event_name (ms_terminate_event_prefix st) (pr_pid p))"
  shows "set_terminate_event beyond opens (ms_terminate_event_prefix st) p os = (os, Ok ())"
proof -
  let ?name = "terminate_event_name (ms_terminate_event_prefix st) (pr_pid p)"
  have "CHR 0x00 \<notin> set (show_dec (unat (pr_pid p)))"
  proof
    assume "CHR 0x00 \<in> set (show_dec (unat (pr_pid p)))"
    then obtain d where d: "d < 10" "CHR 0x00 = digit_char d" using show_dec_digits by blast
    have "(of_char (CHR 0x00) :: nat) = of_char (digit_char d)" by (simp only: d(2))
    then show False using d(1) by (simp add: digit_char_def take_bit_eq_mod)
  qed
  then have nul: "CHR 0x00 \<notin> set ?name"
    using assms(1,2) by (simp add: terminate_event_name_def global_ns_def)
  have name: "?name = CHR ''G'' # CHR ''l'' # ''obal'' @ [bslash] @ r @ show_dec (unat (pr_pid p))"
    by (simp add: terminate_event_name_def assms(1) global_ns_def)
  then obtain us where "event_units beyond ?name = (71 + 256 * 108) # us"
    by (simp add: event_units_def utf8_def utf8_char_def)
  then have "event_units beyond ?name \<noteq> map of_char ?name" unfolding name by simp
  then have "\<not> opens (event_units beyond ?name)" using assms(3) by blast
  with nul show ?thesis by (simp add: set_terminate_event_def Let_def)
qed

theorem terminate_event_missed_witness:
  "set_terminate_event [] (\<lambda>us. us = map of_char (terminate_event_name (ms_terminate_event_prefix example_state) 7))
     (ms_terminate_event_prefix example_state) (fresh_process\<lparr>pr_pid := 7\<rparr>) example_os = (example_os, Ok ())"
proof -
  have "CHR 0x00 \<notin> set (random_string 10 (example_rnd 5))"
    by (simp add: random_string_def example_rnd_def upt_rec)
  then show ?thesis
    by (intro terminate_event_missed [where r = "random_string 10 (example_rnd 5)"])
      (simp_all add: example_state_def fresh_process_def)
qed



end
