(* ===== verification/Report.thy ===== *)
theory Report
  imports Collector Rust_Path
begin

text \<open>
  \<open>crates/malbox-agent/src/report.rs\<close>: the report built from the collector, the process tree
  and the file type of the sample. The order in which a \<open>HashMap\<close> is iterated is the parameter
  \<open>iter\<close>, of which only \<open>mset (iter xs) = mset xs\<close> is known. \<open>serde_json::Value\<close> is the type
  variable \<open>'j\<close>: the code only ever stores empty vectors of it. The report's own JSON is in \<open>Report_Json\<close>.
\<close>

section \<open>Data\<close>

record target_file =
  tf_name :: string
  tf_size :: u64
  tf_r_type :: string
  tf_cape_type_code :: u32

record target =
  tg_file :: target_file
  tg_category :: string

record 'j summary =
  sm_files :: "'j list"
  sm_read_files :: "'j list"
  sm_write_files :: "'j list"
  sm_delete_files :: "'j list"

record argument =
  ag_name :: string
  ag_value :: string

record call_entry =
  ce_api :: string
  ce_category :: string
  ce_status :: string
  ce_return_value :: i64
  ce_thread_id :: u32
  ce_time :: i32
  ce_arguments :: "argument list"

record process_entry =
  pe_process_id :: u32
  pe_parent_id :: u32
  pe_process_name :: string
  pe_threads :: "u32 list"
  pe_calls :: "call_entry list"

datatype tree_node = TreeNode (tn_pid: u32) (tn_name: string) (tn_children: "tree_node list")

record 'j behavior =
  bh_processes :: "process_entry list"
  bh_processtree :: "tree_node list"
  bh_summary :: "'j summary"
  bh_enhanced :: "'j list"
  bh_anomaly :: "'j list"
  bh_encryptedbuffers :: "'j list"

record dropped_entry =
  de_size :: u64

record signature =
  sg_name :: string
  sg_alert :: bool

record payload =
  py_size :: u64

record cape =
  cp_payloads :: "payload list"

record 'j report =
  rp_target :: target
  rp_behavior :: "'j behavior"
  rp_dropped :: "dropped_entry list"
  rp_signatures :: "signature list"
  rp_cape :: cape

section \<open>The process tree\<close>

definition children_map :: "(u32 \<times> u32) list \<Rightarrow> (u32 \<rightharpoonup> u32 list)" where
  "children_map links =
     foldl (\<lambda>m (parent, child).
        m(parent \<mapsto> (case m parent of Some v \<Rightarrow> v | None \<Rightarrow> []) @ [child])) Map.empty links"

text \<open>\<open>fuel\<close> is the depth of the recursion; \<open>None\<close> is a recursion that goes deeper.\<close>

fun build_node :: "nat \<Rightarrow> (u32 \<times> proc_info) list \<Rightarrow> (u32 \<rightharpoonup> u32 list) \<Rightarrow> u32 \<Rightarrow> tree_node option" where
  "build_node 0 ps cm pid = None"
| "build_node (Suc fuel) ps cm pid =
     (let name = (case map_of ps pid of Some p \<Rightarrow> pi_process_name p | None \<Rightarrow> []);
          children = (case cm pid of
              Some v \<Rightarrow> those (map (build_node fuel ps cm) v)
            | None \<Rightarrow> Some [])
      in map_option (TreeNode pid name) children)"

definition is_root :: "(u32 \<times> proc_info) list \<Rightarrow> u32 \<times> proc_info \<Rightarrow> bool" where
  "is_root ps e = (pi_parent_id (snd e) = 0 \<or> map_of ps (pi_parent_id (snd e)) = None)"

definition root_pids :: "((u32 \<times> proc_info) list \<Rightarrow> (u32 \<times> proc_info) list) \<Rightarrow>
    (u32 \<times> proc_info) list \<Rightarrow> u32 list" where
  "root_pids iter ps = map fst (filter (is_root ps) (iter ps))"

definition build_tree :: "nat \<Rightarrow> ((u32 \<times> proc_info) list \<Rightarrow> (u32 \<times> proc_info) list) \<Rightarrow>
    (u32 \<times> proc_info) list \<Rightarrow> (u32 \<times> u32) list \<Rightarrow> tree_node list option" where
  "build_tree fuel iter ps links =
     those (map (build_node fuel ps (children_map links)) (root_pids iter ps))"

section \<open>The report\<close>

definition call_entry_of :: "api_call \<Rightarrow> call_entry" where
  "call_entry_of c =
     \<lparr>ce_api = call_api c, ce_category = call_category c, ce_status = call_status c,
      ce_return_value = call_return_value c, ce_thread_id = call_thread_id c,
      ce_time = call_time c,
      ce_arguments = map (\<lambda>(n, v). \<lparr>ag_name = n, ag_value = v\<rparr>) (call_arguments c)\<rparr>"

definition process_entry_of :: "proc_info \<Rightarrow> process_entry" where
  "process_entry_of p =
     \<lparr>pe_process_id = pi_pid p, pe_parent_id = pi_parent_id p,
      pe_process_name = pi_process_name p, pe_threads = pi_thread_ids p,
      pe_calls = map call_entry_of (pi_calls p)\<rparr>"

definition report_processes :: "((u32 \<times> proc_info) list \<Rightarrow> (u32 \<times> proc_info) list) \<Rightarrow>
    analysis_collector \<Rightarrow> process_entry list" where
  "report_processes iter c =
     map process_entry_of (sort_key pi_first_seen_order (map snd (iter (procs c))))"

definition report_build :: "nat \<Rightarrow> ((u32 \<times> proc_info) list \<Rightarrow> (u32 \<times> proc_info) list) \<Rightarrow>
    analysis_collector \<Rightarrow> target_file \<Rightarrow> string \<Rightarrow> 'j report option" where
  "report_build fuel iter c target category =
     (case build_tree fuel iter (procs c) (child_links c) of
        None \<Rightarrow> None
      | Some tree \<Rightarrow> Some
          \<lparr>rp_target = \<lparr>tg_file = target, tg_category = category\<rparr>,
           rp_behavior = \<lparr>bh_processes = report_processes iter c, bh_processtree = tree,
             bh_summary = \<lparr>sm_files = [], sm_read_files = [], sm_write_files = [], sm_delete_files = []\<rparr>,
             bh_enhanced = [], bh_anomaly = [], bh_encryptedbuffers = []\<rparr>,
           rp_dropped = [], rp_signatures = [], rp_cape = \<lparr>cp_payloads = []\<rparr>\<rparr>)"

section \<open>The type of the sample\<close>

unbundle bit_operations_syntax

definition detect_pe_type :: "u8 list option \<Rightarrow> (unit, string option) res" where
  "detect_pe_type file = (case file of
       None \<Rightarrow> Ok None
     | Some data \<Rightarrow>
         if length data < 64 then Ok None
         else
           (let pe_offset = unat (u32_from_le (data ! 60) (data ! 61) (data ! 62) (data ! 63))
            in if length data \<le> pe_offset + 24 then Ok None
               else
                 bind_res (vec_index data (pe_offset + 24)) (\<lambda>m0.
                 bind_res (vec_index data (pe_offset + 25)) (\<lambda>m1.
                   let magic = u16_from_le m0 m1;
                       is_dll = pe_offset + 22 < length data \<and>
                         u16_from_le (data ! (pe_offset + 22)) (data ! (pe_offset + 23)) AND 8192 \<noteq> 0;
                       kind = (if is_dll then ''dll'' else ''exe'')
                   in if magic = 267 then Ok (Some (''pe32'' @ '' '' @ kind))
                      else if magic = 523 then Ok (Some (''pe32+'' @ '' '' @ kind))
                      else Ok None))))"

text \<open>
  \<open>build_target_file\<close>: \<open>metadata\<close> and \<open>contents\<close> are the results of \<open>fs::metadata\<close> (the size) and
  \<open>fs::read\<close> on the path. The path is one of the agent's, a Windows path.
\<close>

definition build_target_file ::
    "(string, u64) res \<Rightarrow> u8 list option \<Rightarrow> string \<Rightarrow> (string, target_file) res" where
  "build_target_file metadata contents path =
     bind_res metadata (\<lambda>size.
       (case detect_pe_type contents of
          Panic \<Rightarrow> Panic
        | Err _ \<Rightarrow> Panic
        | Ok t \<Rightarrow>
            Ok \<lparr>tf_name = (case win_file_name path of Some n \<Rightarrow> n | None \<Rightarrow> ''unknown''),
                tf_size = size,
                tf_r_type = (case t of Some r \<Rightarrow> r | None \<Rightarrow> ''unknown''),
                tf_cape_type_code = 0\<rparr>))"

section \<open>The process list does not depend on the iteration order\<close>

lemma report_processes_order:
  assumes "collector_inv c" and "mset (iter (procs c)) = mset (procs c)"
  shows "report_processes iter c = map (process_entry_of \<circ> snd) (procs c)"
proof -
  let ?f = "pi_first_seen_order" and ?ps = "map snd (procs c)"
  have ord: "map ?f ?ps = [0 ..< length (procs c)]"
    using assms(1) by (simp add: collector_inv_def)
  have "distinct (map ?f ?ps)" by (simp only: ord distinct_upt)
  then have inj: "inj_on ?f (set ?ps)" and dist: "distinct ?ps"
    by (simp_all only: distinct_map)
  have eq: "mset (map snd (iter (procs c))) = mset ?ps" using assms(2) by simp
  have set: "set (map snd (iter (procs c))) = set ?ps" using eq by (rule mset_eq_setD)
  have "sort_key ?f (map snd (iter (procs c))) = ?ps"
    using inj dist mset_eq_imp_distinct_iff [OF eq]
    by (intro sort_key_unique [OF eq]) (simp_all only: set ord sorted_upt)
  then show ?thesis by (simp add: report_processes_def)
qed

section \<open>When the tree is finite\<close>

lemma children_map_links:
  "children_map links pid =
     (let v = map snd (filter (\<lambda>l. fst l = pid) links) in if v = [] then None else Some v)"
proof (induction links rule: rev_induct)
  case (snoc l links)
  then show ?case
    by (cases l) (auto simp: children_map_def Let_def split: if_splits)
qed (simp add: children_map_def)

definition node_children :: "(u32 \<times> u32) list \<Rightarrow> u32 \<Rightarrow> u32 list" where
  "node_children links pid = map snd (filter (\<lambda>l. fst l = pid) links)"

definition node_name :: "(u32 \<times> proc_info) list \<Rightarrow> u32 \<Rightarrow> string" where
  "node_name ps pid = (case map_of ps pid of Some p \<Rightarrow> pi_process_name p | None \<Rightarrow> [])"

text \<open>The equation of a node with the map of children replaced by the links it comes from.\<close>

lemma build_node_Suc:
  "build_node (Suc fuel) ps (children_map links) pid =
     map_option (TreeNode pid (node_name ps pid))
       (those (map (build_node fuel ps (children_map links)) (node_children links pid)))"
  by (simp add: children_map_links node_children_def node_name_def Let_def split: if_splits)

declare build_node.simps(2) [simp del]

lemma those_map_SomeI:
  assumes "\<And>x. x \<in> set xs \<Longrightarrow> f x \<noteq> None"
  obtains ys where "those (map f xs) = Some ys"
proof -
  have "\<exists>ys. those (map f xs) = Some ys" using assms
    by (induction xs) (simp_all, metis option.map(2) option.simps(5) option.exhaust)
  then show ?thesis using that by blast
qed

lemma those_map_NoneI: "x \<in> set xs \<Longrightarrow> f x = None \<Longrightarrow> those (map f xs) = None"
  by (induction xs) (auto split: option.splits)

lemma those_map_Some_iff: "those (map f xs) = Some ys \<longleftrightarrow> list_all2 (\<lambda>x y. f x = Some y) xs ys"
  by (induction xs arbitrary: ys) (auto simp: list_all2_Cons1 split: option.splits)

text \<open>
  The order of a process in the report. A link is forward when its parent, if it is known at
  all, was registered before the child.
\<close>

definition seen_order :: "(u32 \<times> proc_info) list \<Rightarrow> u32 \<Rightarrow> nat option" where
  "seen_order ps pid = map_option pi_first_seen_order (map_of ps pid)"

definition links_forward :: "analysis_collector \<Rightarrow> bool" where
  "links_forward c \<longleftrightarrow> (\<forall>p k i. (p, k) \<in> set (child_links c) \<longrightarrow> seen_order (procs c) p = Some i \<longrightarrow>
     (\<exists>j. seen_order (procs c) k = Some j \<and> i < j))"

lemma links_forwardD:
  "links_forward c \<Longrightarrow> (p, k) \<in> set (child_links c) \<Longrightarrow> seen_order (procs c) p = Some i \<Longrightarrow>
     \<exists>j. seen_order (procs c) k = Some j \<and> i < j"
  unfolding links_forward_def by blast

lemma seen_order_less:
  assumes "collector_inv c" and "seen_order (procs c) pid = Some i"
  shows "i < length (procs c)"
proof -
  from assms(2) obtain p where p: "map_of (procs c) pid = Some p" "i = pi_first_seen_order p"
    by (auto simp: seen_order_def)
  then have "i \<in> set (map (pi_first_seen_order \<circ> snd) (procs c))"
    by (force dest: map_of_SomeD)
  moreover have "map (pi_first_seen_order \<circ> snd) (procs c) = [0 ..< length (procs c)]"
    using assms(1) by (simp add: collector_inv_def)
  ultimately show ?thesis by simp
qed

lemma build_node_enough:
  assumes "collector_inv c" and "links_forward c"
    and "seen_order (procs c) pid = Some i" and "length (procs c) \<le> fuel + i"
  shows "\<exists>t. build_node fuel (procs c) (children_map (child_links c)) pid = Some t"
  using assms(3,4)
proof (induction fuel arbitrary: pid i)
  case 0
  then show ?case using seen_order_less [OF assms(1)] by fastforce
next
  case (Suc fuel)
  have "build_node fuel (procs c) (children_map (child_links c)) k \<noteq> None"
    if "k \<in> set (node_children (child_links c) pid)" for k
  proof -
    from that have "(pid, k) \<in> set (child_links c)" by (auto simp: node_children_def)
    from links_forwardD [OF assms(2) this Suc.prems(1)]
    obtain j where j: "seen_order (procs c) k = Some j" "i < j" by blast
    from j(2) Suc.prems(2) have "length (procs c) \<le> fuel + j" by simp
    from Suc.IH [OF j(1) this] show ?thesis by auto
  qed
  then obtain ts where "those (map (build_node fuel (procs c) (children_map (child_links c)))
      (node_children (child_links c) pid)) = Some ts"
    by (rule those_map_SomeI)
  then show ?case by (simp only: build_node_Suc) simp
qed

lemma root_pids_registered:
  assumes "pid \<in> set (root_pids iter ps)" and "mset (iter ps) = mset ps"
  shows "map_of ps pid \<noteq> None"
proof -
  have "pid \<in> fst ` set (iter ps)" using assms(1) by (auto simp: root_pids_def)
  then have "pid \<in> fst ` set ps" by (simp only: mset_eq_setD [OF assms(2)])
  then show ?thesis by (simp add: map_of_eq_None_iff)
qed

lemma build_tree_enough:
  assumes "collector_inv c" and "links_forward c" and "mset (iter (procs c)) = mset (procs c)"
  shows "\<exists>t. build_tree (length (procs c)) iter (procs c) (child_links c) = Some t"
proof -
  have "build_node (length (procs c)) (procs c) (children_map (child_links c)) pid \<noteq> None"
    if "pid \<in> set (root_pids iter (procs c))" for pid
  proof -
    from root_pids_registered [OF that assms(3)]
    obtain i where "seen_order (procs c) pid = Some i" by (auto simp: seen_order_def)
    from build_node_enough [OF assms(1,2) this] show ?thesis by auto
  qed
  then obtain ts where "those (map (build_node (length (procs c)) (procs c)
      (children_map (child_links c))) (root_pids iter (procs c))) = Some ts"
    by (rule those_map_SomeI)
  then show ?thesis unfolding build_tree_def by (rule exI)
qed

text \<open>More depth never changes a tree that is finite.\<close>

lemma build_node_mono:
  "build_node fuel ps (children_map links) pid = Some t \<Longrightarrow>
   build_node (Suc fuel) ps (children_map links) pid = Some t"
proof (induction fuel arbitrary: pid t)
  case (Suc fuel)
  from Suc.prems obtain ts where
    ts: "list_all2 (\<lambda>k u. build_node fuel ps (children_map links) k = Some u) (node_children links pid) ts"
    and t: "t = TreeNode pid (node_name ps pid) ts"
    by (auto simp: build_node_Suc those_map_Some_iff)
  from ts have "list_all2 (\<lambda>k u. build_node (Suc fuel) ps (children_map links) k = Some u)
      (node_children links pid) ts"
    by (rule list_all2_mono) (rule Suc.IH)
  then have "those (map (build_node (Suc fuel) ps (children_map links)) (node_children links pid)) = Some ts"
    by (simp only: those_map_Some_iff)
  then show ?case by (simp only: build_node_Suc t option.map)
qed simp

text \<open>A process linked to itself never ends.\<close>

lemma build_node_self_link:
  assumes "(pid, pid) \<in> set links"
  shows "build_node fuel ps (children_map links) pid = None"
proof (induction fuel)
  case (Suc fuel)
  have "pid \<in> set (node_children links pid)"
    using assms by (force simp: node_children_def)
  then show ?case using Suc those_map_NoneI by (simp add: build_node_Suc)
qed simp

section \<open>Each process is in the tree once\<close>

fun occurs :: "u32 \<Rightarrow> tree_node \<Rightarrow> nat" where
  "occurs x (TreeNode pid name ts) = (if pid = x then 1 else 0) + sum_list (map (occurs x) ts)"

definition parents_of :: "(u32 \<times> u32) list \<Rightarrow> u32 \<Rightarrow> u32 list" where
  "parents_of links x = map fst (filter (\<lambda>l. snd l = x) links)"

lemma sum_list_swap:
  "sum_list (map (\<lambda>x. sum_list (map (f x) ys)) xs) =
   sum_list (map (\<lambda>y. sum_list (map (\<lambda>x. f x y :: nat) xs)) ys)"
  by (induction xs) (auto simp: sum_list_addf)

lemma count_links:
  "sum_list (map (\<lambda>k. if k = x then 1 else 0 :: nat) (node_children links pid)) =
   sum_list (map (\<lambda>p. if pid = p then 1 else 0) (parents_of links x))"
  by (induction links) (auto simp: node_children_def parents_of_def)

lemma sum_list_pairs:
  assumes "list_all2 P ks ts" and "\<And>k u. P k u \<Longrightarrow> f u = h k + (g u :: nat)"
  shows "sum_list (map f ts) = sum_list (map h ks) + sum_list (map g ts)"
  using assms(1) by (induction rule: list_all2_induct) (auto dest: assms(2))

text \<open>In a finite tree a process occurs at the root, or below an occurrence of a parent.\<close>

lemma occurs_node:
  "build_node fuel ps (children_map links) pid = Some t \<Longrightarrow>
   occurs x t = (if pid = x then 1 else 0) + sum_list (map (\<lambda>p. occurs p t) (parents_of links x))"
proof (induction fuel arbitrary: pid t x)
  case (Suc fuel)
  let ?kids = "node_children links pid"
  from Suc.prems obtain ts where
    ts: "list_all2 (\<lambda>k u. build_node fuel ps (children_map links) k = Some u) ?kids ts"
    and t: "t = TreeNode pid (node_name ps pid) ts"
    by (auto simp: build_node_Suc those_map_Some_iff)
  have "sum_list (map (occurs x) ts) = sum_list (map (\<lambda>k. if k = x then 1 else 0) ?kids) +
      sum_list (map (\<lambda>u. sum_list (map (\<lambda>p. occurs p u) (parents_of links x))) ts)"
    using ts by (rule sum_list_pairs) (rule Suc.IH)
  also have "\<dots> = sum_list (map (\<lambda>p. occurs p t) (parents_of links x))"
    by (simp add: count_links t sum_list_addf sum_list_swap [of _ _ ts])
  finally show ?case by (simp add: t)
qed simp

definition forest_occurs :: "u32 \<Rightarrow> tree_node list \<Rightarrow> nat" where
  "forest_occurs x ts = sum_list (map (occurs x) ts)"

lemma occurs_forest:
  assumes "build_tree fuel iter ps links = Some ts"
  shows "forest_occurs x ts = count_list (root_pids iter ps) x +
           sum_list (map (\<lambda>p. forest_occurs p ts) (parents_of links x))"
proof -
  have ts: "list_all2 (\<lambda>k u. build_node fuel ps (children_map links) k = Some u) (root_pids iter ps) ts"
    using assms by (simp add: build_tree_def those_map_Some_iff)
  have "sum_list (map (occurs x) ts) =
      sum_list (map (\<lambda>k. if k = x then 1 else 0) (root_pids iter ps)) +
      sum_list (map (\<lambda>u. sum_list (map (\<lambda>p. occurs p u) (parents_of links x))) ts)"
    using ts by (rule sum_list_pairs) (rule occurs_node)
  moreover have "sum_list (map (\<lambda>k. if k = x then 1 else 0) ks) = count_list ks x" for ks
    by (induction ks) auto
  ultimately show ?thesis by (simp add: forest_occurs_def sum_list_swap [of _ _ ts])
qed

text \<open>
  The registrations for which the tree is right: a process is registered once, by a parent
  that is 0 or known. \<open>tree_inv\<close> is what they keep.
\<close>

definition registration_ok :: "analysis_collector \<Rightarrow> u32 \<Rightarrow> u32 \<Rightarrow> bool" where
  "registration_ok c pid parent \<longleftrightarrow>
     map_of (procs c) pid = None \<and> (parent \<noteq> 0 \<longrightarrow> map_of (procs c) parent \<noteq> None)"

definition parent_of :: "analysis_collector \<Rightarrow> u32 \<Rightarrow> u32 option" where
  "parent_of c k = map_option pi_parent_id (map_of (procs c) k)"

definition tree_inv :: "analysis_collector \<Rightarrow> bool" where
  "tree_inv c \<longleftrightarrow> collector_inv c \<and> links_forward c \<and>
     (\<forall>k i. parent_of c k = Some i \<longrightarrow>
        parents_of (child_links c) k = (if i = 0 then [] else [i]) \<and>
        (i \<noteq> 0 \<longrightarrow> map_of (procs c) i \<noteq> None))"

lemma tree_invD:
  assumes "tree_inv c" and "parent_of c k = Some i"
  shows "parents_of (child_links c) k = (if i = 0 then [] else [i])"
    and "i \<noteq> 0 \<Longrightarrow> map_of (procs c) i \<noteq> None"
  using assms unfolding tree_inv_def by blast+

lemma parents_of_unregistered:
  assumes "collector_inv c" and "map_of (procs c) x = None"
  shows "parents_of (child_links c) x = []"
  using assms by (auto simp: collector_inv_def parents_of_def filter_empty_conv list_all_iff)

lemma tree_inv_empty: "tree_inv empty_collector"
  by (simp add: tree_inv_def collector_inv_empty links_forward_def parent_of_def)
    (simp add: empty_collector_def)

lemma child_links_register:
  "child_links (register_process c pid parent name) =
     child_links c @ (if parent \<noteq> 0 then [(parent, pid)] else [])"
  by (simp add: register_process_def Let_def)

lemma seen_order_register:
  "map_of (procs c) pid = None \<Longrightarrow>
   seen_order (procs (register_process c pid parent name)) k =
     (if k = pid then Some (length (procs c)) else seen_order (procs c) k)"
  by (simp add: seen_order_def)

lemma parent_of_register:
  "map_of (procs c) pid = None \<Longrightarrow>
   parent_of (register_process c pid parent name) k = (if k = pid then Some parent else parent_of c k)"
  by (simp add: parent_of_def)

lemma links_registered:
  assumes "tree_inv c" and "(p, k) \<in> set (child_links c)"
  shows "map_of (procs c) k \<noteq> None" and "map_of (procs c) p \<noteq> None"
proof -
  have cinv: "collector_inv c" using assms(1) by (simp add: tree_inv_def)
  show k: "map_of (procs c) k \<noteq> None"
    using assms(2) cinv by (auto simp: collector_inv_def list_all_iff)
  then obtain i where i: "parent_of c k = Some i" by (auto simp: parent_of_def)
  have "p \<in> set (parents_of (child_links c) k)" using assms(2) by (force simp: parents_of_def)
  with tree_invD [OF assms(1) i] show "map_of (procs c) p \<noteq> None" by (auto split: if_splits)
qed

lemma links_forward_register:
  assumes inv: "tree_inv c" and ok: "registration_ok c pid parent"
  shows "links_forward (register_process c pid parent name)"
  unfolding links_forward_def
proof (intro allI impI)
  fix p k i
  assume link: "(p, k) \<in> set (child_links (register_process c pid parent name))"
    and i: "seen_order (procs (register_process c pid parent name)) p = Some i"
  from ok have new: "map_of (procs c) pid = None" by (simp add: registration_ok_def)
  note so = seen_order_register [OF new]
  have cinv: "collector_inv c" and fwd: "links_forward c" using inv by (simp_all add: tree_inv_def)
  show "\<exists>j. seen_order (procs (register_process c pid parent name)) k = Some j \<and> i < j"
  proof (cases "(p, k) \<in> set (child_links c)")
    case True
    then have "p \<noteq> pid" "k \<noteq> pid" using links_registered [OF inv True] new by auto
    then show ?thesis using links_forwardD [OF fwd True] i by (simp add: so)
  next
    case False
    with link have "k = pid" "p = parent" "parent \<noteq> 0"
      by (auto simp: child_links_register split: if_splits)
    then have "parent \<noteq> pid" using ok by (auto simp: registration_ok_def)
    then show ?thesis
      using i seen_order_less [OF cinv] \<open>k = pid\<close> \<open>p = parent\<close> by (simp add: so)
  qed
qed

lemma tree_inv_register:
  assumes inv: "tree_inv c" and ok: "registration_ok c pid parent"
  shows "tree_inv (register_process c pid parent name)"
proof -
  let ?c = "register_process c pid parent name"
  from inv have cinv: "collector_inv c" by (simp add: tree_inv_def)
  from ok have new: "map_of (procs c) pid = None" by (simp add: registration_ok_def)
  have par: "parents_of (child_links ?c) k = parents_of (child_links c) k @
      (if k = pid \<and> parent \<noteq> 0 then [parent] else [])" for k
    by (simp add: child_links_register parents_of_def)
  have known: "map_of (procs ?c) k \<noteq> None" if "map_of (procs c) k \<noteq> None" for k
    using that new by auto
  have "parents_of (child_links ?c) k = (if i = 0 then [] else [i]) \<and>
      (i \<noteq> 0 \<longrightarrow> map_of (procs ?c) i \<noteq> None)" if "parent_of ?c k = Some i" for k i
  proof (cases "k = pid")
    case True
    with that have "i = parent" by (simp add: parent_of_register [OF new])
    then show ?thesis
      using True ok known [of parent] parents_of_unregistered [OF cinv new]
      by (simp add: par registration_ok_def del: map_of_register)
  next
    case False
    with that have "parent_of c k = Some i" by (simp add: parent_of_register [OF new])
    from tree_invD [OF inv this] show ?thesis using False known [of i] by (simp add: par del: map_of_register)
  qed
  then show ?thesis
    using register_inv [OF cinv] links_forward_register [OF assms] unfolding tree_inv_def by blast
qed

lemma tree_inv_push:
  assumes "tree_inv c"
  shows "tree_inv (push_call c pid call)"
proof -
  have "seen_order (procs (push_call c pid call)) = seen_order (procs c)"
    by (auto simp: seen_order_def fun_eq_iff record_call_def option.map_comp comp_def)
  moreover have "parent_of (push_call c pid call) = parent_of c"
    by (auto simp: parent_of_def fun_eq_iff record_call_def option.map_comp comp_def)
  moreover have "map_of (procs (push_call c pid call)) k = None \<longleftrightarrow> map_of (procs c) k = None" for k
    by simp
  ultimately show ?thesis
    using assms push_inv [of c pid call]
    unfolding tree_inv_def links_forward_def push_shape(3) by metis
qed

lemma distinct_count: "distinct xs \<Longrightarrow> count_list xs x = (if x \<in> set xs then 1 else 0)"
  by (induction xs) auto

lemma root_count:
  assumes "collector_inv c" and "mset (iter (procs c)) = mset (procs c)"
  shows "count_list (root_pids iter (procs c)) x =
    (case map_of (procs c) x of None \<Rightarrow> 0 | Some p \<Rightarrow> if is_root (procs c) (x, p) then 1 else 0)"
proof -
  have d: "distinct (map fst (procs c))" using assms(1) by (simp add: collector_inv_def)
  have set: "set (iter (procs c)) = set (procs c)" using assms(2) by (rule mset_eq_setD)
  have "mset (map fst (iter (procs c))) = mset (map fst (procs c))" using assms(2) by simp
  from mset_eq_imp_distinct_iff [OF this] d have "distinct (map fst (iter (procs c)))" by simp
  then have dr: "distinct (root_pids iter (procs c))"
    unfolding root_pids_def by (simp add: distinct_map_filter)
  have "x \<in> set (root_pids iter (procs c)) \<longleftrightarrow>
      (\<exists>p. map_of (procs c) x = Some p \<and> is_root (procs c) (x, p))"
    using d by (force simp: root_pids_def set map_of_eq_Some_iff)
  then show ?thesis
    unfolding distinct_count [OF dr] by (auto split: option.splits)
qed

lemma each_process_once:
  assumes "tree_inv c" and "mset (iter (procs c)) = mset (procs c)"
    and "build_tree fuel iter (procs c) (child_links c) = Some ts"
  shows "forest_occurs x ts = (if map_of (procs c) x = None then 0 else 1)"
proof -
  from assms(1) have cinv: "collector_inv c" and fwd: "links_forward c" by (simp_all add: tree_inv_def)
  note occ = occurs_forest [OF assms(3)] and root = root_count [where c = c and iter = iter, OF cinv assms(2)]
  have none: "forest_occurs x ts = 0" if "map_of (procs c) x = None" for x
    using that parents_of_unregistered [OF cinv that] by (simp add: occ [of x] root)
  have some: "forest_occurs x ts = 1" if "seen_order (procs c) x = Some i" for x i
    using that
  proof (induction i arbitrary: x rule: less_induct)
    case (less i)
    then obtain p where p: "map_of (procs c) x = Some p" by (auto simp: seen_order_def)
    then have par: "parent_of c x = Some (pi_parent_id p)" by (simp add: parent_of_def)
    note ps = tree_invD [OF assms(1) par]
    show ?case
    proof (cases "pi_parent_id p = 0")
      case True
      then show ?thesis using p ps(1) by (simp add: occ [of x] root is_root_def)
    next
      case False
      then obtain j where j: "seen_order (procs c) (pi_parent_id p) = Some j"
        using ps(2) by (auto simp: seen_order_def)
      have "pi_parent_id p \<in> set (parents_of (child_links c) x)" using ps(1) False by simp
      then have "(pi_parent_id p, x) \<in> set (child_links c)" by (auto simp: parents_of_def)
      from links_forwardD [OF fwd this j] less.prems have "j < i" by simp
      from less.IH [OF this j] show ?thesis
        using False ps p by (auto simp: occ [of x] root is_root_def)
    qed
  qed
  show ?thesis
    using none some by (cases "map_of (procs c) x") (auto simp: seen_order_def)
qed

section \<open>Properties\<close>

text \<open>The process list of the report is in the order of first registration, one entry per process,
  whatever order the hash map of the collector is iterated in and however the collector was filled.\<close>

theorem report_order:
  assumes "mset (iter (procs (run_ops ops))) = mset (procs (run_ops ops))"
  shows "report_processes iter (run_ops ops) = map (process_entry_of \<circ> snd) (procs (run_ops ops))"
proof (rule report_processes_order)
  show "collector_inv (run_ops ops)" by (simp add: run_ops_def foldl_inv collector_inv_empty)
qed (rule assms)

theorem report_order_witness:
  "report_processes rev (run_ops [Register 4 0 ''a'', Register 9 4 ''b'']) =
     map (process_entry_of \<circ> snd) (procs (run_ops [Register 4 0 ''a'', Register 9 4 ''b'']))"
  by (rule report_order) simp

text \<open>C4: When every process is registered once and its parent before it, building the tree terminates
  and the tree holds each registered process exactly once and nothing else, whatever the order of
  iteration; the depth of the recursion is at most the number of processes.\<close>

theorem tree_complete:
  assumes "tree_inv c" and "mset (iter (procs c)) = mset (procs c)"
  shows "\<exists>ts. build_tree (length (procs c)) iter (procs c) (child_links c) = Some ts \<and>
     (\<forall>x. forest_occurs x ts = (if map_of (procs c) x = None then 0 else 1))"
proof -
  obtain ts where ts: "build_tree (length (procs c)) iter (procs c) (child_links c) = Some ts"
    using build_tree_enough [of c iter] assms by (auto simp: tree_inv_def)
  with each_process_once [OF assms ts] show ?thesis by blast
qed

lemma example_tree:
  "tree_inv (register_process (register_process empty_collector 4 0 ''a'') 9 4 ''b'')"
  by (intro tree_inv_register tree_inv_empty)
    (simp_all add: registration_ok_def empty_collector_def)

theorem tree_complete_witness:
  "\<exists>ts. build_tree (length (procs (register_process (register_process empty_collector 4 0 ''a'') 9 4 ''b'')))
      rev (procs (register_process (register_process empty_collector 4 0 ''a'') 9 4 ''b''))
      (child_links (register_process (register_process empty_collector 4 0 ''a'') 9 4 ''b'')) = Some ts \<and>
    (\<forall>x. forest_occurs x ts =
      (if map_of (procs (register_process (register_process empty_collector 4 0 ''a'') 9 4 ''b'')) x = None
       then 0 else 1))"
  by (rule tree_complete [OF example_tree]) simp




text \<open>\<open>detect_pe_type\<close> panics on exactly the files of at least 64 bytes whose header offset
  points 25 bytes before the end: the guard admits a file with one byte of the optional header's magic
  number, and the second byte is then read out of range. On every other file it returns.\<close>

theorem pe_panics_iff:
  "detect_pe_type file = Panic \<longleftrightarrow>
     (\<exists>data. file = Some data \<and> 64 \<le> length data \<and>
        unat (u32_from_le (data ! 60) (data ! 61) (data ! 62) (data ! 63)) + 25 = length data)"
  by (auto simp: detect_pe_type_def vec_index_def Let_def bind_res_Panic_iff split: option.splits if_splits)

end
