(* ===== verification/Single_Process.thy ===== *)
theory Single_Process
  imports Report
begin

text \<open>
  The collector and the report of an analysis in which only one process was registered, which is what
  the agent does: nothing registers a child. Shared by \<open>Analysis\<close> and the root theory.
\<close>

lemma push_all_single:
  "procs c = [(pid, p)] \<Longrightarrow>
     procs (sink.push_all c pid calls) = [(pid, foldl (\<lambda>p call. record_call call p) p calls)]"
  by (induction calls arbitrary: c p) (simp_all add: sink.push_all_def push_call_def)

lemma recorded:
  "pi_pid (foldl (\<lambda>p call. record_call call p) p calls) = pi_pid p"
  "pi_parent_id (foldl (\<lambda>p call. record_call call p) p calls) = pi_parent_id p"
  "pi_process_name (foldl (\<lambda>p call. record_call call p) p calls) = pi_process_name p"
  "pi_calls (foldl (\<lambda>p call. record_call call p) p calls) = pi_calls p @ calls"
  by (induction calls arbitrary: p) (simp_all add: record_call_def)

lemma register_single:
  "procs (register_process empty_collector pid 0 name) =
     [(pid, \<lparr>pi_pid = pid, pi_parent_id = 0, pi_process_name = name, pi_first_seen_order = 0,
            pi_thread_ids = [], pi_calls = []\<rparr>)]"
  by (simp add: register_process_def empty_collector_def)

lemma register_ops: "register_process empty_collector pid 0 name = run_ops [Register pid 0 name]"
  by (simp add: run_ops_def)

lemma recorded_threads:
  "sorted (pi_thread_ids p) \<Longrightarrow> distinct (pi_thread_ids p) \<Longrightarrow>
     pi_thread_ids (foldl (\<lambda>p call. record_call call p) p calls) =
       sorted_list_of_set (set (pi_thread_ids p) \<union> call_thread_id ` set calls)"
proof (induction calls arbitrary: p)
  case Nil
  then show ?case by (simp add: sorted_list_of_set.idem_if_sorted_distinct)
next
  case (Cons c cs)
  have "sorted (pi_thread_ids (record_call c p))" "distinct (pi_thread_ids (record_call c p))"
    "set (pi_thread_ids (record_call c p)) = insert (call_thread_id c) (set (pi_thread_ids p))"
    using Cons.prems by (simp_all add: record_call_def sorted_insort_insert distinct_insort_insert
        set_insort_insert)
  from Cons.IH [OF this(1,2)] this(3) show ?case by simp
qed

lemma single_report:
  assumes "\<And>xs. mset (iter xs) = mset xs"
  shows "report_processes iter (sink.push_all (register_process empty_collector pid 0 name) pid calls) =
     [\<lparr>pe_process_id = pid, pe_parent_id = 0, pe_process_name = name,
       pe_threads = sorted_list_of_set (call_thread_id ` set calls), pe_calls = map call_entry_of calls\<rparr>]"
proof -
  let ?c0 = "register_process empty_collector pid 0 name"
  have "collector_inv (sink.push_all ?c0 pid calls)"
    by (intro sink.push_all_inv register_inv collector_inv_empty)
  from report_processes_order [where iter = iter, OF this assms] show ?thesis
    by (simp add: push_all_single [OF register_single] process_entry_of_def recorded recorded_threads)
qed

lemma push_all_links: "child_links (sink.push_all c pid calls) = child_links c"
  by (induction calls arbitrary: c) (simp_all add: sink.push_all_def push_shape)

lemma single_tree:
  assumes "\<And>xs. mset (iter xs) = mset xs"
    and c_def: "c = sink.push_all (register_process empty_collector pid 0 name) pid calls"
  shows "build_tree (length (procs c)) iter (procs c) (child_links c) = Some [TreeNode pid name []]"
proof -
  obtain p where p: "procs c = [(pid, p)]" "pi_process_name p = name" "pi_parent_id p = 0"
    unfolding c_def using push_all_single [OF register_single] by (auto simp: recorded)
  have "child_links c = []"
    by (simp add: c_def push_all_links register_process_def empty_collector_def)
  moreover have "iter [(pid, p)] = [(pid, p)]"
    using assms(1) [of "[(pid, p)]"] by (simp add: mset_single_iff_right)
  ultimately show ?thesis
    by (simp add: build_tree_def root_pids_def is_root_def p children_map_def build_node.simps those_def)
qed

end
