(* ===== verification/Report_Json.thy ===== *)
theory Report_Json
  imports Report
begin

text \<open>
  \<open>report_to_json\<close> of \<open>crates/malbox-agent/src/report.rs\<close>: the value that the derived \<open>Serialize\<close> of each struct
  gives, as \<open>serde\<close> documents it (a struct is an object with its fields in order, \<open>rename\<close> replaces a field's
  name, a \<open>Vec\<close> is an array), and the text that \<open>serde_json::to_string\<close> makes of it, which is a parameter.
  Floating-point numbers do not occur in a report.
\<close>

datatype json =
    JNull | JBool bool | JNumber int | JString string | JArray "json list" | JObject "(string \<times> json) list"

section \<open>The value of a report\<close>

definition target_file_value :: "target_file \<Rightarrow> json" where
  "target_file_value f = JObject [(''name'', JString (tf_name f)), (''size'', JNumber (uint (tf_size f))),
     (''type'', JString (tf_r_type f)), (''cape_type_code'', JNumber (uint (tf_cape_type_code f)))]"

definition target_value :: "target \<Rightarrow> json" where
  "target_value t = JObject [(''file'', target_file_value (tg_file t)), (''category'', JString (tg_category t))]"

definition summary_value :: "json summary \<Rightarrow> json" where
  "summary_value s = JObject [(''files'', JArray (sm_files s)), (''read_files'', JArray (sm_read_files s)),
     (''write_files'', JArray (sm_write_files s)), (''delete_files'', JArray (sm_delete_files s))]"

definition argument_value :: "argument \<Rightarrow> json" where
  "argument_value a = JObject [(''name'', JString (ag_name a)), (''value'', JString (ag_value a))]"

definition call_value :: "call_entry \<Rightarrow> json" where
  "call_value c = JObject [(''api'', JString (ce_api c)), (''category'', JString (ce_category c)),
     (''status'', JString (ce_status c)), (''return_value'', JNumber (sint (ce_return_value c))),
     (''thread_id'', JNumber (uint (ce_thread_id c))), (''time'', JNumber (sint (ce_time c))),
     (''arguments'', JArray (map argument_value (ce_arguments c)))]"

definition process_value :: "process_entry \<Rightarrow> json" where
  "process_value p = JObject [(''process_id'', JNumber (uint (pe_process_id p))),
     (''parent_id'', JNumber (uint (pe_parent_id p))), (''process_name'', JString (pe_process_name p)),
     (''threads'', JArray (map (\<lambda>t. JNumber (uint t)) (pe_threads p))), (''calls'', JArray (map call_value (pe_calls p)))]"

fun tree_value :: "tree_node \<Rightarrow> json" where
  "tree_value (TreeNode p n cs) = JObject [(''pid'', JNumber (uint p)), (''name'', JString n),
     (''children'', JArray (map tree_value cs))]"

definition behavior_value :: "json behavior \<Rightarrow> json" where
  "behavior_value b = JObject [(''processes'', JArray (map process_value (bh_processes b))),
     (''processtree'', JArray (map tree_value (bh_processtree b))), (''summary'', summary_value (bh_summary b)),
     (''enhanced'', JArray (bh_enhanced b)), (''anomaly'', JArray (bh_anomaly b)),
     (''encryptedbuffers'', JArray (bh_encryptedbuffers b))]"

definition dropped_value :: "dropped_entry \<Rightarrow> json" where
  "dropped_value d = JObject [(''size'', JNumber (uint (de_size d)))]"

definition signature_value :: "signature \<Rightarrow> json" where
  "signature_value g = JObject [(''name'', JString (sg_name g)), (''alert'', JBool (sg_alert g))]"

definition payload_value :: "payload \<Rightarrow> json" where
  "payload_value p = JObject [(''size'', JNumber (uint (py_size p)))]"

definition cape_value :: "cape \<Rightarrow> json" where
  "cape_value c = JObject [(''payloads'', JArray (map payload_value (cp_payloads c)))]"

definition report_value :: "json report \<Rightarrow> json" where
  "report_value r = JObject [(''target'', target_value (rp_target r)), (''behavior'', behavior_value (rp_behavior r)),
     (''dropped'', JArray (map dropped_value (rp_dropped r))),
     (''signatures'', JArray (map signature_value (rp_signatures r))), (''CAPE'', cape_value (rp_cape r))]"

definition report_to_json :: "(json \<Rightarrow> (string, string) res) \<Rightarrow> json report \<Rightarrow> (string, string) res" where
  "report_to_json to_string r = to_string (report_value r)"

lemma report_to_json_const [simp]: "report_to_json (\<lambda>_. Ok text) r = Ok text"
  by (simp add: report_to_json_def)

text \<open>What a reader finds under a path of names.\<close>

fun json_at :: "string list \<Rightarrow> json \<Rightarrow> json option" where
  "json_at [] v = Some v"
| "json_at (k # ks) v = (case v of JObject fs \<Rightarrow> Option.bind (map_of fs k) (json_at ks) | _ \<Rightarrow> None)"

section \<open>The value determines the report\<close>

lemma number_eq [simp]: "uint v = uint w \<longleftrightarrow> v = w" "sint v = sint w \<longleftrightarrow> v = w"
  for v w :: "'a::len word"
  by (simp add: word_uint_eq_iff) (metis signed_word_eqI)

lemma map_number_eq [simp]: "map (\<lambda>t. JNumber (uint t)) ts = map (\<lambda>t. JNumber (uint t)) us \<longleftrightarrow> ts = us"
  for ts us :: "'a::len word list"
  by (rule inj_map_eq_map) (rule injI, simp)

lemma target_file_value_eq [simp]: "target_file_value f = target_file_value g \<longleftrightarrow> f = g"
  by (cases f; cases g) (auto simp: target_file_value_def)

lemma target_value_eq [simp]: "target_value f = target_value g \<longleftrightarrow> f = g"
  by (cases f; cases g) (auto simp: target_value_def)

lemma summary_value_eq [simp]: "summary_value f = summary_value g \<longleftrightarrow> f = g"
  by (cases f; cases g) (auto simp: summary_value_def)

lemma argument_value_eq [simp]: "argument_value f = argument_value g \<longleftrightarrow> f = g"
  by (cases f; cases g) (auto simp: argument_value_def)

lemma map_argument_value_eq [simp]: "map argument_value fs = map argument_value gs \<longleftrightarrow> fs = gs"
  by (rule inj_map_eq_map) (rule injI, simp)

lemma call_value_eq [simp]: "call_value f = call_value g \<longleftrightarrow> f = g"
  by (cases f; cases g) (auto simp: call_value_def)

lemma map_call_value_eq [simp]: "map call_value fs = map call_value gs \<longleftrightarrow> fs = gs"
  by (rule inj_map_eq_map) (rule injI, simp)

lemma process_value_eq [simp]: "process_value f = process_value g \<longleftrightarrow> f = g"
  by (cases f; cases g) (auto simp: process_value_def)

lemma map_process_value_eq [simp]: "map process_value fs = map process_value gs \<longleftrightarrow> fs = gs"
  by (rule inj_map_eq_map) (rule injI, simp)

lemma tree_value_eq [simp]: "tree_value f = tree_value g \<longleftrightarrow> f = g"
proof (induction f arbitrary: g)
  case (TreeNode p n cs)
  obtain q m ds where g: "g = TreeNode q m ds" by (cases g)
  have "map tree_value cs = map tree_value ds \<longleftrightarrow> cs = ds"
    using TreeNode.IH by (metis list.inj_map_strong)
  then show ?case by (simp add: g)
qed

lemma map_tree_value_eq [simp]: "map tree_value fs = map tree_value gs \<longleftrightarrow> fs = gs"
  by (rule inj_map_eq_map) (rule injI, simp)

lemma behavior_value_eq [simp]: "behavior_value f = behavior_value g \<longleftrightarrow> f = g"
  by (cases f; cases g) (auto simp: behavior_value_def)

lemma dropped_value_eq [simp]: "dropped_value f = dropped_value g \<longleftrightarrow> f = g"
  by (cases f; cases g) (auto simp: dropped_value_def)

lemma map_dropped_value_eq [simp]: "map dropped_value fs = map dropped_value gs \<longleftrightarrow> fs = gs"
  by (rule inj_map_eq_map) (rule injI, simp)

lemma signature_value_eq [simp]: "signature_value f = signature_value g \<longleftrightarrow> f = g"
  by (cases f; cases g) (auto simp: signature_value_def)

lemma map_signature_value_eq [simp]: "map signature_value fs = map signature_value gs \<longleftrightarrow> fs = gs"
  by (rule inj_map_eq_map) (rule injI, simp)

lemma payload_value_eq [simp]: "payload_value f = payload_value g \<longleftrightarrow> f = g"
  by (cases f; cases g) (auto simp: payload_value_def)

lemma map_payload_value_eq [simp]: "map payload_value fs = map payload_value gs \<longleftrightarrow> fs = gs"
  by (rule inj_map_eq_map) (rule injI, simp)

lemma cape_value_eq [simp]: "cape_value f = cape_value g \<longleftrightarrow> f = g"
  by (cases f; cases g) (auto simp: cape_value_def)

lemma report_value_eq [simp]: "report_value f = report_value g \<longleftrightarrow> f = g"
  by (cases f; cases g) (auto simp: report_value_def)

section \<open>Where a reader finds things\<close>

lemma report_paths:
  "json_at [''behavior'', ''processes''] (report_value r) = Some (JArray (map process_value (bh_processes (rp_behavior r))))"
  "json_at [''target'', ''file'', ''type''] (report_value r) = Some (JString (tf_r_type (tg_file (rp_target r))))"
  "json_at [''CAPE'', ''payloads''] (report_value r) = Some (JArray (map payload_value (cp_payloads (rp_cape r))))"
  by (simp_all add: report_value_def behavior_value_def target_value_def target_file_value_def cape_value_def)

end
