(* ===== verification/Analysis.thy ===== *)
theory Analysis
  imports Process Single_Process Report_Json
begin

text \<open>
  \<open>crates/malbox-agent/src/analysis.rs\<close>: one analysis, from the monitor's files to the report.
  What the system, the sample and the reader threads do in between is the record \<open>run_env\<close>; the k-th poll of
  the sample has answers of its own. What the agent does is kept in the order it does it
  (\<open>os_events\<close>), and an early return or a panic leaves the state as it is at that point. The thread
  that serves the command pipe is modelled in \<open>Command_Pipe\<close>.
\<close>

record 'h run_env =
  re_setup :: mon_env
  re_assets :: monitor_assets
  re_rnd :: "nat \<Rightarrow> nat \<Rightarrow> char"
  re_command :: "string list \<Rightarrow> bool"
  re_execute :: os_env
  re_create_log :: "string \<Rightarrow> (u32, 'h) res"
  re_inject :: os_env
  re_resume :: os_env
  re_poll :: "nat \<Rightarrow> os_env"
  re_elapsed :: "nat \<Rightarrow> nat"                    \<comment> \<open>milliseconds since the start, after the \<open>k\<close>-th sleep\<close>
  re_runtime :: nat
  re_activity :: "files \<Rightarrow> files"                \<comment> \<open>what the sample and its monitor did to the files\<close>
  re_create_mutex :: "string \<Rightarrow> bool"
  re_readers :: "analysis_collector \<Rightarrow> analysis_collector"   \<comment> \<open>what the readers pushed until the report\<close>
  re_iter :: "(u32 \<times> proc_info) list \<Rightarrow> (u32 \<times> proc_info) list"
  re_metadata :: "(string, u64) res"
  re_contents :: "u8 list option"
  re_to_string :: "json \<Rightarrow> (string, string) res"
  re_exit :: os_env
  re_cleanup :: mon_env

record 'h run_state =
  rs_os :: win_os
  rs_process :: process
  rs_collector :: analysis_collector
  rs_readers :: "(u32 \<times> 'h) list"

type_synonym ('h, 'a) run = "'h run_state \<Rightarrow> 'h run_state \<times> (string, 'a) res"

text \<open>Sequencing: \<open>?\<close> passes an error on, \<open>unwrap\<close> and \<open>expect\<close> make it a panic.\<close>

definition bind_run :: "('h, 'a) run \<Rightarrow> ('a \<Rightarrow> ('h, 'b) run) \<Rightarrow> ('h, 'b) run" where
  "bind_run m f = (\<lambda>s. case m s of (s', r) \<Rightarrow>
     (case r of Ok x \<Rightarrow> f x s' | Err e \<Rightarrow> (s', Err e) | Panic \<Rightarrow> (s', Panic)))"

definition expect_run :: "('h, 'a) run \<Rightarrow> ('h, 'a) run" where
  "expect_run m = (\<lambda>s. case m s of (s', r) \<Rightarrow> (s', case r of Ok x \<Rightarrow> Ok x | _ \<Rightarrow> Panic))"

text \<open>An operation on the process is one on the state of the run.\<close>

definition on_process :: "(process \<Rightarrow> win_os \<Rightarrow> process \<times> win_os \<times> (error, 'a) res) \<Rightarrow> ('h, 'a) run" where
  "on_process f s = (case f (rs_process s) (rs_os s) of (p, os, r) \<Rightarrow>
     (s\<lparr>rs_process := p, rs_os := os\<rparr>, r))"

section \<open>Up to the running sample\<close>

definition init_monitor :: "'h run_env \<Rightarrow> string \<Rightarrow> ('h, monitor_state) run" where
  "init_monitor env work_dir s =
     (case monitor_init (re_setup env) (re_assets env) (re_rnd env) work_dir (os_files (rs_os s)) of (fs, r) \<Rightarrow>
       (s\<lparr>rs_os := (rs_os s)\<lparr>os_files := fs\<rparr>\<rparr>, r))"

definition run_command :: "'h run_env \<Rightarrow> string list \<Rightarrow> ('h, unit) run" where
  "run_command env cmd s =
     (if re_command env cmd then (s\<lparr>rs_os := emit (Ran cmd) (rs_os s)\<rparr>, Ok ())
      else (s, Err ''failed to run the command''))"

definition restart_winmgmt :: "'h run_env \<Rightarrow> ('h, unit) run" where
  "restart_winmgmt env =
     bind_run (expect_run (run_command env [''net'', ''stop'', ''winmgmt'', ''/y''])) (\<lambda>_.
     bind_run (expect_run (run_command env [''sc.exe'', ''config'', ''winmgmt'', ''type='', ''own''])) (\<lambda>_.
     expect_run (run_command env [''net'', ''start'', ''winmgmt''])))"

definition sample_name_of :: "string \<Rightarrow> string" where
  "sample_name_of path = (case win_file_name path of Some n \<Rightarrow> n | None \<Rightarrow> ''unknown'')"

definition register_sample :: "string \<Rightarrow> ('h, unit) run" where
  "register_sample path s =
     (s\<lparr>rs_collector := register_process (rs_collector s) (pr_pid (rs_process s)) 0 (sample_name_of path)\<rparr>, Ok ())"

definition start_reader :: "'h run_env \<Rightarrow> monitor_state \<Rightarrow> ('h, unit) run" where
  "start_reader env st s =
     (case spawn_reader (re_create_log env) (ms_log_pipe_prefix st) (rs_readers s) (pr_pid (rs_process s)) of
        Ok tasks \<Rightarrow> (s\<lparr>rs_readers := tasks\<rparr>, Ok ())
      | Err e \<Rightarrow> (s, Err (''creating pipe '' @ log_pipe_name (ms_log_pipe_prefix st) (pr_pid (rs_process s)) @
                         '' failed: error '' @ show_dec (unat e)))
      | Panic \<Rightarrow> (s, Panic))"

definition prepare_sample :: "'h run_env \<Rightarrow> analysis_config \<Rightarrow> ('h, monitor_state) run" where
  "prepare_sample env cfg =
     bind_run (init_monitor env (acf_work_dir cfg)) (\<lambda>st.
     bind_run (restart_winmgmt env) (\<lambda>_.
     bind_run (expect_run (on_process (execute (re_execute env) (acf_sample_path cfg) None True))) (\<lambda>_.
     bind_run (register_sample (acf_sample_path cfg)) (\<lambda>_.
     bind_run (start_reader env st) (\<lambda>_.
     bind_run (expect_run (on_process (inject (re_inject env) (Some (acf_sample_path cfg)) False st))) (\<lambda>_ s.
     (s, Ok st)))))))"

definition start_sample :: "'h run_env \<Rightarrow> analysis_config \<Rightarrow> ('h, monitor_state) run" where
  "start_sample env cfg =
     bind_run (prepare_sample env cfg) (\<lambda>st.
     bind_run (expect_run (on_process (resume (re_resume env)))) (\<lambda>_.
     bind_run (expect_run (on_process close)) (\<lambda>_ s. (s, Ok st))))"

section \<open>Watching the sample\<close>

text \<open>The loop of polls, from the \<open>k\<close>-th on; \<open>None\<close> if it never ends.\<close>

partial_function (option) poll_loop ::
    "'h run_env \<Rightarrow> nat \<Rightarrow> nat \<Rightarrow> process \<Rightarrow> win_os \<Rightarrow> (process \<times> win_os \<times> (error, unit) res) option" where
  "poll_loop env timeout_ms k p os =
     (case is_alive (re_poll env k) p os of (p1, os1, r) \<Rightarrow>
       (case r of
          Ok alive \<Rightarrow>
            (if \<not> alive then Some (p1, os1, Ok ())
             else if timeout_ms \<le> re_elapsed env k then
               (case terminate_and_close p1 os1 of (p2, os2) \<Rightarrow> Some (p2, os2, Ok ()))
             else poll_loop env timeout_ms (Suc k) p1 os1)
        | Err e \<Rightarrow> Some (p1, os1, Err e)
        | Panic \<Rightarrow> Some (p1, os1, Panic)))"

section \<open>From the end of the sample to the report\<close>

definition signal_shutdown :: "'h run_env \<Rightarrow> monitor_state \<Rightarrow> ('h, unit) run" where
  "signal_shutdown env st s =
     (if CHR 0x00 \<in> set (ms_shutdown_mutex st) then (s, Err ''nul byte found in provided data'')
      else if re_create_mutex env (ms_shutdown_mutex st) then
        (s\<lparr>rs_os := emit (MutexCreated (ms_shutdown_mutex st)) (snd (new_handle (rs_os s)))\<rparr>, Ok ())
      else (s, Err ''failed to create shutdown mutex''))"

definition ok_run :: "('h, 'a) run \<Rightarrow> ('h, unit) run" where
  "ok_run m s = (case m s of (s', r) \<Rightarrow> (s', case r of Panic \<Rightarrow> Panic | _ \<Rightarrow> Ok ()))"

definition drain_logservers :: "'h run_env \<Rightarrow> ('h, unit) run" where
  "drain_logservers env s =
     (s\<lparr>rs_readers := [], rs_collector := re_readers env (rs_collector s)\<rparr>, Ok ())"

definition nudge :: "monitor_state \<Rightarrow> ('h, unit) run" where
  "nudge st s = (s\<lparr>rs_os := emit (Nudged (ms_command_pipe st)) (rs_os s)\<rparr>, Ok ())"

definition make_report :: "'h run_env \<Rightarrow> analysis_config \<Rightarrow> ('h, string) run" where
  "make_report env cfg s =
     (case build_target_file (re_metadata env) (re_contents env) (acf_sample_path cfg) of
        Ok target \<Rightarrow>
          (case report_build (length (procs (rs_collector s))) (re_iter env) (rs_collector s) target ''file'' of
             Some report \<Rightarrow> (s, report_to_json (re_to_string env) report)
           | None \<Rightarrow> (s, Panic))
      | Err e \<Rightarrow> (s, Err e)
      | Panic \<Rightarrow> (s, Panic))"

definition clean_up :: "'h run_env \<Rightarrow> monitor_state \<Rightarrow> ('h, unit) run" where
  "clean_up env st s =
     (s\<lparr>rs_os := (rs_os s)\<lparr>os_files := monitor_cleanup (re_cleanup env) st (os_files (rs_os s))\<rparr>\<rparr>, Ok ())"

definition finish :: "'h run_env \<Rightarrow> analysis_config \<Rightarrow> monitor_state \<Rightarrow> ('h, agent_result) run" where
  "finish env cfg st =
     bind_run (ok_run (signal_shutdown env st)) (\<lambda>_.
     bind_run (drain_logservers env) (\<lambda>_.
     bind_run (nudge st) (\<lambda>_.
     bind_run (make_report env cfg) (\<lambda>features_json.
     bind_run (on_process (exit_code (re_exit env))) (\<lambda>code.
     bind_run (clean_up env st) (\<lambda>_ s. (s, Ok
       \<lparr>agr_exit_code = (case code of Some c \<Rightarrow> c | None \<Rightarrow> - 1),
        agr_runtime_ms = word_of_nat (re_runtime env), agr_features_json = features_json\<rparr>)))))))"

section \<open>The whole analysis\<close>

definition fresh_run :: "win_os \<Rightarrow> 'h run_state" where
  "fresh_run os = \<lparr>rs_os = os, rs_process = fresh_process, rs_collector = empty_collector, rs_readers = []\<rparr>"

definition sample_ran :: "'h run_env \<Rightarrow> process \<Rightarrow> win_os \<Rightarrow> 'h run_state \<Rightarrow> 'h run_state" where
  "sample_ran env p os s =
     s\<lparr>rs_process := p, rs_os := os\<lparr>os_files := re_activity env (os_files os)\<rparr>\<rparr>"

definition run_analysis ::
    "'h run_env \<Rightarrow> analysis_config \<Rightarrow> win_os \<Rightarrow> ('h run_state \<times> (string, agent_result) res) option" where
  "run_analysis env cfg os =
     (case start_sample env cfg (fresh_run os) of (s, r) \<Rightarrow>
       (case r of
          Ok st \<Rightarrow>
            (case poll_loop env (unat (acf_timeout_secs cfg) * 1000) 0 (rs_process s) (rs_os s) of
               None \<Rightarrow> None
             | Some (p, os', r') \<Rightarrow>
                 (case r' of
                    Ok _ \<Rightarrow> Some (finish env cfg st (sample_ran env p os' s))
                  | Err e \<Rightarrow> Some (sample_ran env p os' s, Err e)
                  | Panic \<Rightarrow> Some (sample_ran env p os' s, Panic)))
        | Err e \<Rightarrow> Some (s, Err e)
        | Panic \<Rightarrow> Some (s, Panic)))"

section \<open>Invariants of a run\<close>

text \<open>\<open>keeps P m\<close>: whatever the outcome of \<open>m\<close>, the state it leaves has \<open>P\<close> if the one it got had it.\<close>

definition keeps :: "('h run_state \<Rightarrow> bool) \<Rightarrow> ('h, 'a) run \<Rightarrow> bool" where
  "keeps P m \<longleftrightarrow> (\<forall>s s' r. P s \<longrightarrow> m s = (s', r) \<longrightarrow> P s')"

named_theorems keeps_intros \<open>preservation along the operations of a run\<close>

lemma keepsD: "keeps P m \<Longrightarrow> m s = (s', r) \<Longrightarrow> P s \<Longrightarrow> P s'"
  by (auto simp: keeps_def)

lemma keeps_bind [keeps_intros]:
  assumes "keeps P m" and "\<And>x. keeps P (f x)"
  shows "keeps P (bind_run m f)"
  unfolding keeps_def
proof (intro allI impI)
  fix s s' r
  assume P: "P s" and b: "bind_run m f s = (s', r)"
  obtain s1 r1 where m: "m s = (s1, r1)" by (cases "m s")
  have "P s1" by (rule keepsD [OF assms(1) m P])
  then show "P s'" using b m assms(2) by (cases r1) (auto simp: bind_run_def keeps_def)
qed

lemma keeps_expect [keeps_intros]: "keeps P m \<Longrightarrow> keeps P (expect_run m)"
  by (auto simp: keeps_def expect_run_def split: prod.splits)

lemma keeps_ok [keeps_intros]: "keeps P m \<Longrightarrow> keeps P (ok_run m)"
  by (auto simp: keeps_def ok_run_def split: prod.splits)

lemma keeps_return [keeps_intros]: "keeps P (\<lambda>s. (s, r))"
  by (simp add: keeps_def)

lemma keeps_process:
  assumes "\<And>p os p' os' r. Q p os \<Longrightarrow> f p os = (p', os', r) \<Longrightarrow> Q p' os'"
  shows "keeps (\<lambda>s. Q (rs_process s) (rs_os s)) (on_process f)"
  using assms by (auto simp: keeps_def on_process_def split: prod.splits)

lemma bind_run_Ok:
  assumes "bind_run m f s = (s', Ok y)"
  obtains s1 x where "m s = (s1, Ok x)" "f x s1 = (s', Ok y)"
  using assms by (cases "m s") (auto simp: bind_run_def split: res.splits)

lemma expect_run_Ok [simp]: "expect_run m s = (s', Ok x) \<longleftrightarrow> m s = (s', Ok x)"
  by (cases "m s") (auto simp: expect_run_def split: res.splits)

lemma on_process_Ok [simp]:
  "on_process f s = (s', Ok x) \<longleftrightarrow> (\<exists>p os. f (rs_process s) (rs_os s) = (p, os, Ok x) \<and>
     s' = s\<lparr>rs_process := p, rs_os := os\<rparr>)"
  by (auto simp: on_process_def split: prod.splits)

text \<open>The handles: along the whole run they are accounted for.\<close>

definition run_handles :: "nat set \<Rightarrow> 'h run_state \<Rightarrow> bool" where
  "run_handles others s = handles_ok others (rs_process s) (rs_os s)"

lemma handles_ok_files [simp]: "handles_ok others p (os\<lparr>os_files := fs\<rparr>) = handles_ok others p os"
  by (simp add: handles_ok_def)

lemma keeps_handles_process:
  assumes "\<And>p os p' os' r. handles_ok others p os \<Longrightarrow> f p os = (p', os', r) \<Longrightarrow> handles_ok others p' os'"
  shows "keeps (run_handles others) (on_process f)"
  using keeps_process [of "handles_ok others" f] assms unfolding run_handles_def by blast

lemma keeps_handles_simple [keeps_intros]:
  "keeps (run_handles others) (init_monitor env w)"
  "keeps (run_handles others) (run_command env cmd)"
  "keeps (run_handles others) (register_sample path)"
  "keeps (run_handles others) (start_reader env st)"
  "keeps (run_handles others) (drain_logservers env)"
  "keeps (run_handles others) (nudge st)"
  "keeps (run_handles others) (make_report env cfg)"
  "keeps (run_handles others) (clean_up env st)"
  by (auto simp: keeps_def run_handles_def init_monitor_def run_command_def register_sample_def
      start_reader_def drain_logservers_def nudge_def make_report_def clean_up_def
      split: prod.splits if_splits res.splits option.splits)

lemma keeps_handles_ops [keeps_intros]:
  "keeps (run_handles others) (on_process (inject env i n st))"
  "keeps (run_handles others) (on_process (resume env))"
  "keeps (run_handles others) (on_process close)"
  "keeps (run_handles others) (on_process (exit_code env))"
  by (rule keeps_handles_process; blast dest: inject_ok resume_ok close_ok exit_code_ok)+

section \<open>What was done before the sample ran\<close>

text \<open>\<open>since evs s\<close>: after the events \<open>evs\<close> nothing was resumed.\<close>

definition since :: "os_event list \<Rightarrow> 'h run_state \<Rightarrow> bool" where
  "since evs s \<longleftrightarrow> (\<exists>post. os_events (rs_os s) = evs @ post \<and> (\<forall>h. Resumed h \<notin> set post))"

lemma sinceI: "os_events (rs_os s) = evs @ post \<Longrightarrow> (\<And>h. Resumed h \<notin> set post) \<Longrightarrow> since evs s"
  by (auto simp: since_def)

lemma since_more:
  assumes "since evs s" and "os_events (rs_os s') = os_events (rs_os s) @ evs1" and "\<And>h. Resumed h \<notin> set evs1"
  shows "since evs s'"
proof -
  obtain post where "os_events (rs_os s) = evs @ post" "\<forall>h. Resumed h \<notin> set post"
    using assms(1) unfolding since_def by blast
  with assms(2,3) show ?thesis by (intro sinceI [of _ _ "post @ evs1"]) auto
qed

lemma keeps_since_process:
  assumes "\<And>p os p' os' r. f p os = (p', os', r) \<Longrightarrow>
      \<exists>evs1. os_events os' = os_events os @ evs1 \<and> (\<forall>h. Resumed h \<notin> set evs1)"
  shows "keeps (since evs) (on_process f)"
  unfolding keeps_def
proof (intro allI impI)
  fix s s' r
  assume s: "since evs s" and f: "on_process f s = (s', r)"
  obtain p os where "f (rs_process s) (rs_os s) = (p, os, r)" "s' = s\<lparr>rs_process := p, rs_os := os\<rparr>"
    using f by (auto simp: on_process_def split: prod.splits)
  with assms show "since evs s'" using since_more [OF s, of s'] by fastforce
qed

lemma keeps_since_simple:
  assumes "\<And>s s' r. m s = (s', r) \<Longrightarrow>
      \<exists>evs1. os_events (rs_os s') = os_events (rs_os s) @ evs1 \<and> (\<forall>h. Resumed h \<notin> set evs1)"
  shows "keeps (since evs) m"
  unfolding keeps_def using assms since_more by blast

lemma keeps_since [keeps_intros]:
  "keeps (since evs) (init_monitor env w)"
  "keeps (since evs) (run_command env cmd)"
  "keeps (since evs) (register_sample path)"
  "keeps (since evs) (start_reader env st)"
  "keeps (since evs) (signal_shutdown env st)"
  "keeps (since evs) (drain_logservers env)"
  "keeps (since evs) (nudge st)"
  "keeps (since evs) (make_report env cfg)"
  "keeps (since evs) (clean_up env st)"
  by (rule keeps_since_simple;
      auto simp: init_monitor_def run_command_def register_sample_def start_reader_def signal_shutdown_def
        drain_logservers_def nudge_def make_report_def clean_up_def new_handle_def
        split: prod.splits if_splits res.splits option.splits)+

lemma keeps_since_ops [keeps_intros]:
  "keeps (since evs) (on_process (execute env path args susp))"
  "keeps (since evs) (on_process (inject env i n st))"
  "keeps (since evs) (on_process close)"
  "keeps (since evs) (on_process (exit_code env))"
proof -
  show "keeps (since evs) (on_process (execute env path args susp))"
    by (rule keeps_since_process) (use execute_events in fastforce)
  show "keeps (since evs) (on_process (inject env i n st))"
  proof (rule keeps_since_process)
    fix p os p' os' r
    assume "inject env i n st p os = (p', os', r)"
    from inject_events(1) [OF this]
    show "\<exists>evs1. os_events os' = os_events os @ evs1 \<and> (\<forall>h. Resumed h \<notin> set evs1)"
      unfolding ran_loader_def by fastforce
  qed
  show "keeps (since evs) (on_process close)"
    by (rule keeps_since_process) (use close_quiet in fastforce)
  show "keeps (since evs) (on_process (exit_code env))"
    by (rule keeps_since_process) (use exit_code_quiet in fastforce)
qed

lemma prepare_since: "keeps (since evs) (prepare_sample env cfg)"
  unfolding prepare_sample_def restart_winmgmt_def by (intro keeps_intros)

lemma finish_since: "keeps (since evs) (finish env cfg st)"
  unfolding finish_def by (intro keeps_intros)

text \<open>When the preparation succeeds, the last two things done were to create the sample suspended and to
  inject the monitor, and a reader is waiting on the sample's log pipe.\<close>

definition prepared :: "'h run_env \<Rightarrow> analysis_config \<Rightarrow> monitor_state \<Rightarrow> 'h run_state \<Rightarrow> bool" where
  "prepared env cfg st s \<longleftrightarrow>
     (\<exists>pre is64. os_events (rs_os s) = pre @
        [Created (pr_pid (rs_process s)) (creation_of (acf_sample_path cfg) None True),
         Ran (loader_command (ms_binaries st) (rs_process s) is64)]) \<and>
     (\<exists>h. re_create_log env (log_pipe_name (ms_log_pipe_prefix st) (pr_pid (rs_process s))) = Ok h \<and>
        rs_readers s = [(pr_pid (rs_process s), h)]) \<and>
     rs_collector s = register_process empty_collector (pr_pid (rs_process s)) 0 (sample_name_of (acf_sample_path cfg)) \<and>
     pr_suspended (rs_process s) \<and> pr_pid (rs_process s) \<noteq> 0"

lemma run_command_Ok: "run_command env cmd s = (s', Ok x) \<Longrightarrow> s' = s\<lparr>rs_os := emit (Ran cmd) (rs_os s)\<rparr>"
  by (auto simp: run_command_def split: if_splits)

lemma restart_Ok:
  assumes "restart_winmgmt env s = (s', Ok x)"
  shows "rs_process s' = rs_process s \<and> rs_collector s' = rs_collector s \<and> rs_readers s' = rs_readers s \<and>
     os_files (rs_os s') = os_files (rs_os s)"
  using assms unfolding restart_winmgmt_def by (auto elim!: bind_run_Ok dest!: run_command_Ok)

text \<open>The files after the preparation: those of the set-up, and the configuration.\<close>

definition wrote_config :: "monitor_state \<Rightarrow> u32 \<Rightarrow> files \<Rightarrow> files \<Rightarrow> bool" where
  "wrote_config st pid fs fs' \<longleftrightarrow> fs' = fs \<or> (\<exists>data. fs' = fs(win_join (mb_work_dir (ms_binaries st))
     (''dll'' @ [bslash] @ show_dec (unat pid) @ ''.ini'') \<mapsto> data))"

lemma prepare_ok:
  assumes "prepare_sample env cfg (fresh_run os) = (s, Ok st)"
  shows "prepared env cfg st s"
    and "\<exists>fs. monitor_init (re_setup env) (re_assets env) (re_rnd env) (acf_work_dir cfg) (os_files os) = (fs, Ok st) \<and>
      wrote_config st (pr_pid (rs_process s)) fs (os_files (rs_os s))"
proof -
  from assms obtain s1 s2 s3 s4 s5 s6 x2 x3 x4 x5 x6 stt where
    m1: "init_monitor env (acf_work_dir cfg) (fresh_run os) = (s1, Ok stt)" and
    m2: "restart_winmgmt env s1 = (s2, Ok x2)" and
    m3: "on_process (execute (re_execute env) (acf_sample_path cfg) None True) s2 = (s3, Ok x3)" and
    m4: "register_sample (acf_sample_path cfg) s3 = (s4, Ok x4)" and
    m5: "start_reader env stt s4 = (s5, Ok x5)" and
    m6: "on_process (inject (re_inject env) (Some (acf_sample_path cfg)) False stt) s5 = (s6, Ok x6)" and
    e: "s = s6" "st = stt"
    unfolding prepare_sample_def by (elim bind_run_Ok) (auto simp only: expect_run_Ok prod.inject res.inject)
  have c1: "rs_collector s1 = empty_collector" "rs_readers s1 = []"
    using m1 by (auto simp: init_monitor_def fresh_run_def split: prod.splits)
  obtain fs where fs: "monitor_init (re_setup env) (re_assets env) (re_rnd env) (acf_work_dir cfg) (os_files os) = (fs, Ok st)"
    "os_files (rs_os s1) = fs"
    using m1 e by (auto simp: init_monitor_def fresh_run_def split: prod.splits)
  have c2: "rs_collector s2 = empty_collector" "rs_readers s2 = []"
    using restart_Ok [OF m2] c1 by simp_all
  from m3 obtain p os3 where x: "execute (re_execute env) (acf_sample_path cfg) None True (rs_process s2) (rs_os s2) = (p, os3, Ok ())"
    "s3 = s2\<lparr>rs_process := p, rs_os := os3\<rparr>" by auto
  let ?created = "[Created (pr_pid p) (creation_of (acf_sample_path cfg) None True)]"
  have ev3: "os_events os3 = os_events (rs_os s2) @ ?created" and susp: "pr_suspended p"
    using execute_events [OF x(1)] by auto
  have s4: "s4 = s3\<lparr>rs_collector := register_process empty_collector (pr_pid p) 0 (sample_name_of (acf_sample_path cfg))\<rparr>"
    using m4 by (simp add: register_sample_def x(2) c2)
  obtain h where h: "re_create_log env (log_pipe_name (ms_log_pipe_prefix stt) (pr_pid p)) = Ok h"
    "s5 = s4\<lparr>rs_readers := [(pr_pid p, h)]\<rparr>"
    using m5 s4 c2 x(2) by (auto simp: start_reader_def spawn_reader_def bind_res_Ok_iff split: res.splits)
  from m6 obtain p6 os6 where i: "inject (re_inject env) (Some (acf_sample_path cfg)) False stt p os3 = (p6, os6, Ok ())"
    "s6 = s5\<lparr>rs_process := p6, rs_os := os6\<rparr>" using h(2) s4 x(2) by auto
  have ids: "pr_pid p6 = pr_pid p" "pr_tid p6 = pr_tid p" "pr_suspended p6"
    using inject_events(2) [OF i(1)] susp by auto
  have pid: "pr_pid p \<noteq> 0" using i(1) by (auto simp: inject_def)
  have "os_files os3 = fs" using execute_files [OF x(1)] restart_Ok [OF m2] fs(2) by simp
  then have "wrote_config st (pr_pid p) fs (os_files os6)"
    using inject_files [OF i(1)] unfolding wrote_config_def e(2) by simp
  then show "\<exists>fs. monitor_init (re_setup env) (re_assets env) (re_rnd env) (acf_work_dir cfg) (os_files os) = (fs, Ok st) \<and>
      wrote_config st (pr_pid (rs_process s)) fs (os_files (rs_os s))"
    using fs(1) i(2) e(1) ids by auto
  obtain is64 where "os_events os6 = os_events (rs_os s2) @ ?created @
      [Ran (loader_command (ms_binaries stt) p is64)]"
    using inject_events(1) [OF i(1)] ev3 unfolding ran_loader_def by auto
  moreover have "loader_command (ms_binaries stt) p6 is64 = loader_command (ms_binaries stt) p is64"
    by (simp add: loader_command_def ids)
  ultimately have "\<exists>pre is64. os_events os6 = pre @ ?created @
      [Ran (loader_command (ms_binaries stt) p6 is64)]"
    by metis
  then show "prepared env cfg st s"
    using h s4 x(2) i(2) e ids pid unfolding prepared_def by simp
qed

section \<open>The polls\<close>

text \<open>How the loop ended: its last poll, before which an invariant of the earlier ones held.\<close>

inductive last_poll :: "'h run_env \<Rightarrow> nat \<Rightarrow> (process \<Rightarrow> win_os \<Rightarrow> bool) \<Rightarrow>
    process \<times> win_os \<times> (error, unit) res \<Rightarrow> bool"
  for env t Q where
  exited: "Q p os \<Longrightarrow> is_alive (re_poll env k) p os = (p1, os1, Ok False) \<Longrightarrow>
     last_poll env t Q (p1, os1, Ok ())"
| timed_out: "Q p os \<Longrightarrow> is_alive (re_poll env k) p os = (p1, os1, Ok True) \<Longrightarrow> t \<le> re_elapsed env k \<Longrightarrow>
     terminate_and_close p1 os1 = (p2, os2) \<Longrightarrow> last_poll env t Q (p2, os2, Ok ())"
| failed: "Q p os \<Longrightarrow> is_alive (re_poll env k) p os = (p1, os1, r1) \<Longrightarrow> \<forall>b. r1 \<noteq> Ok b \<Longrightarrow>
     last_poll env t Q (p1, os1, r)"

inductive_cases last_pollE: "last_poll env t Q (p', os', r)"

lemma poll_last:
  assumes run: "poll_loop env t k p os = Some y" and init: "Q p os"
    and alive: "\<And>k p os p' os' r. Q p os \<Longrightarrow> is_alive (re_poll env k) p os = (p', os', r) \<Longrightarrow> Q p' os'"
  shows "last_poll env t Q y"
proof -
  define S where "S = (\<lambda>e :: 'a run_env. \<forall>k p os p' os' r.
      Q p os \<longrightarrow> is_alive (re_poll e k) p os = (p', os', r) \<longrightarrow> Q p' os')"
  have "S env \<longrightarrow> Q p os \<longrightarrow> last_poll env t Q y"
    using run
  proof (rule poll_loop.raw_induct [where P = "\<lambda>e t k p os y. S e \<longrightarrow> Q p os \<longrightarrow> last_poll e t Q y", rotated])
    fix loop :: "'a run_env \<Rightarrow> nat \<Rightarrow> nat \<Rightarrow> process \<Rightarrow> win_os \<Rightarrow> (process \<times> win_os \<times> (error, unit) res) option"
      and e :: "'a run_env" and t k p os y
    assume IH: "\<And>e t k p os y. loop e t k p os = Some y \<Longrightarrow> S e \<longrightarrow> Q p os \<longrightarrow> last_poll e t Q y"
      and y: "(case is_alive (re_poll e k) p os of (p1, os1, r) \<Rightarrow>
       (case r of
          Ok alive \<Rightarrow>
            (if \<not> alive then Some (p1, os1, Ok ())
             else if t \<le> re_elapsed e k then
               (case terminate_and_close p1 os1 of (p2, os2) \<Rightarrow> Some (p2, os2, Ok ()))
             else loop e t (Suc k) p1 os1)
        | Err e \<Rightarrow> Some (p1, os1, Err e)
        | Panic \<Rightarrow> Some (p1, os1, Panic))) = Some y"
    show "S e \<longrightarrow> Q p os \<longrightarrow> last_poll e t Q y"
    proof (intro impI)
      assume e: "S e" and q: "Q p os"
      obtain p1 os1 r1 where a: "is_alive (re_poll e k) p os = (p1, os1, r1)" by (cases "is_alive (re_poll e k) p os")
      have q1: "Q p1 os1" using e q a unfolding S_def by blast
      obtain p2 os2 where t2: "terminate_and_close p1 os1 = (p2, os2)" by (cases "terminate_and_close p1 os1")
      show "last_poll e t Q y"
      proof (cases "r1 = Ok True \<and> re_elapsed e k < t")
        case True
        then have "loop e t (Suc k) p1 os1 = Some y" using y by (simp add: a)
        then show ?thesis using IH e q1 by blast
      next
        case False
        then consider "r1 = Ok False" | "r1 = Ok True" "t \<le> re_elapsed e k" | "\<forall>b. r1 \<noteq> Ok b"
          by (metis (full_types) not_le)
        then show ?thesis
        proof cases
          case 1
          with a y have "y = (p1, os1, Ok ())" by simp
          then show ?thesis using exited q a 1 by blast
        next
          case 2
          with a y t2 have "y = (p2, os2, Ok ())" by simp
          then show ?thesis using timed_out q a t2 2 by blast
        next
          case 3
          with a y have "\<exists>r. y = (p1, os1, r)" by (cases r1) auto
          then show ?thesis using failed q a 3 by blast
        qed
      qed
    qed
  qed
  moreover have "S env" using alive unfolding S_def by blast
  ultimately show ?thesis using init by blast
qed

lemma poll_invariant:
  assumes "poll_loop env t k p os = Some (p', os', r)" and "Q p os"
    and alive: "\<And>k p os p' os' r. Q p os \<Longrightarrow> is_alive (re_poll env k) p os = (p', os', r) \<Longrightarrow> Q p' os'"
    and stop: "\<And>p os p' os'. Q p os \<Longrightarrow> terminate_and_close p os = (p', os') \<Longrightarrow> Q p' os'"
  shows "Q p' os'"
proof -
  have "last_poll env t Q (p', os', r)" by (rule poll_last [where Q = Q, OF assms(1,2) alive])
  then show ?thesis by (rule last_pollE) (use alive stop in blast)+
qed

text \<open>A process with an identifier is polled without a panic.\<close>

lemma is_alive_result:
  assumes "pr_pid p \<noteq> 0" and "is_alive env p os = (p', os', r)"
  shows "\<exists>b. r = Ok b"
proof -
  have "pr_h_process p1 \<noteq> None" if "open_process env p os = (p1, os1, r1)" for p1 os1 r1
    using that assms(1) by (auto simp: open_process_def open_thread_part_def Let_def split: if_splits prod.splits)
  then show ?thesis using assms(2)
    by (fastforce simp: is_alive_def exit_code_def has_handle_def split: prod.splits if_splits option.splits)
qed

lemma poll_result:
  assumes "poll_loop env t k p os = Some (p', os', r)" and "pr_pid p \<noteq> 0"
  shows "r = Ok ()"
proof -
  have "last_poll env t (\<lambda>p _. pr_pid p \<noteq> 0) (p', os', r)"
    by (rule poll_last [where Q = "\<lambda>p _. pr_pid p \<noteq> 0", OF assms]) (use is_alive_ids in metis)
  then show ?thesis
  proof (rule last_pollE)
    fix p os k r1
    assume "is_alive (re_poll env k) p os = (p', os', r1)" "pr_pid p \<noteq> 0" "\<forall>b. r1 \<noteq> Ok b"
    then show ?thesis using is_alive_result by blast
  qed simp_all
qed

lemma poll_handles:
  assumes "poll_loop env t k p os = Some (p', os', r)" and "handles_ok others p os"
  shows "handles_ok others p' os'"
  using assms by (rule poll_invariant) (blast dest: is_alive_ok terminate_ok)+

lemma poll_events:
  assumes "poll_loop env t k p os = Some (p', os', r)"
  shows "\<exists>evs. os_events os' = os_events os @ evs \<and> (\<forall>h. Resumed h \<notin> set evs)"
proof (rule poll_invariant [OF assms, of "\<lambda>_ o1. \<exists>evs. os_events o1 = os_events os @ evs \<and> (\<forall>h. Resumed h \<notin> set evs)"])
  fix p1 o1 p2 o2
  assume "\<exists>evs. os_events o1 = os_events os @ evs \<and> (\<forall>h. Resumed h \<notin> set evs)"
    and t: "terminate_and_close p1 o1 = (p2, o2)"
  then obtain evs where "os_events o1 = os_events os @ evs" "\<forall>h. Resumed h \<notin> set evs" by blast
  with terminate_events [OF t]
  show "\<exists>evs. os_events o2 = os_events os @ evs \<and> (\<forall>h. Resumed h \<notin> set evs)"
    by (auto split: option.splits if_splits)
qed (use is_alive_quiet in auto)

text \<open>A clock on which the \<open>k\<close>-th sleep of half a second has passed.\<close>

definition clock_ok :: "'h run_env \<Rightarrow> bool" where
  "clock_ok env \<longleftrightarrow> (\<forall>k. 500 * Suc k \<le> re_elapsed env k)"

lemma poll_returns:
  assumes "clock_ok env" and "t \<le> 500 * (k + n)"
  shows "\<exists>p' os' r. poll_loop env t k p os = Some (p', os', r)"
  using assms(2)
proof (induction n arbitrary: k p os)
  case (0 k)
  have "500 * Suc k \<le> re_elapsed env k" using assms(1) unfolding clock_ok_def by blast
  then have "t \<le> re_elapsed env k" using 0 by simp
  then show ?case
    by (auto simp: poll_loop.simps [of env t k] split: prod.splits res.splits)
next
  case (Suc n k)
  then have "t \<le> 500 * (Suc k + n)" by simp
  note IH = Suc.IH [OF this]
  show ?case
    using IH by (auto simp: poll_loop.simps [of env t k] split: prod.splits res.splits)
qed

section \<open>From beginning to end\<close>

lemma start_shape:
  assumes "prepare_sample env cfg s0 = (sp, rp)" and "start_sample env cfg s0 = (s1, r1)"
  shows "(s1 = sp \<and> (\<forall>st. r1 \<noteq> Ok st) \<and> (\<forall>st. rp \<noteq> Ok st)) \<or>
     (\<exists>st sr rr. rp = Ok st \<and> on_process (resume (re_resume env)) sp = (sr, rr) \<and> (\<forall>evs. since evs sr \<longrightarrow> since evs s1))"
proof (cases rp)
  case (Ok st)
  obtain sr rr where r: "on_process (resume (re_resume env)) sp = (sr, rr)"
    by (cases "on_process (resume (re_resume env)) sp")
  obtain re where re: "expect_run (on_process (resume (re_resume env))) sp = (sr, re)"
    using r by (auto simp: expect_run_def)
  have "keeps (since evs) (bind_run (expect_run (on_process close)) (\<lambda>_ s. (s, Ok st)))" for evs
    by (intro keeps_intros)
  moreover have "s1 = sr \<or> (\<exists>q. bind_run (expect_run (on_process close)) (\<lambda>_ s. (s, Ok st)) sr = (s1, q))"
    using assms Ok re unfolding start_sample_def bind_run_def [of "prepare_sample env cfg"]
      bind_run_def [of "expect_run (on_process (resume (re_resume env)))"]
    by (auto split: res.splits)
  ultimately show ?thesis using Ok r unfolding keeps_def by blast
qed (use assms in \<open>auto simp: start_sample_def bind_run_def\<close>)

lemma after_start:
  assumes "run_analysis env cfg os = Some (s, r)" and "start_sample env cfg (fresh_run os) = (s1, r1)"
    and "since evs s1"
  shows "since evs s"
proof (cases r1)
  case (Ok st)
  then obtain p os' r' where poll: "poll_loop env (unat (acf_timeout_secs cfg) * 1000) 0
      (rs_process s1) (rs_os s1) = Some (p, os', r')"
    using assms(1,2) by (auto simp: run_analysis_def split: option.splits)
  obtain evs1 where "os_events os' = os_events (rs_os s1) @ evs1" "\<forall>h. Resumed h \<notin> set evs1"
    using poll_events [OF poll] by blast
  then have ran: "since evs (sample_ran env p os' s1)"
    by (intro since_more [OF assms(3), of _ evs1]) (simp_all add: sample_ran_def)
  have "s = sample_ran env p os' s1 \<or> finish env cfg st (sample_ran env p os' s1) = (s, r)"
    using assms(1,2) Ok poll by (auto simp: run_analysis_def split: res.splits)
  then show ?thesis using ran keepsD [OF finish_since] by blast
qed (use assms in \<open>auto simp: run_analysis_def\<close>)


text \<open>What an analysis that got past its preparation did, and what one that succeeded did.\<close>

lemma start_ok:
  assumes "start_sample env cfg s0 = (s1, Ok st)"
  obtains sp pr osr pc osc b where "prepare_sample env cfg s0 = (sp, Ok st)"
    and "resume (re_resume env) (rs_process sp) (rs_os sp) = (pr, osr, Ok b)"
    and "close pr osr = (pc, osc, Ok ())" and "s1 = sp\<lparr>rs_process := pc, rs_os := osc\<rparr>"
proof -
  from assms obtain sp s2 s3 x y st' where
    p: "prepare_sample env cfg s0 = (sp, Ok st')" and
    r: "on_process (resume (re_resume env)) sp = (s2, Ok x)" and
    c: "on_process close s2 = (s3, Ok y)" and e: "s1 = s3" "st = st'"
    unfolding start_sample_def by (elim bind_run_Ok) (auto simp only: expect_run_Ok prod.inject res.inject)
  from r obtain pr osr where r2: "resume (re_resume env) (rs_process sp) (rs_os sp) = (pr, osr, Ok x)"
    "s2 = sp\<lparr>rs_process := pr, rs_os := osr\<rparr>" by auto
  with c obtain pc osc where c2: "close pr osr = (pc, osc, Ok ())" "s3 = sp\<lparr>rs_process := pc, rs_os := osc\<rparr>"
    by auto
  show ?thesis by (rule that [of sp pr osr x pc osc]) (use p r2 c2 e in simp_all)
qed

lemma close_none: "close p os = (p', os', Ok ()) \<Longrightarrow> pr_h_process p' = None \<and> pr_h_thread p' = None"
  by (auto simp: close_def Let_def split: prod.splits if_splits)

lemma started:
  assumes "start_sample env cfg (fresh_run os) = (s1, Ok st)"
  shows "rs_collector s1 =
      register_process empty_collector (pr_pid (rs_process s1)) 0 (sample_name_of (acf_sample_path cfg))"
    and "pr_pid (rs_process s1) \<noteq> 0" and "pr_h_process (rs_process s1) = None" and "pr_h_thread (rs_process s1) = None"
    and "\<exists>fs. monitor_init (re_setup env) (re_assets env) (re_rnd env) (acf_work_dir cfg) (os_files os) = (fs, Ok st) \<and>
      wrote_config st (pr_pid (rs_process s1)) fs (os_files (rs_os s1))"
proof -
  obtain sp pr osr pc osc b where p: "prepare_sample env cfg (fresh_run os) = (sp, Ok st)"
    and r: "resume (re_resume env) (rs_process sp) (rs_os sp) = (pr, osr, Ok b)"
    and c: "close pr osr = (pc, osc, Ok ())" and s1: "s1 = sp\<lparr>rs_process := pc, rs_os := osc\<rparr>"
    by (rule start_ok [OF assms])
  have pid: "pr_pid (rs_process s1) = pr_pid (rs_process sp)"
    using resume_ids [OF r] close_ids [OF c] by (simp add: s1)
  have files: "os_files (rs_os s1) = os_files (rs_os sp)"
    using resume_files [OF r] close_files [OF c] by (simp add: s1)
  show "rs_collector s1 =
      register_process empty_collector (pr_pid (rs_process s1)) 0 (sample_name_of (acf_sample_path cfg))"
    "pr_pid (rs_process s1) \<noteq> 0"
    using prepare_ok(1) [OF p] unfolding prepared_def pid by (simp_all add: s1)
  show "pr_h_process (rs_process s1) = None" "pr_h_thread (rs_process s1) = None"
    using close_none [OF c] by (simp_all add: s1)
  show "\<exists>fs. monitor_init (re_setup env) (re_assets env) (re_rnd env) (acf_work_dir cfg) (os_files os) = (fs, Ok st) \<and>
      wrote_config st (pr_pid (rs_process s1)) fs (os_files (rs_os s1))"
    unfolding pid files by (rule prepare_ok(2) [OF p])
qed

lemma analysis_split:
  assumes "run_analysis env cfg os = Some (s, r)" and "start_sample env cfg (fresh_run os) = (s1, Ok st)"
  obtains p os' where
    "poll_loop env (unat (acf_timeout_secs cfg) * 1000) 0 (rs_process s1) (rs_os s1) = Some (p, os', Ok ())"
    and "finish env cfg st (sample_ran env p os' s1) = (s, r)"
proof -
  obtain p os' r' where poll: "poll_loop env (unat (acf_timeout_secs cfg) * 1000) 0
      (rs_process s1) (rs_os s1) = Some (p, os', r')"
    using assms by (auto simp: run_analysis_def split: option.splits)
  have "r' = Ok ()" by (rule poll_result [OF poll started(2) [OF assms(2)]])
  with poll assms show ?thesis using that by (simp add: run_analysis_def)
qed

lemma analysis_ok:
  assumes "run_analysis env cfg os = Some (s, Ok res)"
  obtains s1 st where "start_sample env cfg (fresh_run os) = (s1, Ok st)"
  using assms by (cases "start_sample env cfg (fresh_run os)") (auto simp: run_analysis_def split: res.splits)

lemma signal_same:
  assumes "signal_shutdown env st s = (s', r)"
  shows "rs_process s' = rs_process s \<and> rs_collector s' = rs_collector s \<and> os_files (rs_os s') = os_files (rs_os s) \<and>
     (\<exists>evs. os_events (rs_os s') = os_events (rs_os s) @ evs) \<and> r \<noteq> Panic"
  using assms by (auto simp: signal_shutdown_def new_handle_def split: if_splits)

lemma ok_signal_same:
  assumes "ok_run (signal_shutdown env st) s = (s', r)"
  shows "rs_process s' = rs_process s \<and> rs_collector s' = rs_collector s \<and> os_files (rs_os s') = os_files (rs_os s) \<and>
     r = Ok ()"
proof -
  obtain r1 where "signal_shutdown env st s = (s', r1)" "r = (case r1 of Panic \<Rightarrow> Panic | _ \<Rightarrow> Ok ())"
    using assms by (auto simp: ok_run_def split: prod.splits)
  with signal_same [OF this(1)] show ?thesis by (cases r1) auto
qed

lemma finish_shape:
  obtains s1 where "rs_process s1 = rs_process s" and "rs_collector s1 = re_readers env (rs_collector s)"
    and "os_files (rs_os s1) = os_files (rs_os s)"
    and "finish env cfg st s = bind_run (make_report env cfg) (\<lambda>features_json.
     bind_run (on_process (exit_code (re_exit env))) (\<lambda>code.
     bind_run (clean_up env st) (\<lambda>_ s. (s, Ok
       \<lparr>agr_exit_code = (case code of Some c \<Rightarrow> c | None \<Rightarrow> - 1),
        agr_runtime_ms = word_of_nat (re_runtime env), agr_features_json = features_json\<rparr>)))) s1"
proof -
  obtain sa ra where a: "ok_run (signal_shutdown env st) s = (sa, ra)" by (cases "ok_run (signal_shutdown env st) s")
  let ?sb = "sa\<lparr>rs_readers := [], rs_collector := re_readers env (rs_collector sa),
      rs_os := emit (Nudged (ms_command_pipe st)) (rs_os sa)\<rparr>"
  show ?thesis
    by (rule that [of ?sb])
      (use ok_signal_same [OF a] in \<open>simp_all add: finish_def bind_run_def [of "ok_run (signal_shutdown env st)"] a
        bind_run_def [of "drain_logservers env"] drain_logservers_def bind_run_def [of "nudge st"] nudge_def\<close>)
qed

lemma finish_ok:
  assumes "finish env cfg st s = (s', Ok res)"
  obtains target report p os1 os2 code where
    "build_target_file (re_metadata env) (re_contents env) (acf_sample_path cfg) = Ok target"
    and "report_build (length (procs (re_readers env (rs_collector s)))) (re_iter env)
      (re_readers env (rs_collector s)) target ''file'' = Some report"
    and "report_to_json (re_to_string env) report = Ok (agr_features_json res)"
    and "exit_code (re_exit env) (rs_process s) os1 = (p, os2, Ok code)" and "rs_process s' = p"
    and "agr_exit_code res = (case code of Some c \<Rightarrow> c | None \<Rightarrow> - 1)"
    and "os_files (rs_os s') = monitor_cleanup (re_cleanup env) st (os_files (rs_os s))"
    and "os_open (rs_os s') = os_open os2"
proof -
  obtain s1 where s1: "rs_process s1 = rs_process s" "rs_collector s1 = re_readers env (rs_collector s)"
    "os_files (rs_os s1) = os_files (rs_os s)" and fin: "finish env cfg st s = bind_run (make_report env cfg) (\<lambda>features_json.
     bind_run (on_process (exit_code (re_exit env))) (\<lambda>code.
     bind_run (clean_up env st) (\<lambda>_ s. (s, Ok
       \<lparr>agr_exit_code = (case code of Some c \<Rightarrow> c | None \<Rightarrow> - 1),
        agr_runtime_ms = word_of_nat (re_runtime env), agr_features_json = features_json\<rparr>)))) s1"
    by (rule finish_shape)
  from assms [unfolded fin] obtain s2 json s3 code s4 x where
    m: "make_report env cfg s1 = (s2, Ok json)" and x: "on_process (exit_code (re_exit env)) s2 = (s3, Ok code)"
    and c: "clean_up env st s3 = (s4, Ok x)" and s': "s' = s4"
    and res: "res = \<lparr>agr_exit_code = (case code of Some c \<Rightarrow> c | None \<Rightarrow> - 1),
        agr_runtime_ms = word_of_nat (re_runtime env), agr_features_json = json\<rparr>"
    by (elim bind_run_Ok) (simp only: prod.inject res.inject)
  obtain target where t1: "build_target_file (re_metadata env) (re_contents env) (acf_sample_path cfg) = Ok target"
    using m by (cases "build_target_file (re_metadata env) (re_contents env) (acf_sample_path cfg)")
      (simp_all add: make_report_def)
  obtain report where t2:
    "report_build (length (procs (rs_collector s1))) (re_iter env) (rs_collector s1) target ''file'' = Some report"
    and t: "s2 = s1" "report_to_json (re_to_string env) report = Ok json"
    using m by (simp add: make_report_def t1 split: option.splits)
  from x obtain p os2 where p: "exit_code (re_exit env) (rs_process s1) (rs_os s1) = (p, os2, Ok code)"
    "s3 = s1\<lparr>rs_process := p, rs_os := os2\<rparr>" by (auto simp: t(1))
  have s4: "s' = s3\<lparr>rs_os := os2\<lparr>os_files := monitor_cleanup (re_cleanup env) st (os_files os2)\<rparr>\<rparr>"
    using c s' p(2) by (simp add: clean_up_def)
  have files: "os_files os2 = os_files (rs_os s)" using exit_code_files [OF p(1)] s1(3) by simp
  show ?thesis
  proof (rule that [OF t1 t2 [unfolded s1(2)] _ p(1) [unfolded s1(1)]])
    show "report_to_json (re_to_string env) report = Ok (agr_features_json res)" by (simp add: t(2) res)
    show "rs_process s' = p" by (simp add: s4 p(2))
    show "agr_exit_code res = (case code of Some c \<Rightarrow> c | None \<Rightarrow> - 1)" by (simp add: res)
    show "os_files (rs_os s') = monitor_cleanup (re_cleanup env) st (os_files (rs_os s))" by (simp add: s4 files)
    show "os_open (rs_os s') = os_open os2" by (simp add: s4)
  qed
qed

section \<open>A complete run\<close>

definition gone :: "os_env \<Rightarrow> os_env" where
  "gone e = e\<lparr>oe_open_process := (\<lambda>_ _. False), oe_exit_code := (\<lambda>_. None)\<rparr>"

definition example_run_env :: "nat run_env" where
  "example_run_env = \<lparr>re_setup = good_mon, re_assets = example_assets, re_rnd = example_rnd,
     re_command = (\<lambda>_. True), re_execute = agent_os_env None, re_create_log = (\<lambda>_. Ok 9),
     re_inject = agent_os_env (Some 259), re_resume = agent_os_env None,
     re_poll = (\<lambda>_. gone (agent_os_env None)), re_elapsed = (\<lambda>k. 500 * Suc k), re_runtime = 500,
     re_activity = (\<lambda>fs. fs), re_create_mutex = (\<lambda>_. True),
     re_readers = (\<lambda>c. sink.push_all c 7 [example_call]), re_iter = (\<lambda>xs. xs),
     re_metadata = Ok 3, re_contents = Some [77, 90, 1], re_to_string = (\<lambda>v. Ok ''{}''),
     re_exit = gone (agent_os_env None), re_cleanup = good_mon\<rparr>"

definition sample_cfg :: analysis_config where
  "sample_cfg = \<lparr>acf_sample_path = upload_dir @ [bslash] @ ''a.exe'', acf_timeout_secs = 300, acf_work_dir = upload_dir\<rparr>"

lemma example_prepare_on:
  "\<exists>s. prepare_sample example_run_env sample_cfg (fresh_run (example_os\<lparr>os_files := fs\<rparr>)) = (s, Ok example_state) \<and>
     rs_process s = \<lparr>pr_pid = 7, pr_tid = 8, pr_h_process = Some (Handle 1), pr_h_thread = Some (Handle 2), pr_suspended = True\<rparr> \<and>
     os_open (rs_os s) = {0, 1, 2} \<and> os_next (rs_os s) = 3"
  by (simp add: prepare_sample_def bind_run_def expect_run_def on_process_def init_monitor_def example_run_env_def
      restart_winmgmt_def run_command_def register_sample_def start_reader_def spawn_reader_def fresh_run_def
      example_init example_simps sample_cfg_def inject_def inject_with_def is_64bit_def write_monitor_config_def
      run_loader_def Let_def insert_commute) (simp add: numeral_2_eq_2)

lemma example_os_files [simp]: "example_os\<lparr>os_files := Map.empty\<rparr> = example_os"
  by (simp add: example_os_def)

lemmas example_prepare = example_prepare_on [of Map.empty, unfolded example_os_files]

lemma example_start_on:
  "\<exists>s. start_sample example_run_env sample_cfg (fresh_run (example_os\<lparr>os_files := fs\<rparr>)) = (s, Ok example_state) \<and>
     rs_process s = \<lparr>pr_pid = 7, pr_tid = 8, pr_h_process = None, pr_h_thread = None, pr_suspended = False\<rparr>"
proof -
  obtain s where s: "prepare_sample example_run_env sample_cfg (fresh_run (example_os\<lparr>os_files := fs\<rparr>)) = (s, Ok example_state)"
    "rs_process s = \<lparr>pr_pid = 7, pr_tid = 8, pr_h_process = Some (Handle 1), pr_h_thread = Some (Handle 2), pr_suspended = True\<rparr>"
    "os_open (rs_os s) = {0, 1, 2}"
    using example_prepare_on by blast
  have res: "re_resume example_run_env = agent_os_env None" by (simp add: example_run_env_def)
  show ?thesis
    by (simp add: start_sample_def bind_run_def [of "prepare_sample example_run_env sample_cfg"] s(1) res)
      (simp add: bind_run_def expect_run_def on_process_def s(2,3) resume_def example_simps)
qed

lemmas example_start = example_start_on [of Map.empty, unfolded example_os_files]

lemma example_finish:
  assumes "rs_process s = \<lparr>pr_pid = 7, pr_tid = 8, pr_h_process = Some Null, pr_h_thread = None, pr_suspended = False\<rparr>"
    and "rs_collector s = register_process empty_collector 7 0 nm"
  shows "\<exists>s'. finish example_run_env sample_cfg example_state s = (s', Ok
     \<lparr>agr_exit_code = - 1, agr_runtime_ms = 500, agr_features_json = ''{}''\<rparr>) \<and> pr_pid (rs_process s') = 7"
proof -
  let ?c = "sink.push_all (register_process empty_collector 7 0 nm) 7 [example_call]"
  have tree: "build_tree (length (procs ?c)) (\<lambda>xs. xs) (procs ?c) (child_links ?c) = Some [TreeNode 7 nm []]"
    by (rule single_tree) simp_all
  show ?thesis using assms
    by (simp add: finish_def bind_run_def ok_run_def signal_shutdown_def drain_logservers_def nudge_def make_report_def
        clean_up_def on_process_def example_run_env_def build_target_file_def detect_pe_type_def report_build_def tree
        gone_def example_simps)
qed

lemma example_polls:
  assumes "rs_process s = \<lparr>pr_pid = 7, pr_tid = 8, pr_h_process = None, pr_h_thread = None, pr_suspended = False\<rparr>"
  shows "poll_loop example_run_env t 0 (rs_process s) (rs_os s) = Some
    (\<lparr>pr_pid = 7, pr_tid = 8, pr_h_process = Some Null, pr_h_thread = None, pr_suspended = False\<rparr>, rs_os s, Ok ())"
  by (simp add: poll_loop.simps example_run_env_def assms gone_def example_simps)

lemma example_analysis_on:
  "\<exists>s. run_analysis example_run_env sample_cfg (example_os\<lparr>os_files := fs\<rparr>) = Some (s, Ok
     \<lparr>agr_exit_code = - 1, agr_runtime_ms = 500, agr_features_json = ''{}''\<rparr>) \<and> pr_pid (rs_process s) = 7"
proof -
  obtain s where s: "start_sample example_run_env sample_cfg (fresh_run (example_os\<lparr>os_files := fs\<rparr>)) = (s, Ok example_state)"
    "rs_process s = \<lparr>pr_pid = 7, pr_tid = 8, pr_h_process = None, pr_h_thread = None, pr_suspended = False\<rparr>"
    using example_start_on by blast
  let ?p = "\<lparr>pr_pid = 7, pr_tid = 8, pr_h_process = Some Null, pr_h_thread = None, pr_suspended = False\<rparr>"
  have "rs_collector (sample_ran example_run_env ?p (rs_os s) s) =
      register_process empty_collector 7 0 (sample_name_of (acf_sample_path sample_cfg))"
    using started(1) [OF s(1)] s(2) by (simp add: sample_ran_def)
  then obtain s' where "finish example_run_env sample_cfg example_state (sample_ran example_run_env ?p (rs_os s) s) =
      (s', Ok \<lparr>agr_exit_code = - 1, agr_runtime_ms = 500, agr_features_json = ''{}''\<rparr>)" "pr_pid (rs_process s') = 7"
    using example_finish [of "sample_ran example_run_env ?p (rs_os s) s"] by (auto simp: sample_ran_def)
  then show ?thesis using s(1) example_polls [OF s(2)] by (simp add: run_analysis_def)
qed

lemmas example_analysis = example_analysis_on [of Map.empty, unfolded example_os_files]

section \<open>Properties\<close>

lemma returns:
  assumes "clock_ok env"
  shows "\<exists>s r. run_analysis env cfg os = Some (s, r)"
proof -
  have "unat (acf_timeout_secs cfg) * 1000 \<le> 500 * (0 + unat (acf_timeout_secs cfg) * 2)" by simp
  note poll = poll_returns [OF assms this]
  obtain s1 r1 where s: "start_sample env cfg (fresh_run os) = (s1, r1)"
    by (cases "start_sample env cfg (fresh_run os)")
  show ?thesis
  proof (cases r1)
    case (Ok st)
    obtain p' os' r where "poll_loop env (unat (acf_timeout_secs cfg) * 1000) 0 (rs_process s1) (rs_os s1) = Some (p', os', r)"
      using poll by blast
    then show ?thesis using s Ok by (cases r; cases "finish env cfg st (sample_ran env p' os' s1)")
      (simp_all add: run_analysis_def)
  qed (use s in \<open>simp_all add: run_analysis_def\<close>)
qed



text \<open>A sample that deletes its own file hides its whole analysis: \<open>run_analysis\<close> then fails with the error of
  \<open>fs::metadata\<close> although the calls were collected, and its clean-up does not take place, so the monitor's
  files stay.\<close>

lemma deleted_sample:
  assumes "run_analysis env cfg os = Some (s, r)" and "start_sample env cfg (fresh_run os) = (s1, Ok st)"
    and "re_metadata env = Err e"
  shows "r = Err e \<and> os_files (rs_os s) = re_activity env (os_files (rs_os s1))"
proof -
  obtain p os' where poll: "poll_loop env (unat (acf_timeout_secs cfg) * 1000) 0 (rs_process s1) (rs_os s1) = Some (p, os', Ok ())"
    and fin: "finish env cfg st (sample_ran env p os' s1) = (s, r)"
    by (rule analysis_split [OF assms(1,2)])
  have files: "os_files os' = os_files (rs_os s1)"
    by (rule poll_invariant [OF poll, of "\<lambda>_ o1. os_files o1 = os_files (rs_os s1)"])
      (auto dest: is_alive_files terminate_files)
  obtain s2 where s2: "os_files (rs_os s2) = os_files (rs_os (sample_ran env p os' s1))"
    and f2: "finish env cfg st (sample_ran env p os' s1) = bind_run (make_report env cfg) (\<lambda>features_json.
     bind_run (on_process (exit_code (re_exit env))) (\<lambda>code.
     bind_run (clean_up env st) (\<lambda>_ s. (s, Ok
       \<lparr>agr_exit_code = (case code of Some c \<Rightarrow> c | None \<Rightarrow> - 1),
        agr_runtime_ms = word_of_nat (re_runtime env), agr_features_json = features_json\<rparr>)))) s2"
    by (rule finish_shape)
  have "make_report env cfg s2 = (s2, Err e)"
    by (simp add: make_report_def build_target_file_def assms(3))
  then have "(s, r) = (s2, Err e)" using fin f2 by (simp add: bind_run_def [of "make_report env cfg"])
  then show ?thesis using s2 files by (simp add: sample_ran_def)
qed

lemma example_start_deleted:
  "\<exists>s1. start_sample (example_run_env\<lparr>re_metadata := Err ''not found''\<rparr>) sample_cfg (fresh_run example_os) =
     (s1, Ok example_state)"
proof -
  let ?env = "example_run_env\<lparr>re_metadata := Err ''not found''\<rparr>"
  have "prepare_sample ?env = prepare_sample example_run_env"
    by (simp add: fun_eq_iff prepare_sample_def init_monitor_def [abs_def] restart_winmgmt_def run_command_def [abs_def]
        start_reader_def [abs_def])
  then have "start_sample ?env cfg = start_sample example_run_env cfg" for cfg by (simp add: start_sample_def)
  then show ?thesis using example_start by auto
qed

text \<open>What a successful analysis reports: when the readers pushed the calls of a log with the process
  identifier of the sample, the report has exactly one process, the sample, with its file name, those
  calls in order, and a tree of this one node; a child process is never in it.\<close>

lemma report_of_run:
  assumes "run_analysis env cfg os = Some (s, Ok res)"
    and "\<And>c. re_readers env c = sink.push_all c (pr_pid (rs_process s)) calls"
    and "\<And>xs. mset (re_iter env xs) = mset xs"
  shows "\<exists>report. report_to_json (re_to_string env) report = Ok (agr_features_json res) \<and>
    bh_processes (rp_behavior report) =
      [\<lparr>pe_process_id = pr_pid (rs_process s), pe_parent_id = 0,
        pe_process_name = sample_name_of (acf_sample_path cfg),
        pe_threads = sorted_list_of_set (call_thread_id ` set calls), pe_calls = map call_entry_of calls\<rparr>] \<and>
    bh_processtree (rp_behavior report) =
      [TreeNode (pr_pid (rs_process s)) (sample_name_of (acf_sample_path cfg)) []]"
proof -
  obtain s1 st where start: "start_sample env cfg (fresh_run os) = (s1, Ok st)" by (rule analysis_ok [OF assms(1)])
  obtain p os' where poll: "poll_loop env (unat (acf_timeout_secs cfg) * 1000) 0 (rs_process s1) (rs_os s1) = Some (p, os', Ok ())"
    and fin: "finish env cfg st (sample_ran env p os' s1) = (s, Ok res)"
    by (rule analysis_split [OF assms(1) start])
  let ?pid = "pr_pid (rs_process s1)" and ?c = "re_readers env (rs_collector (sample_ran env p os' s1))"
  have pid1: "pr_pid p = ?pid"
    by (rule poll_invariant [OF poll, of "\<lambda>q _. pr_pid q = ?pid"]) (auto dest: is_alive_ids terminate_ids)
  obtain target report q os1 os2 code where
    b: "report_build (length (procs ?c)) (re_iter env) ?c target ''file'' = Some report"
    and j: "report_to_json (re_to_string env) report = Ok (agr_features_json res)"
    and x: "exit_code (re_exit env) (rs_process (sample_ran env p os' s1)) os1 = (q, os2, Ok code)" "rs_process s = q"
    by (rule finish_ok [OF fin])
  have pid: "pr_pid (rs_process s) = ?pid"
    using exit_code_ids [OF x(1)] x(2) pid1 by (simp add: sample_ran_def)
  have c: "?c = sink.push_all (register_process empty_collector ?pid 0 (sample_name_of (acf_sample_path cfg))) ?pid calls"
    using started(1) [OF start] assms(2) pid by (simp add: sample_ran_def)
  have "bh_processes (rp_behavior report) = report_processes (re_iter env) ?c \<and>
      Some (bh_processtree (rp_behavior report)) = build_tree (length (procs ?c)) (re_iter env) (procs ?c) (child_links ?c)"
    using b by (auto simp: report_build_def split: option.splits)
  then show ?thesis
    using j single_report [where iter = "re_iter env", OF assms(3)] single_tree [where iter = "re_iter env", OF assms(3) c]
    unfolding pid c by auto
qed

text \<open>The witness of \<open>sample_runs_monitored\<close> is a run of which only the events matter.\<close>

lemma example_resumed:
  "\<exists>s r. run_analysis example_run_env sample_cfg example_os = Some (s, r) \<and> Resumed (Handle 2) \<in> set (os_events (rs_os s))"
proof -
  obtain sp where sp: "prepare_sample example_run_env sample_cfg (fresh_run example_os) = (sp, Ok example_state)"
    "rs_process sp = \<lparr>pr_pid = 7, pr_tid = 8, pr_h_process = Some (Handle 1), pr_h_thread = Some (Handle 2), pr_suspended = True\<rparr>"
    using example_prepare by blast
  obtain s1 where s1: "start_sample example_run_env sample_cfg (fresh_run example_os) = (s1, Ok example_state)"
    using example_start by blast
  obtain s r where run: "run_analysis example_run_env sample_cfg example_os = Some (s, r)"
    using example_analysis by blast
  from start_ok [OF s1] sp(1) obtain pr osr pc osc b where
    res: "resume (re_resume example_run_env) (rs_process sp) (rs_os sp) = (pr, osr, Ok b)"
    and cl: "close pr osr = (pc, osc, Ok ())" and s1e: "s1 = sp\<lparr>rs_process := pc, rs_os := osc\<rparr>"
    by (metis prod.inject)
  have "os_events osr = os_events (rs_os sp) @ [Resumed (Handle 2)]"
    using res by (auto simp: resume_def sp(2) example_run_env_def agent_os_env_def)
  then have "since (os_events (rs_os sp) @ [Resumed (Handle 2)]) s1"
    using close_quiet [OF cl] by (intro sinceI [of _ _ "[]"]) (simp_all add: s1e)
  from after_start [OF run s1 this] run show ?thesis by (auto simp: since_def)
qed




lemma exit_code_gone:
  assumes "pr_pid p \<noteq> 0" and "pr_pid p \<noteq> oe_current_pid env" and "\<And>b. \<not> oe_open_process env b (pr_pid p)"
    and "oe_exit_code env Null = None" and "pr_h_process p \<in> {None, Some Null}"
  shows "\<exists>p' os'. exit_code env p os = (p', os', Ok None) \<and> pr_h_process p' = Some Null"
proof -
  have "\<exists>p' os' r. open_process env p os = (p', os', r) \<and> pr_h_process p' = Some Null"
    using assms by (auto simp: open_process_def open_process_handle_def open_thread_part_def Let_def split: prod.splits)
  then show ?thesis using assms(4,5) by (auto simp: exit_code_def has_handle_def)
qed

text \<open>The exit code of the sample is lost: the agent closes its handles right after it resumed the sample, so
  when the system no longer knows the identifier at the first poll, or when the sample was terminated at
  the timeout and is unknown at the end, the result says -1, whatever the sample's exit code was.\<close>

theorem exit_code_lost:
  assumes "run_analysis env cfg os = Some (s, Ok res)" and "pr_pid (rs_process s) = pid"
    and "\<And>b. \<not> oe_open_process (re_exit env) b pid" and "oe_current_pid (re_exit env) \<noteq> pid"
    and "oe_exit_code (re_exit env) Null = None"
    and "((\<forall>b. \<not> oe_open_process (re_poll env 0) b pid) \<and> oe_current_pid (re_poll env 0) \<noteq> pid \<and>
          oe_exit_code (re_poll env 0) Null = None) \<or>
       (\<forall>k h. h \<noteq> Null \<longrightarrow> oe_exit_code (re_poll env k) h = Some STILL_ACTIVE)"
  shows "agr_exit_code res = - 1"
proof -
  obtain s1 st where start: "start_sample env cfg (fresh_run os) = (s1, Ok st)" by (rule analysis_ok [OF assms(1)])
  obtain p os' where poll: "poll_loop env (unat (acf_timeout_secs cfg) * 1000) 0 (rs_process s1) (rs_os s1) = Some (p, os', Ok ())"
    and fin: "finish env cfg st (sample_ran env p os' s1) = (s, Ok res)"
    by (rule analysis_split [OF assms(1) start])
  have pid1: "pr_pid p = pr_pid (rs_process s1)"
    by (rule poll_invariant [OF poll, of "\<lambda>q _. pr_pid q = pr_pid (rs_process s1)"]) (auto dest: is_alive_ids terminate_ids)
  obtain q os1 os2 code where x: "exit_code (re_exit env) (rs_process (sample_ran env p os' s1)) os1 = (q, os2, Ok code)"
    "rs_process s = q" and res: "agr_exit_code res = (case code of Some c \<Rightarrow> c | None \<Rightarrow> - 1)"
    by (rule finish_ok [OF fin])
  have pid: "pr_pid p = pid" "pr_pid (rs_process s1) = pid" "pid \<noteq> 0"
    using exit_code_ids [OF x(1)] x(2) pid1 assms(2) started(2) [OF start] by (simp_all add: sample_ran_def)
  have "pr_h_process p \<in> {None, Some Null}"
    using assms(6)
  proof
    assume "(\<forall>b. \<not> oe_open_process (re_poll env 0) b pid) \<and> oe_current_pid (re_poll env 0) \<noteq> pid \<and>
        oe_exit_code (re_poll env 0) Null = None"
    then obtain p' o' where "exit_code (re_poll env 0) (rs_process s1) (rs_os s1) = (p', o', Ok None)" "pr_h_process p' = Some Null"
      using exit_code_gone [of "rs_process s1" "re_poll env 0" "rs_os s1"] pid started(3) [OF start] by auto
    then show ?thesis using poll by (auto simp: poll_loop.simps is_alive_def)
  next
    assume active: "\<forall>k h. h \<noteq> Null \<longrightarrow> oe_exit_code (re_poll env k) h = Some STILL_ACTIVE"
    have "last_poll env (unat (acf_timeout_secs cfg) * 1000) (\<lambda>q _. pr_pid q \<noteq> 0) (p, os', Ok ())"
      by (rule poll_last [where Q = "\<lambda>q _. pr_pid q \<noteq> 0", OF poll started(2) [OF start]]) (use is_alive_ids in metis)
    then show ?thesis
    proof (rule last_pollE)
      fix p0 o0 k
      assume "is_alive (re_poll env k) p0 o0 = (p, os', Ok False)"
      then obtain h where "pr_h_process p = Some h" "oe_exit_code (re_poll env k) h \<noteq> Some STILL_ACTIVE"
        by (fastforce simp: is_alive_def exit_code_def bind_res_Ok_iff split: prod.splits option.splits)
      then show ?thesis using active by auto
    next
      fix p0 o0 k r1
      assume "pr_pid p0 \<noteq> 0" "is_alive (re_poll env k) p0 o0 = (p, os', r1)" "\<forall>b. r1 \<noteq> Ok b"
      then show ?thesis using is_alive_result by blast
    qed (auto simp: terminate_and_close_def Let_def)
  qed
  then have "code = None"
    using exit_code_gone [of p "re_exit env" os1] assms(3-5) pid x(1) by (auto simp: sample_ran_def)
  then show ?thesis using res by simp
qed

theorem exit_code_lost_witness:
  "\<exists>s res. run_analysis example_run_env sample_cfg example_os = Some (s, Ok res) \<and> agr_exit_code res = - 1"
proof -
  obtain s res where run: "run_analysis example_run_env sample_cfg example_os = Some (s, Ok res)"
    and pid: "pr_pid (rs_process s) = 7"
    using example_analysis by blast
  have "agr_exit_code res = - 1"
    by (rule exit_code_lost [OF run pid]) (simp_all add: example_run_env_def gone_def agent_os_env_def)
  with run show ?thesis by blast
qed

end
