(* ===== verification/Whole_Job.thy ===== *)
theory Whole_Job
  imports Job_Run Analysis
begin

text \<open>
  A whole job: the task of \<open>Job_Run\<close> against the agent's own handlers (\<open>Agent_Bootstrap\<close>, \<open>Agent_Service\<close>) and the
  agent's own analysis (\<open>Analysis\<close>). The guest is the state of its bootstrap service and its system.
\<close>

section \<open>The analysis as the controller asks for it\<close>

text \<open>What \<open>analyze\<close> awaits: the result of the analysis, when it returns.\<close>

definition agent_run :: "'h run_env \<Rightarrow> win_os \<Rightarrow> analysis_config \<Rightarrow> (string, agent_result) res" where
  "agent_run env os cfg = (case run_analysis env cfg os of Some (s, r) \<Rightarrow> r | None \<Rightarrow> Panic)"

definition request_config :: "string \<Rightarrow> analysis_config" where
  "request_config n = \<lparr>acf_sample_path = upload_dir @ [bslash] @ n, acf_timeout_secs = 300, acf_work_dir = upload_dir\<rparr>"

text \<open>The rule by which the controller's result follows from the agent's.\<close>

lemma client_result:
  assumes "win_file_name name = Some n"
  shows "run_analysis_client (analyze run now) timeout name = (case run (request_config n) of
       Ok a \<Rightarrow> Ok \<lparr>ar_exit_code = agr_exit_code a, ar_runtime_ms = agr_runtime_ms a, ar_features_json = agr_features_json a\<rparr>
     | Err _ \<Rightarrow> Ok \<lparr>ar_exit_code = 1, ar_runtime_ms = 0, ar_features_json = []\<rparr>
     | Panic \<Rightarrow> Err [''analysis stream ended without completion''])"
  using assms by (simp add: run_analysis_client_def analyze_def analyze_config_def analyze_events_def over_wire_def
      request_config_def split: res.splits)

lemma example_file_name: "win_file_name ''a.exe'' = Some ''a.exe''"
  by (simp add: win_file_name_def win_components_def parse_prefix_def norm8_def begins_def parse_drive_def
      starts_sep_def win_sep_def leading_cur_dir_def body_components_def seg_component_def last_normal_def)

lemma example_request: "request_config ''a.exe'' = sample_cfg"
  by (simp add: request_config_def sample_cfg_def)

section \<open>The guest\<close>

record guest =
  gu_boot :: bootstrap_service
  gu_os :: win_os

definition on_boot :: "(bootstrap_service \<Rightarrow> bootstrap_service \<times> 'r) \<Rightarrow> guest \<Rightarrow> guest \<times> 'r" where
  "on_boot f g = (case f (gu_boot g) of (b, r) \<Rightarrow> (g\<lparr>gu_boot := b\<rparr>, r))"

definition on_files :: "(files \<Rightarrow> files \<times> 'r) \<Rightarrow> guest \<Rightarrow> guest \<times> 'r" where
  "on_files f g = (case f (os_files (gu_os g)) of (fs, r) \<Rightarrow> (g\<lparr>gu_os := (gu_os g)\<lparr>os_files := fs\<rparr>\<rparr>, r))"

lemma on_boot_simps [simp]:
  "snd (on_boot f g) = snd (f (gu_boot g))" "gu_boot (fst (on_boot f g)) = fst (f (gu_boot g))"
  "gu_os (fst (on_boot f g)) = gu_os g"
  by (simp_all add: on_boot_def split: prod.split)

lemma on_files_simps [simp]:
  "snd (on_files f g) = snd (f (os_files (gu_os g)))" "gu_boot (fst (on_files f g)) = gu_boot g"
  "os_files (gu_os (fst (on_files f g))) = fst (f (os_files (gu_os g)))"
  by (simp_all add: on_files_def split: prod.split)

text \<open>The guest meets the two contracts of the client because its two parts do.\<close>

interpretation guest_boot: bootstrap_rpc "on_boot (who_am_i addr)" "\<lambda>q. on_boot (request_csr rc g q)"
    "\<lambda>e. on_boot (switch_connection e)" "\<lambda>s. bs_state (gu_boot s)" "\<lambda>s. \<not> bs_done_tx (gu_boot s)" "made_with_key rc"
  for addr and rc :: "('k, 'c, 'q) rcgen" and g
proof
  fix e s
  assume "\<forall>b. snd (on_boot (switch_connection e) s) \<noteq> Ok b"
  then have "fst (switch_connection e (gu_boot s)) = gu_boot s" using agent.switch_law(2) by simp
  then show "fst (on_boot (switch_connection e) s) = s"
    by (cases "switch_connection e (gu_boot s)") (auto simp: on_boot_def)
qed (use agent.who_law agent.csr_law agent.switch_law(1) in \<open>simp_all\<close>)

interpretation guest_upload: upload_rpc "\<lambda>ms. on_files (upload_sample fe ms)"
    "\<lambda>s name. os_files (gu_os s) (win_join upload_dir (trim name))" for fe
  using agent_upload.upload_law agent_upload.upload_empty by unfold_locales simp_all

text \<open>A job's environment with the agent in it.\<close>

definition attach :: "ip_addr option \<Rightarrow> (string, 'k) res \<Rightarrow> fs_env \<Rightarrow> 'h run_env \<Rightarrow> u64 \<Rightarrow>
    (guest, 's, 'k, 'c, 'q) job_env \<Rightarrow> (guest, 's, 'k, 'c, 'q) job_env" where
  "attach addr key fe renv now env = env\<lparr>je_who := on_boot (who_am_i addr),
     je_csr := (\<lambda>q. on_boot (request_csr (je_rcgen env) key q)), je_switch := (\<lambda>e. on_boot (switch_connection e)),
     je_hello := hello_svc, je_upload := (\<lambda>ms. on_files (upload_sample fe ms)),
     je_analyze := (\<lambda>g. analyze (agent_run renv (gu_os g)) now)\<rparr>"

text \<open>Both ends hold matching certificates.\<close>

definition certs_agree ::
    "(guest, 's, 'k, 'c, 'q) job_env \<Rightarrow> string \<Rightarrow> ('k, 'c) job_certs \<Rightarrow> bootstrap_service \<Rightarrow> bool" where
  "certs_agree env jid cs b \<longleftrightarrow> (let rc = je_rcgen env in
     \<not> bs_done_tx b \<and> ac_root_ca_pem (bs_state b) = rg_pem rc (jc_root_ca_cert cs) \<and>
     (\<exists>a. generate_job_certs rc (je_key1 env) (je_key2 env) jid a = Ok cs \<and>
        parse_ip (show_ip (ac_server_ip_addr (bs_state b))) = Some a) \<and>
     (\<exists>q c. made_with_key rc q (ac_agent_key_pem (bs_state b)) \<and> sign_agent_csr rc cs q = Ok c \<and>
        ac_agent_cert_pem (bs_state b) = rg_pem rc c))"

definition sample_there :: "string \<Rightarrow> u8 list \<Rightarrow> guest \<Rightarrow> bool" where
  "sample_there name bytes g \<longleftrightarrow> os_files (gu_os g) (win_join upload_dir (trim name)) = Some bytes \<and> bytes \<noteq> []"

text \<open>What the agent's analysis of the sample makes of the job's result.\<close>

definition job_result :: "(string, agent_result) res \<Rightarrow> analysis_result option" where
  "job_result r = (case r of
       Ok a \<Rightarrow> Some \<lparr>ar_exit_code = agr_exit_code a, ar_runtime_ms = agr_runtime_ms a, ar_features_json = agr_features_json a\<rparr>
     | Err _ \<Rightarrow> Some \<lparr>ar_exit_code = 1, ar_runtime_ms = 0, ar_features_json = []\<rparr>
     | Panic \<Rightarrow> None)"

section \<open>What the stages do to the guest\<close>

abbreviation any_error :: "anyhow \<Rightarrow> 'a world \<Rightarrow> bool" where
  "any_error \<equiv> \<lambda>_ _. True"

definition agent_has :: "('a \<Rightarrow> bool) \<Rightarrow> 'a world \<Rightarrow> bool" where
  "agent_has P = on_host (\<lambda>_ a. P a)"

lemma triple_agent:
  assumes "\<And>w w' x. m w = Some (w', Ok x) \<Longrightarrow> P (jw_agent w) \<Longrightarrow> Q x (jw_agent w')"
  shows "triple (agent_has P) (at_pc others p m) (\<lambda>x. agent_has (Q x)) any_error"
  unfolding agent_has_def by (rule triple_at_pc, rule tripleI) (use assms in \<open>auto simp: on_host_def\<close>)

lemma stages_leave_agent:
  "triple (agent_has P) (at_pc others p (announce st jid)) (\<lambda>_. agent_has P) any_error"
  "triple (agent_has P) (at_pc others p (check_wanted env jid jd)) (\<lambda>_. agent_has P) any_error"
  "triple (agent_has P) (at_pc others p (context_job c (create_machine env))) (\<lambda>_. agent_has P) any_error"
  "triple (agent_has P) (at_pc others p (context_job c (connect_agent env jd cs))) (\<lambda>_. agent_has P) any_error"
  "triple (agent_has P) (at_pc others p (remove_machine env jd)) (\<lambda>_. agent_has P) any_error"
  by (rule triple_agent, auto simp: announce_def check_wanted_def bind_job_def context_job_def create_machine_def
      connect_agent_def remove_machine_def split: if_splits)+

lemma stage_boot:
  "triple (agent_has P) (at_pc others p (context_job c (bootstrap_agent (attach addr key fe renv now env) jid jd)))
     (\<lambda>cs. agent_has (\<lambda>g. certs_agree env jid cs (gu_boot g))) any_error"
proof (rule triple_agent)
  fix w w' cs
  assume "context_job c (bootstrap_agent (attach addr key fe renv now env) jid jd) w = Some (w', Ok cs)"
  then have "exchange (je_rcgen env) (je_key1 env) (je_key2 env) (on_boot (who_am_i addr))
      (\<lambda>q. on_boot (request_csr (je_rcgen env) key q)) (\<lambda>e. on_boot (switch_connection e)) jid (jd_ip_addr jd) (jw_agent w) =
      (jw_agent w', Ok cs)"
    by (auto simp: context_job_def bootstrap_agent_def attach_def bootstrap_mtls_def split: option.splits)
  from guest_boot.exchange_Ok [OF this] show "certs_agree env jid cs (gu_boot (jw_agent w'))"
    unfolding certs_agree_def Let_def by blast
qed

lemma stage_upload:
  assumes "byte_reader (je_read env) pending fin invar" and "invar (je_sample env)" and "\<And>k. je_live env k"
  shows "triple (agent_has (\<lambda>g. P (gu_boot g)))
     (at_pc others p (context_job c (send_sample (attach addr key fe renv now env) name)))
     (\<lambda>_. agent_has (\<lambda>g. P (gu_boot g) \<and> sample_there name (pending (je_sample env)) g)) any_error"
proof (rule triple_agent)
  fix w w' x
  assume "context_job c (send_sample (attach addr key fe renv now env) name) w = Some (w', Ok x)" and P: "P (gu_boot (jw_agent w))"
  then have up: "upload_sample_client (je_open_error env) (je_read env) (je_live env) (\<lambda>ms. on_files (upload_sample fe ms))
      name (je_sample env) (jw_agent w) = Some (jw_agent w', Ok ())"
    by (auto simp: context_job_def send_sample_def attach_def)
  then have none: "je_open_error env = None" by (auto simp: upload_sample_client_def split: option.splits)
  have "gu_boot (jw_agent w') = gu_boot (jw_agent w)"
    using up by (auto simp: upload_sample_client_def bind_st_Ok call_def none split: option.splits dest: sym [of "fst _"])
  moreover have "sample_there name (pending (je_sample env)) (jw_agent w')"
    using upload_client_Ok [where live = "je_live env", OF guest_upload.upload_rpc_axioms assms up [unfolded none]]
    by (simp add: sample_there_def)
  ultimately show "P (gu_boot (jw_agent w')) \<and> sample_there name (pending (je_sample env)) (jw_agent w')" using P by simp
qed

lemma stage_analysis:
  assumes "win_file_name name = Some n"
  shows "triple (agent_has P) (at_pc others p (await_analysis (attach addr key fe renv now env) jd timeout name))
     (\<lambda>x. agent_has (\<lambda>g. P g \<and> (\<exists>s r. run_analysis renv (request_config n) (gu_os g) = Some (s, r) \<and> job_result r = Some x))) any_error"
proof (rule triple_agent)
  fix w w' x
  assume a: "await_analysis (attach addr key fe renv now env) jd timeout name w = Some (w', Ok x)" and P: "P (jw_agent w)"
  let ?run = "agent_run renv (gu_os (jw_agent w))"
  have "run_analysis_client (analyze ?run now) timeout name = Ok x" "w' = w"
    using a by (auto simp: await_analysis_def attach_def bind_job_def remove_machine_def split: res.splits)
  moreover from this have "job_result (?run (request_config n)) = Some x"
    by (auto simp: client_result [OF assms] job_result_def split: res.splits)
  moreover from this obtain s where "run_analysis renv (request_config n) (gu_os (jw_agent w)) = Some (s, ?run (request_config n))"
    by (auto simp: agent_run_def job_result_def split: option.splits)
  ultimately show "P (jw_agent w') \<and> (\<exists>s r. run_analysis renv (request_config n) (gu_os (jw_agent w')) = Some (s, r) \<and>
      job_result r = Some x)"
    using P by auto
qed

section \<open>Properties\<close>

lemma inner_agent:
  assumes "byte_reader (je_read env) pending fin invar" and "invar (je_sample env)" and "\<And>k. je_live env k"
    and "win_file_name name = Some n"
  shows "triple (agent_has (\<lambda>_. True)) (run_job_inner (attach addr key fe renv now env) jid name timeout)
     (\<lambda>x. agent_has (\<lambda>g. (\<exists>cs. certs_agree env jid cs (gu_boot g)) \<and> sample_there name (pending (je_sample env)) g \<and>
        (\<exists>s r. run_analysis renv (request_config n) (gu_os g) = Some (s, r) \<and> job_result r = Some x))) any_error"
proof -
  have ret: "triple (agent_has (\<lambda>g. (certs_agree env jid cs (gu_boot g) \<and> sample_there name bytes g) \<and> R x g))
      (\<lambda>w. Some (w, Ok x)) (\<lambda>x. agent_has (\<lambda>g. (\<exists>cs. certs_agree env jid cs (gu_boot g)) \<and> sample_there name bytes g \<and> R x g))
      any_error" for cs bytes R and x :: analysis_result
    by (rule tripleI) (auto simp: agent_has_def on_host_def)
  show ?thesis
    unfolding run_job_inner_def with_machine_def
    by (rule triple_bind stages_leave_agent stage_boot stage_analysis [OF assms(4)]
        stage_upload [OF assms(1-3), where P = "certs_agree env jid _"] ret)+
qed


lemma bind_on_boot:
  assumes "\<And>g x. f g x = on_boot (\<lambda>b. f' b x) g"
  shows "bind_st (call (on_boot m g)) f = on_boot (\<lambda>b. bind_st (call (m b)) f') g"
    and "bind_st (g, r) f = on_boot (\<lambda>b. bind_st (b, r) f') g"
proof -
  obtain b q where m: "m (gu_boot g) = (b, q)" by (cases "m (gu_boot g)")
  show "bind_st (call (on_boot m g)) f = on_boot (\<lambda>b. bind_st (call (m b)) f') g"
    by (cases q) (auto simp: bind_st_def call_def on_boot_def over_wire_def m assms split: grpc_status.splits)
  show "bind_st (g, r) f = on_boot (\<lambda>b. bind_st (b, r) f') g"
    by (cases r) (simp_all add: bind_st_def on_boot_def assms)
qed

lemma exchange_on_boot:
  "exchange rc g1 g2 (on_boot who) (\<lambda>q. on_boot (csr q)) (\<lambda>e. on_boot (switch e)) jid ip g =
     on_boot (exchange rc g1 g2 who csr switch jid ip) g"
  unfolding exchange_def by (rule bind_on_boot)+ (simp add: on_boot_def)

text \<open>A guest on which everything works.\<close>

definition example_guest :: guest where
  "example_guest = \<lparr>gu_boot = new_service, gu_os = example_os\<rparr>"

definition example_base :: "(guest, pipe_queue, unit, unit, unit) job_env" where
  "example_base = \<lparr>je_others = (\<lambda>_ t. t), je_paths = example_cfg,
     je_vm = example_env None [Some ''x'', Some ''default''], je_destroy_ok = True, je_undefine_ok = True,
     je_up_bootstrap = (\<lambda>k. k = 3), je_rcgen = null_rcgen, je_key1 = Ok (), je_key2 = Ok (),
     je_who = (\<lambda>a. (a, Panic)), je_csr = (\<lambda>_ a. (a, Panic)), je_switch = (\<lambda>_ a. (a, Panic)),
     je_bad_url = (\<lambda>_. None), je_bad_tls = (\<lambda>_. None), je_up_mtls = (\<lambda>k. k = 0), je_hello = hello_svc,
     je_open_error = None, je_read = np_read queue_read_file, je_sample = short_sample, je_live = (\<lambda>_. True),
     je_upload = (\<lambda>_ a. (a, Panic)), je_analyze = (\<lambda>_ _. Panic)\<rparr>"

abbreviation example_attached :: "(guest, pipe_queue, unit, unit, unit) job_env" where
  "example_attached \<equiv> attach (Some (V4 192 168 122 1)) (Ok ()) good_fs example_run_env 0 example_base"

lemma example_ip: "parse_ip ''192.168.122.7'' \<noteq> None"
proof -
  have "parse_ip (show_ip (V4 192 168 122 7)) \<noteq> None" by (simp only: parse_show_v4) simp
  moreover have "show_ip (V4 192 168 122 7) = ''192.168.122.7''" by code_simp
  ultimately show ?thesis by metis
qed

lemma example_boot:
  "\<exists>g cs. bootstrap_mtls (\<lambda>k. k = 3) null_rcgen (Ok ()) (Ok ()) (on_boot (who_am_i (Some (V4 192 168 122 1))))
     (\<lambda>q. on_boot (request_csr null_rcgen (Ok ()) q)) (\<lambda>e. on_boot (switch_connection e)) ''j'' ''192.168.122.7'' example_guest =
     Some (g, Ok cs) \<and> gu_os g = example_os"
proof -
  let ?x = "exchange null_rcgen (Ok ()) (Ok ()) (who_am_i (Some (V4 192 168 122 1))) (request_csr null_rcgen (Ok ()))
    switch_connection ''j'' ''192.168.122.7''"
  have up: "connect_loop (\<lambda>k. k = 3) 0 \<noteq> None" by (simp add: connect_loop_None)
  obtain b cs where "?x new_service = (b, Ok cs)"
    using bootstrap_null [where up = "\<lambda>k. k = 3" and n = 3 and job_id = "''j''", OF refl example_ip, of 192 168 122 1]
    by (auto simp: bootstrap_mtls_def split: option.splits)
  then have "on_boot ?x example_guest = (example_guest\<lparr>gu_boot := b\<rparr>, Ok cs)" by (simp add: on_boot_def example_guest_def)
  then show ?thesis using up by (auto simp: bootstrap_mtls_def exchange_on_boot example_guest_def)
qed

lemma upload_on_files:
  assumes "upload_sample_client None rd live upload name s (os_files (gu_os g)) = Some (fs, Ok ())"
  shows "\<exists>g'. upload_sample_client None rd live (\<lambda>ms. on_files (upload ms)) name s g = Some (g', Ok ()) \<and>
     gu_os g' = (gu_os g)\<lparr>os_files := fs\<rparr>"
  using assms by (intro exI [of _ "g\<lparr>gu_os := (gu_os g)\<lparr>os_files := fs\<rparr>\<rparr>"])
    (auto simp: upload_sample_client_def bind_st_Ok call_def on_files_def split: option.splits prod.splits if_splits)

lemma example_send:
  assumes "gu_os g = example_os"
  shows "\<exists>g'. upload_sample_client None (np_read queue_read_file) (\<lambda>_. True) (\<lambda>ms. on_files (upload_sample good_fs ms)) ''a.exe''
     short_sample g = Some (g', Ok ()) \<and> (\<exists>fs. gu_os g' = example_os\<lparr>os_files := fs\<rparr>)"
proof -
  note client_good [where live = "\<lambda>_. True" and name = "''a.exe''" and fs = "os_files (gu_os g)",
      OF win_pipe.pipe.byte_reader_axioms short_sample(1)]
  then obtain fs where "upload_sample_client None (np_read queue_read_file) (\<lambda>_. True) (upload_sample good_fs) ''a.exe'' short_sample
      (os_files (gu_os g)) = Some (fs, Ok ())"
    by (simp add: example_trim example_relative short_sample(2))
  from upload_on_files [OF this] show ?thesis by (auto simp: assms)
qed

lemma example_job_completes:
  "\<exists>w'. run_job example_attached ''j'' ''a.exe'' 300 (example_world example_guest) = Some (w', Ok None)"
proof -
  obtain g1 cs where g1: "bootstrap_mtls (\<lambda>k. k = 3) null_rcgen (Ok ()) (Ok ()) (on_boot (who_am_i (Some (V4 192 168 122 1))))
     (\<lambda>q. on_boot (request_csr null_rcgen (Ok ()) q)) (\<lambda>e. on_boot (switch_connection e)) ''j'' ''192.168.122.7'' example_guest =
     Some (g1, Ok cs)" "gu_os g1 = example_os" using example_boot by blast
  obtain g2 fs where g2: "upload_sample_client None (np_read queue_read_file) (\<lambda>_. True) (\<lambda>ms. on_files (upload_sample good_fs ms))
     ''a.exe'' short_sample g1 = Some (g2, Ok ())" "gu_os g2 = example_os\<lparr>os_files := fs\<rparr>"
    using example_send [OF g1(2)] by blast
  obtain s where "run_analysis example_run_env (request_config ''a.exe'') (gu_os g2) = Some (s, Ok
     \<lparr>agr_exit_code = - 1, agr_runtime_ms = 500, agr_features_json = ''{}''\<rparr>)"
    using example_analysis_on [of fs] unfolding example_request g2(2) by blast
  then have res: "run_analysis_client (analyze (agent_run example_run_env (gu_os g2)) 0) 300 ''a.exe'' =
      Ok \<lparr>ar_exit_code = - 1, ar_runtime_ms = 500, ar_features_json = ''{}''\<rparr>"
    by (simp add: client_result [OF example_file_name] agent_run_def)
  have up: "\<exists>n. connect_loop (\<lambda>k. k = 0) 0 = Some n" by (simp add: connect_loop.simps)
  show ?thesis
    using g1 g2 res up
    by (simp add: run_job_def run_job_inner_def with_machine_def bind_job_def at_pc_def announce_def context_job_def
      create_machine_def check_wanted_def bootstrap_agent_def attach_def example_base_def example_world_def example_created
      context_msg_def connect_agent_def connect_mtls_def over_wire_def send_sample_def await_analysis_def remove_machine_def
      hello_svc_def Let_def split: option.splits)
qed


text \<open>The agent trims the name before it stores the sample, but not before it analyses it: what is analysed is the
  uploaded file only if the name has no white space at its ends. A name that starts with a space passes the
  controller, is stored without it, and the file that is analysed does not exist.\<close>

theorem padded_name_not_analysed:
  assumes "parse_prefix (trim name) = None" and "\<not> starts_sep (trim name)"
  shows "win_join upload_dir (trim name) = acf_sample_path (request_config name) \<longleftrightarrow> trim name = name"
  using upload_join [OF assms] by (simp add: request_config_def)

theorem padded_name_not_analysed_witness:
  "win_join upload_dir (trim '' a.exe'') \<noteq> acf_sample_path (request_config '' a.exe'')"
proof -
  have "trim '' a.exe'' = ''a.exe''" by code_simp
  with padded_name_not_analysed [of "'' a.exe''"] example_relative(1,2) show ?thesis by simp
qed

end
