(* ===== verification/Grpc.thy ===== *)
theory Grpc
  imports Controller_Client
begin

text \<open>
  The generated half of \<open>crates/malbox-proto/gen/malbox.rs\<close>: the clients and servers of the services
  \<open>malbox.Bootstrap\<close> and \<open>malbox.Agent\<close>. A client method sends its message to the path of its method; a
  server dispatches on the path to a method of the trait that it was made with. The crates below are
  parameters: \<open>prost\<close> is a codec per message into a type \<open>'b\<close> of encoded messages, \<open>tonic\<close> is the record
  \<open>tonic\<close> of the functions that the generated code calls, and what they promise is the locale
  \<open>tonic_docs\<close>. A body is the list of its messages, in which an error ends the stream, and a channel is what
  a server answers to a path and a body.
\<close>

section \<open>What the generated code is given\<close>

record ('m, 'b) codec =
  cd_encode :: "'m \<Rightarrow> 'b"
  cd_decode :: "'b \<Rightarrow> (grpc_status, 'm) res"

record 'b prost =
  px_who :: "(who, 'b) codec"
  px_ip_msg :: "(ip_msg, 'b) codec"
  px_request_csr_envelope :: "(request_csr_envelope, 'b) codec"
  px_csr_envelope :: "(csr_envelope, 'b) codec"
  px_signed_cert_envelope :: "(signed_cert_envelope, 'b) codec"
  px_ack :: "(ack, 'b) codec"
  px_hello :: "(hello, 'b) codec"
  px_file_chunk :: "(file_chunk, 'b) codec"
  px_analysis_request :: "(analysis_request, 'b) codec"
  px_event :: "(event, 'b) codec"

type_synonym 'b body = "(string, 'b) res list"
type_synonym 'b reply = "(grpc_status, 'b body) res"
type_synonym ('b, 's) channel = "string \<Rightarrow> 'b body \<Rightarrow> 's \<Rightarrow> 's \<times> 'b reply"

text \<open>A service method as the server side of \<open>tonic\<close> gets it, with its codec.\<close>

datatype ('b, 's) service_method =
    UnaryService "'b \<Rightarrow> 's \<Rightarrow> 's \<times> (grpc_status, 'b) res"
  | ClientStreamingService "'b body \<Rightarrow> 's \<Rightarrow> 's \<times> (grpc_status, 'b) res"
  | ServerStreamingService "'b \<Rightarrow> 's \<Rightarrow> 's \<times> 'b reply"

text \<open>The settings that clients and servers carry; \<open>'z\<close> are the compression encodings.\<close>

record 'z settings =
  se_accept_compression :: "'z set"
  se_send_compression :: "'z set"
  se_max_decoding :: "nat option"
  se_max_encoding :: "nat option"

record ('b, 'z, 's) tonic =
  tn_ready :: "string option"
  tn_serve :: "'z settings \<Rightarrow> ('b, 's) service_method \<Rightarrow> 'b body \<Rightarrow> 's \<Rightarrow> 's \<times> 'b reply"
  tn_unary :: "'z settings \<Rightarrow> ('b, 's) channel \<Rightarrow> string \<Rightarrow> string \<times> string \<Rightarrow> 'b \<Rightarrow> 's \<Rightarrow>
     's \<times> (grpc_status, 'b) res"
  tn_client_streaming :: "'z settings \<Rightarrow> ('b, 's) channel \<Rightarrow> string \<Rightarrow> string \<times> string \<Rightarrow> 'b body \<Rightarrow> 's \<Rightarrow>
     's \<times> (grpc_status, 'b) res"
  tn_server_streaming :: "'z settings \<Rightarrow> ('b, 's) channel \<Rightarrow> string \<Rightarrow> string \<times> string \<Rightarrow> 'b \<Rightarrow> 's \<Rightarrow>
     's \<times> 'b reply"

section \<open>Settings\<close>

definition default_settings :: "'z settings" where
  "default_settings = \<lparr>se_accept_compression = {}, se_send_compression = {}, se_max_decoding = None,
     se_max_encoding = None\<rparr>"

record ('t, 'z) grpc_server =
  gs_inner :: 't
  gs_accept_compression :: "'z set"
  gs_send_compression :: "'z set"
  gs_max_decoding :: "nat option"
  gs_max_encoding :: "nat option"

definition server_from_arc :: "'t \<Rightarrow> ('t, 'z) grpc_server" where
  "server_from_arc inner = \<lparr>gs_inner = inner, gs_accept_compression = {}, gs_send_compression = {},
     gs_max_decoding = None, gs_max_encoding = None\<rparr>"

definition server_new :: "'t \<Rightarrow> ('t, 'z) grpc_server" where
  "server_new inner = server_from_arc inner"

definition server_accept_compressed :: "'z \<Rightarrow> ('t, 'z) grpc_server \<Rightarrow> ('t, 'z) grpc_server" where
  "server_accept_compressed encoding srv =
     srv\<lparr>gs_accept_compression := insert encoding (gs_accept_compression srv)\<rparr>"

definition server_send_compressed :: "'z \<Rightarrow> ('t, 'z) grpc_server \<Rightarrow> ('t, 'z) grpc_server" where
  "server_send_compressed encoding srv =
     srv\<lparr>gs_send_compression := insert encoding (gs_send_compression srv)\<rparr>"

definition server_max_decoding :: "nat \<Rightarrow> ('t, 'z) grpc_server \<Rightarrow> ('t, 'z) grpc_server" where
  "server_max_decoding limit srv = srv\<lparr>gs_max_decoding := Some limit\<rparr>"

definition server_max_encoding :: "nat \<Rightarrow> ('t, 'z) grpc_server \<Rightarrow> ('t, 'z) grpc_server" where
  "server_max_encoding limit srv = srv\<lparr>gs_max_encoding := Some limit\<rparr>"

definition server_clone :: "('t, 'z) grpc_server \<Rightarrow> ('t, 'z) grpc_server" where
  "server_clone srv = \<lparr>gs_inner = gs_inner srv, gs_accept_compression = gs_accept_compression srv,
     gs_send_compression = gs_send_compression srv, gs_max_decoding = gs_max_decoding srv,
     gs_max_encoding = gs_max_encoding srv\<rparr>"

text \<open>What every arm of the dispatch hands to \<open>tonic::server::Grpc\<close>.\<close>

definition server_settings :: "('t, 'z) grpc_server \<Rightarrow> 'z settings" where
  "server_settings srv = \<lparr>se_accept_compression = gs_accept_compression srv,
     se_send_compression = gs_send_compression srv, se_max_decoding = gs_max_decoding srv,
     se_max_encoding = gs_max_encoding srv\<rparr>"

text \<open>A client is the settings of its \<open>tonic::client::Grpc\<close>; the channel is an argument of its methods.\<close>

definition client_new :: "'z settings" where "client_new = default_settings"

definition client_send_compressed :: "'z \<Rightarrow> 'z settings \<Rightarrow> 'z settings" where
  "client_send_compressed encoding cl = cl\<lparr>se_send_compression := insert encoding (se_send_compression cl)\<rparr>"

definition client_accept_compressed :: "'z \<Rightarrow> 'z settings \<Rightarrow> 'z settings" where
  "client_accept_compressed encoding cl =
     cl\<lparr>se_accept_compression := insert encoding (se_accept_compression cl)\<rparr>"

definition client_max_decoding :: "nat \<Rightarrow> 'z settings \<Rightarrow> 'z settings" where
  "client_max_decoding limit cl = cl\<lparr>se_max_decoding := Some limit\<rparr>"

definition client_max_encoding :: "nat \<Rightarrow> 'z settings \<Rightarrow> 'z settings" where
  "client_max_encoding limit cl = cl\<lparr>se_max_encoding := Some limit\<rparr>"

text \<open>The agent's service has its own copies of these functions, on types of its own.\<close>

type_synonym ('t, 'z) agent_server = "('t, 'z) grpc_server"

definition agent_server_from_arc :: "'t \<Rightarrow> ('t, 'z) agent_server" where
  "agent_server_from_arc inner = \<lparr>gs_inner = inner, gs_accept_compression = {}, gs_send_compression = {},
     gs_max_decoding = None, gs_max_encoding = None\<rparr>"

definition agent_server_new :: "'t \<Rightarrow> ('t, 'z) agent_server" where
  "agent_server_new inner = agent_server_from_arc inner"

definition agent_server_accept_compressed :: "'z \<Rightarrow> ('t, 'z) agent_server \<Rightarrow> ('t, 'z) agent_server" where
  "agent_server_accept_compressed encoding srv =
     srv\<lparr>gs_accept_compression := insert encoding (gs_accept_compression srv)\<rparr>"

definition agent_server_send_compressed :: "'z \<Rightarrow> ('t, 'z) agent_server \<Rightarrow> ('t, 'z) agent_server" where
  "agent_server_send_compressed encoding srv =
     srv\<lparr>gs_send_compression := insert encoding (gs_send_compression srv)\<rparr>"

definition agent_server_max_decoding :: "nat \<Rightarrow> ('t, 'z) agent_server \<Rightarrow> ('t, 'z) agent_server" where
  "agent_server_max_decoding limit srv = srv\<lparr>gs_max_decoding := Some limit\<rparr>"

definition agent_server_max_encoding :: "nat \<Rightarrow> ('t, 'z) agent_server \<Rightarrow> ('t, 'z) agent_server" where
  "agent_server_max_encoding limit srv = srv\<lparr>gs_max_encoding := Some limit\<rparr>"

definition agent_server_clone :: "('t, 'z) agent_server \<Rightarrow> ('t, 'z) agent_server" where
  "agent_server_clone srv = \<lparr>gs_inner = gs_inner srv, gs_accept_compression = gs_accept_compression srv,
     gs_send_compression = gs_send_compression srv, gs_max_decoding = gs_max_decoding srv,
     gs_max_encoding = gs_max_encoding srv\<rparr>"

definition agent_client_new :: "'z settings" where "agent_client_new = default_settings"

definition agent_client_send_compressed :: "'z \<Rightarrow> 'z settings \<Rightarrow> 'z settings" where
  "agent_client_send_compressed encoding cl = cl\<lparr>se_send_compression := insert encoding (se_send_compression cl)\<rparr>"

definition agent_client_accept_compressed :: "'z \<Rightarrow> 'z settings \<Rightarrow> 'z settings" where
  "agent_client_accept_compressed encoding cl =
     cl\<lparr>se_accept_compression := insert encoding (se_accept_compression cl)\<rparr>"

definition agent_client_max_decoding :: "nat \<Rightarrow> 'z settings \<Rightarrow> 'z settings" where
  "agent_client_max_decoding limit cl = cl\<lparr>se_max_decoding := Some limit\<rparr>"

definition agent_client_max_encoding :: "nat \<Rightarrow> 'z settings \<Rightarrow> 'z settings" where
  "agent_client_max_encoding limit cl = cl\<lparr>se_max_encoding := Some limit\<rparr>"

lemma agent_new: "agent_client_new = client_new" "agent_server_new = server_new"
  by (simp_all add: fun_eq_iff agent_client_new_def client_new_def agent_server_new_def server_new_def
      agent_server_from_arc_def server_from_arc_def)

text \<open>\<open>connect\<close>: a destination that is no endpoint, or that does not accept, gives its error, and otherwise there is a
  client with the default settings on the connection.\<close>

definition client_connect ::
    "(string \<Rightarrow> (string, 'e) res) \<Rightarrow> ('e \<Rightarrow> (string, 'conn) res) \<Rightarrow> string \<Rightarrow> (string, 'conn \<times> 'z settings) res" where
  "client_connect endpoint_new connect dst =
     bind_res (endpoint_new dst) (\<lambda>endpoint. bind_res (connect endpoint) (\<lambda>conn. Ok (conn, client_new)))"

definition agent_client_connect ::
    "(string \<Rightarrow> (string, 'e) res) \<Rightarrow> ('e \<Rightarrow> (string, 'conn) res) \<Rightarrow> string \<Rightarrow> (string, 'conn \<times> 'z settings) res" where
  "agent_client_connect endpoint_new connect dst =
     bind_res (endpoint_new dst) (\<lambda>endpoint. bind_res (connect endpoint) (\<lambda>conn. Ok (conn, agent_client_new)))"

section \<open>Messages\<close>

text \<open>An item of a stream, encoded and decoded; an item that does not decode ends the stream with the text of the
  status.\<close>

definition encode_item :: "('m, 'b) codec \<Rightarrow> (string, 'm) res \<Rightarrow> (string, 'b) res" where
  "encode_item c i = bind_res i (\<lambda>m. Ok (cd_encode c m))"

definition decode_item :: "('m, 'b) codec \<Rightarrow> (string, 'b) res \<Rightarrow> (string, 'm) res" where
  "decode_item c i = bind_res i (\<lambda>b. case cd_decode c b of
       Ok m \<Rightarrow> Ok m | Err st \<Rightarrow> (case st of Status code text \<Rightarrow> Err text) | Panic \<Rightarrow> Panic)"

lemma encode_item_Ok: "Ok b = encode_item c i \<longleftrightarrow> (\<exists>m. i = Ok m \<and> b = cd_encode c m)"
  by (cases i) (auto simp: encode_item_def)

text \<open>A method of the trait as the server calls it: the request is decoded first, and one that does not decode is
  answered with the status of the codec.\<close>

definition with_message ::
    "('m, 'b) codec \<Rightarrow> ('m \<Rightarrow> 's \<Rightarrow> 's \<times> (grpc_status, 'a) res) \<Rightarrow> 'b \<Rightarrow> 's \<Rightarrow> 's \<times> (grpc_status, 'a) res" where
  "with_message ci f b s = (case cd_decode ci b of
       Ok m \<Rightarrow> f m s | Err st \<Rightarrow> (s, Err st) | Panic \<Rightarrow> (s, Panic))"

definition encoded :: "('a \<Rightarrow> 'c) \<Rightarrow> 's \<times> (grpc_status, 'a) res \<Rightarrow> 's \<times> (grpc_status, 'c) res" where
  "encoded e m = (fst m, bind_res (snd m) (\<lambda>x. Ok (e x)))"

definition unary_service ::
    "('m, 'b) codec \<Rightarrow> ('r, 'b) codec \<Rightarrow> ('m \<Rightarrow> 's \<Rightarrow> 's \<times> (grpc_status, 'r) res) \<Rightarrow> ('b, 's) service_method" where
  "unary_service ci co f = UnaryService (\<lambda>b s. encoded (cd_encode co) (with_message ci f b s))"

definition client_streaming_service ::
    "('m, 'b) codec \<Rightarrow> ('r, 'b) codec \<Rightarrow> ((string, 'm) res list \<Rightarrow> 's \<Rightarrow> 's \<times> (grpc_status, 'r) res) \<Rightarrow>
       ('b, 's) service_method" where
  "client_streaming_service ci co f =
     ClientStreamingService (\<lambda>bs s. encoded (cd_encode co) (f (map (decode_item ci) bs) s))"

definition server_streaming_service ::
    "('m, 'b) codec \<Rightarrow> ('r, 'b) codec \<Rightarrow> ('m \<Rightarrow> 's \<Rightarrow> 's \<times> (grpc_status, (string, 'r) res list) res) \<Rightarrow>
       ('b, 's) service_method" where
  "server_streaming_service ci co f =
     ServerStreamingService (\<lambda>b s. encoded (map (encode_item co)) (with_message ci f b s))"

section \<open>The servers\<close>

record 's bootstrap_trait =
  bt_who_am_i :: "who \<Rightarrow> 's \<Rightarrow> 's \<times> (grpc_status, ip_msg) res"
  bt_request_csr :: "request_csr_envelope \<Rightarrow> 's \<Rightarrow> 's \<times> (grpc_status, csr_envelope) res"
  bt_switch_connection :: "signed_cert_envelope \<Rightarrow> 's \<Rightarrow> 's \<times> (grpc_status, ack) res"

record 's agent_trait =
  at_hello_svc :: "hello \<Rightarrow> 's \<Rightarrow> 's \<times> (grpc_status, hello) res"
  at_upload_sample :: "(string, file_chunk) res list \<Rightarrow> 's \<Rightarrow> 's \<times> (grpc_status, ack) res"
  at_analyze :: "analysis_request \<Rightarrow> 's \<Rightarrow> 's \<times> (grpc_status, (string, event) res list) res"

text \<open>The answer to a path of no method: the status "unimplemented", without a message.\<close>

definition unimplemented :: "'s \<Rightarrow> 's \<times> 'b reply" where
  "unimplemented s = (s, Err (Status Unimplemented []))"

definition who_am_i_svc :: "'b prost \<Rightarrow> 's bootstrap_trait \<Rightarrow> ('b, 's) service_method" where
  "who_am_i_svc px t = unary_service (px_who px) (px_ip_msg px) (bt_who_am_i t)"

definition request_csr_svc :: "'b prost \<Rightarrow> 's bootstrap_trait \<Rightarrow> ('b, 's) service_method" where
  "request_csr_svc px t =
     unary_service (px_request_csr_envelope px) (px_csr_envelope px) (bt_request_csr t)"

definition switch_connection_svc :: "'b prost \<Rightarrow> 's bootstrap_trait \<Rightarrow> ('b, 's) service_method" where
  "switch_connection_svc px t =
     unary_service (px_signed_cert_envelope px) (px_ack px) (bt_switch_connection t)"

definition bootstrap_server_call ::
    "('b, 'z, 's) tonic \<Rightarrow> 'b prost \<Rightarrow> ('s bootstrap_trait, 'z) grpc_server \<Rightarrow> ('b, 's) channel" where
  "bootstrap_server_call tn px srv path body s =
     (if path = ''/malbox.Bootstrap/WhoAmI'' then
        tn_serve tn (server_settings srv) (who_am_i_svc px (gs_inner srv)) body s
      else if path = ''/malbox.Bootstrap/RequestCsr'' then
        tn_serve tn (server_settings srv) (request_csr_svc px (gs_inner srv)) body s
      else if path = ''/malbox.Bootstrap/SwitchConnection'' then
        tn_serve tn (server_settings srv) (switch_connection_svc px (gs_inner srv)) body s
      else unimplemented s)"

definition hello_svc_svc :: "'b prost \<Rightarrow> 's agent_trait \<Rightarrow> ('b, 's) service_method" where
  "hello_svc_svc px t = unary_service (px_hello px) (px_hello px) (at_hello_svc t)"

definition upload_sample_svc :: "'b prost \<Rightarrow> 's agent_trait \<Rightarrow> ('b, 's) service_method" where
  "upload_sample_svc px t = client_streaming_service (px_file_chunk px) (px_ack px) (at_upload_sample t)"

definition analyze_svc :: "'b prost \<Rightarrow> 's agent_trait \<Rightarrow> ('b, 's) service_method" where
  "analyze_svc px t = server_streaming_service (px_analysis_request px) (px_event px) (at_analyze t)"

definition agent_server_call ::
    "('b, 'z, 's) tonic \<Rightarrow> 'b prost \<Rightarrow> ('s agent_trait, 'z) grpc_server \<Rightarrow> ('b, 's) channel" where
  "agent_server_call tn px srv path body s =
     (if path = ''/malbox.Agent/HelloSvc'' then
        tn_serve tn (server_settings srv) (hello_svc_svc px (gs_inner srv)) body s
      else if path = ''/malbox.Agent/UploadSample'' then
        tn_serve tn (server_settings srv) (upload_sample_svc px (gs_inner srv)) body s
      else if path = ''/malbox.Agent/Analyze'' then
        tn_serve tn (server_settings srv) (analyze_svc px (gs_inner srv)) body s
      else unimplemented s)"

section \<open>The clients\<close>

text \<open>Every method waits for the channel first; one that is not ready is the client's own status.\<close>

definition when_ready ::
    "('b, 'z, 's) tonic \<Rightarrow> ('s \<Rightarrow> 's \<times> (grpc_status, 'a) res) \<Rightarrow> 's \<Rightarrow> 's \<times> (grpc_status, 'a) res" where
  "when_ready tn m s = (case tn_ready tn of
       Some e \<Rightarrow> (s, Err (Status OtherCode (''Service was not ready: '' @ e)))
     | None \<Rightarrow> m s)"

definition decoded :: "('c \<Rightarrow> (grpc_status, 'a) res) \<Rightarrow> 's \<times> (grpc_status, 'c) res \<Rightarrow> 's \<times> (grpc_status, 'a) res" where
  "decoded d m = (fst m, bind_res (snd m) d)"

definition client_who_am_i ::
    "('b, 'z, 's) tonic \<Rightarrow> 'b prost \<Rightarrow> 'z settings \<Rightarrow> ('b, 's) channel \<Rightarrow> who \<Rightarrow> 's \<Rightarrow> 's \<times> (grpc_status, ip_msg) res" where
  "client_who_am_i tn px cl ch request = when_ready tn (\<lambda>s. decoded (cd_decode (px_ip_msg px))
     (tn_unary tn cl ch ''/malbox.Bootstrap/WhoAmI'' (''malbox.Bootstrap'', ''WhoAmI'')
        (cd_encode (px_who px) request) s))"

definition client_request_csr ::
    "('b, 'z, 's) tonic \<Rightarrow> 'b prost \<Rightarrow> 'z settings \<Rightarrow> ('b, 's) channel \<Rightarrow> request_csr_envelope \<Rightarrow> 's \<Rightarrow>
       's \<times> (grpc_status, csr_envelope) res" where
  "client_request_csr tn px cl ch request = when_ready tn (\<lambda>s. decoded (cd_decode (px_csr_envelope px))
     (tn_unary tn cl ch ''/malbox.Bootstrap/RequestCsr'' (''malbox.Bootstrap'', ''RequestCsr'')
        (cd_encode (px_request_csr_envelope px) request) s))"

definition client_switch_connection ::
    "('b, 'z, 's) tonic \<Rightarrow> 'b prost \<Rightarrow> 'z settings \<Rightarrow> ('b, 's) channel \<Rightarrow> signed_cert_envelope \<Rightarrow> 's \<Rightarrow>
       's \<times> (grpc_status, ack) res" where
  "client_switch_connection tn px cl ch request = when_ready tn (\<lambda>s. decoded (cd_decode (px_ack px))
     (tn_unary tn cl ch ''/malbox.Bootstrap/SwitchConnection'' (''malbox.Bootstrap'', ''SwitchConnection'')
        (cd_encode (px_signed_cert_envelope px) request) s))"

definition client_hello_svc ::
    "('b, 'z, 's) tonic \<Rightarrow> 'b prost \<Rightarrow> 'z settings \<Rightarrow> ('b, 's) channel \<Rightarrow> hello \<Rightarrow> 's \<Rightarrow> 's \<times> (grpc_status, hello) res" where
  "client_hello_svc tn px cl ch request = when_ready tn (\<lambda>s. decoded (cd_decode (px_hello px))
     (tn_unary tn cl ch ''/malbox.Agent/HelloSvc'' (''malbox.Agent'', ''HelloSvc'')
        (cd_encode (px_hello px) request) s))"

definition client_upload_sample ::
    "('b, 'z, 's) tonic \<Rightarrow> 'b prost \<Rightarrow> 'z settings \<Rightarrow> ('b, 's) channel \<Rightarrow> (string, file_chunk) res list \<Rightarrow> 's \<Rightarrow>
       's \<times> (grpc_status, ack) res" where
  "client_upload_sample tn px cl ch request = when_ready tn (\<lambda>s. decoded (cd_decode (px_ack px))
     (tn_client_streaming tn cl ch ''/malbox.Agent/UploadSample'' (''malbox.Agent'', ''UploadSample'')
        (map (encode_item (px_file_chunk px)) request) s))"

definition client_analyze ::
    "('b, 'z, 's) tonic \<Rightarrow> 'b prost \<Rightarrow> 'z settings \<Rightarrow> ('b, 's) channel \<Rightarrow> analysis_request \<Rightarrow> 's \<Rightarrow>
       's \<times> (grpc_status, (string, event) res list) res" where
  "client_analyze tn px cl ch request = when_ready tn (\<lambda>s. decoded (\<lambda>items. Ok (map (decode_item (px_event px)) items))
     (tn_server_streaming tn cl ch ''/malbox.Agent/Analyze'' (''malbox.Agent'', ''Analyze'')
        (cd_encode (px_analysis_request px) request) s))"

section \<open>What tonic and prost promise\<close>

text \<open>A codec decodes what it encodes. Without compression and without a limit of its own on encoding, each side
  of \<open>tonic\<close> passes messages on as they are, as long as they are within the limit on decoding, which the
  comments of the generated code give as 4 MB unless it is set; a message above it ends the stream with an error.\<close>

definition codec_ok :: "('m, 'b) codec \<Rightarrow> bool" where
  "codec_ok c \<longleftrightarrow> (\<forall>m. cd_decode c (cd_encode c m) = Ok m)"

definition prost_ok :: "'b prost \<Rightarrow> bool" where
  "prost_ok px \<longleftrightarrow> codec_ok (px_who px) \<and> codec_ok (px_ip_msg px) \<and> codec_ok (px_request_csr_envelope px) \<and>
     codec_ok (px_csr_envelope px) \<and> codec_ok (px_signed_cert_envelope px) \<and> codec_ok (px_ack px) \<and>
     codec_ok (px_hello px) \<and> codec_ok (px_file_chunk px) \<and> codec_ok (px_analysis_request px) \<and>
     codec_ok (px_event px)"

definition decoding_limit :: "'z settings \<Rightarrow> nat" where
  "decoding_limit cfg = (case se_max_decoding cfg of Some n \<Rightarrow> n | None \<Rightarrow> 4 * 1024 * 1024)"

definition plain :: "'z settings \<Rightarrow> bool" where
  "plain cfg \<longleftrightarrow> se_accept_compression cfg = {} \<and> se_send_compression cfg = {} \<and> se_max_encoding cfg = None"

definition within :: "('b \<Rightarrow> nat) \<Rightarrow> 'z settings \<Rightarrow> 'b body \<Rightarrow> bool" where
  "within size_of cfg items \<longleftrightarrow> (\<forall>b. Ok b \<in> set items \<longrightarrow> size_of b \<le> decoding_limit cfg)"

definition one_message :: "'s \<times> (grpc_status, 'b) res \<Rightarrow> 's \<times> 'b reply" where
  "one_message m = (fst m, bind_res (snd m) (\<lambda>b. Ok [Ok b]))"

locale tonic_docs =
  fixes tn :: "('b, 'z, 's) tonic" and size_of :: "'b \<Rightarrow> nat"
  assumes serve_unary: "plain cfg \<Longrightarrow> size_of b \<le> decoding_limit cfg \<Longrightarrow>
      tn_serve tn cfg (UnaryService f) [Ok b] s = one_message (f b s)"
    and serve_client_stream: "plain cfg \<Longrightarrow> within size_of cfg items \<Longrightarrow>
      tn_serve tn cfg (ClientStreamingService g) items s = one_message (g items s)"
    and serve_server_stream: "plain cfg \<Longrightarrow> size_of b \<le> decoding_limit cfg \<Longrightarrow>
      tn_serve tn cfg (ServerStreamingService h) [Ok b] s = h b s"
    and ask_unary: "plain cfg \<Longrightarrow> ch path [Ok b] s = one_message (s', r) \<Longrightarrow>
      (\<And>x. r = Ok x \<Longrightarrow> size_of x \<le> decoding_limit cfg) \<Longrightarrow> tn_unary tn cfg ch path meth b s = (s', r)"
    and ask_client_stream: "plain cfg \<Longrightarrow> ch path items s = one_message (s', r) \<Longrightarrow>
      (\<And>x. r = Ok x \<Longrightarrow> size_of x \<le> decoding_limit cfg) \<Longrightarrow> tn_client_streaming tn cfg ch path meth items s = (s', r)"
    and ask_server_stream: "plain cfg \<Longrightarrow> ch path [Ok b] s = (s', q) \<Longrightarrow>
      (\<And>xs. q = Ok xs \<Longrightarrow> within size_of cfg xs) \<Longrightarrow> tn_server_streaming tn cfg ch path meth b s = (s', q)"
    and too_large: "plain cfg \<Longrightarrow> ch path [Ok b] s = (s', Ok (Ok x # xs)) \<Longrightarrow> decoding_limit cfg < size_of x \<Longrightarrow>
      \<exists>e. tn_server_streaming tn cfg ch path meth b s = (s', Ok [Err e])"
begin

lemma default_plain: "plain client_new" "plain (server_settings (server_new t))"
    "decoding_limit client_new = 4 * 1024 * 1024" "decoding_limit (server_settings (server_new t)) = 4 * 1024 * 1024"
  by (simp_all add: plain_def client_new_def default_settings_def server_settings_def server_new_def
      server_from_arc_def decoding_limit_def)

text \<open>The default client of a method against the default server: a call is the call of the trait.\<close>

lemma unary_call:
  assumes codecs: "codec_ok ci" "codec_ok co"
    and ch: "ch path = tn_serve tn (server_settings (server_new t)) (unary_service ci co f)"
    and request: "size_of (cd_encode ci m) \<le> 4 * 1024 * 1024"
    and response: "\<And>x. snd (f m s) = Ok x \<Longrightarrow> size_of (cd_encode co x) \<le> 4 * 1024 * 1024"
  shows "decoded (cd_decode co) (tn_unary tn client_new ch path meth (cd_encode ci m) s) = f m s"
proof -
  let ?r = "encoded (cd_encode co) (f m s)"
  have "ch path [Ok (cd_encode ci m)] s = one_message ?r"
    unfolding ch unary_service_def using request codecs(1)
    by (subst serve_unary) (simp_all add: default_plain with_message_def codec_ok_def)
  then have "tn_unary tn client_new ch path meth (cd_encode ci m) s = (fst ?r, snd ?r)"
    by (intro ask_unary)
      (use response in \<open>auto simp: default_plain encoded_def bind_res_Ok_iff\<close>)
  then show ?thesis using codecs(2)
    by (cases "f m s"; cases "snd (f m s)") (simp_all add: decoded_def encoded_def codec_ok_def)
qed

lemma refused:
  assumes "\<And>body. ch path body s = (s', Err st)"
  shows "tn_unary tn client_new ch path meth b s = (s', Err st)"
    "tn_client_streaming tn client_new ch path meth items s = (s', Err st)"
    "tn_server_streaming tn client_new ch path meth b s = (s', Err st)"
  by (rule ask_unary ask_client_stream ask_server_stream; simp add: default_plain assms one_message_def)+

lemma item_roundtrip: "codec_ok c \<Longrightarrow> decode_item c (encode_item c i) = i"
  by (cases i) (simp_all add: decode_item_def encode_item_def codec_ok_def)

lemma items_roundtrip: "codec_ok c \<Longrightarrow> map (decode_item c \<circ> encode_item c) items = items"
  by (simp add: map_idI item_roundtrip)

lemma client_stream_call:
  assumes codecs: "codec_ok ci" "codec_ok co"
    and ch: "ch path = tn_serve tn (server_settings (server_new t)) (client_streaming_service ci co f)"
    and request: "\<And>m. Ok m \<in> set items \<Longrightarrow> size_of (cd_encode ci m) \<le> 4 * 1024 * 1024"
    and response: "\<And>x. snd (f items s) = Ok x \<Longrightarrow> size_of (cd_encode co x) \<le> 4 * 1024 * 1024"
  shows "decoded (cd_decode co) (tn_client_streaming tn client_new ch path meth (map (encode_item ci) items) s) =
    f items s"
proof -
  let ?r = "encoded (cd_encode co) (f items s)"
  have "within size_of (server_settings (server_new t)) (map (encode_item ci) items)"
    using request by (auto simp: within_def default_plain encode_item_Ok)
  then have "ch path (map (encode_item ci) items) s = one_message ?r"
    unfolding ch client_streaming_service_def
    by (subst serve_client_stream) (simp_all add: default_plain items_roundtrip codecs(1))
  then have "tn_client_streaming tn client_new ch path meth (map (encode_item ci) items) s = (fst ?r, snd ?r)"
    by (intro ask_client_stream)
      (use response in \<open>auto simp: default_plain encoded_def bind_res_Ok_iff\<close>)
  then show ?thesis using codecs(2)
    by (cases "f items s"; cases "snd (f items s)") (simp_all add: decoded_def encoded_def codec_ok_def)
qed

lemma server_stream_reply:
  assumes "codec_ok ci"
    and ch: "ch path = tn_serve tn (server_settings (server_new t)) (server_streaming_service ci co f)"
    and request: "size_of (cd_encode ci m) \<le> 4 * 1024 * 1024"
  shows "ch path [Ok (cd_encode ci m)] s = encoded (map (encode_item co)) (f m s)"
  unfolding ch server_streaming_service_def using request assms(1)
  by (subst serve_server_stream) (simp_all add: default_plain with_message_def codec_ok_def)

lemma server_stream_call:
  assumes codecs: "codec_ok ci" "codec_ok co"
    and ch: "ch path = tn_serve tn (server_settings (server_new t)) (server_streaming_service ci co f)"
    and request: "size_of (cd_encode ci m) \<le> 4 * 1024 * 1024"
    and response: "\<And>xs x. snd (f m s) = Ok xs \<Longrightarrow> Ok x \<in> set xs \<Longrightarrow> size_of (cd_encode co x) \<le> 4 * 1024 * 1024"
  shows "decoded (\<lambda>xs. Ok (map (decode_item co) xs))
      (tn_server_streaming tn client_new ch path meth (cd_encode ci m) s) = f m s"
proof -
  let ?r = "encoded (map (encode_item co)) (f m s)"
  have "ch path [Ok (cd_encode ci m)] s = (fst ?r, snd ?r)"
    using server_stream_reply [of ci ch path t co f m s] codecs(1) ch request by simp
  then have "tn_server_streaming tn client_new ch path meth (cd_encode ci m) s = (fst ?r, snd ?r)"
    by (intro ask_server_stream)
      (use response in \<open>auto simp: default_plain encoded_def bind_res_Ok_iff within_def encode_item_Ok\<close>)
  then show ?thesis using codecs(2)
    by (cases "f m s"; cases "snd (f m s)") (simp_all add: decoded_def encoded_def items_roundtrip)
qed

lemma server_stream_too_large:
  assumes "codec_ok ci"
    and ch: "ch path = tn_serve tn (server_settings (server_new t)) (server_streaming_service ci co f)"
    and request: "size_of (cd_encode ci m) \<le> 4 * 1024 * 1024"
    and response: "f m s = (s', Ok (Ok x # xs))" "4 * 1024 * 1024 < size_of (cd_encode co x)"
  shows "\<exists>e. decoded (\<lambda>xs. Ok (map (decode_item co) xs))
      (tn_server_streaming tn client_new ch path meth (cd_encode ci m) s) = (s', Ok [Err e])"
proof -
  have "ch path [Ok (cd_encode ci m)] s = (s', Ok (Ok (cd_encode co x) # map (encode_item co) xs))"
    using server_stream_reply [of ci ch path t co f m s] assms(1) ch request response(1)
    by (simp add: encoded_def encode_item_def)
  from too_large [where ch = ch and path = path, OF default_plain(1) this, of meth] obtain e where
    "tn_server_streaming tn client_new ch path meth (cd_encode ci m) s = (s', Ok [Err e])"
    using response(2) by (auto simp: default_plain)
  then show ?thesis by (simp add: decoded_def decode_item_def)
qed

end

text \<open>An executable \<open>tonic\<close> for which the promises hold.\<close>

fun cut_large :: "('b \<Rightarrow> nat) \<Rightarrow> nat \<Rightarrow> 'b body \<Rightarrow> 'b body" where
  "cut_large size_of n [] = []"
| "cut_large size_of n (Ok b # items) =
     (if size_of b \<le> n then Ok b # cut_large size_of n items else [Err ''decoded message length too large''])"
| "cut_large size_of n (i # items) = i # cut_large size_of n items"

fun sole :: "'b body \<Rightarrow> (grpc_status, 'b) res" where
  "sole [Ok b] = Ok b"
| "sole items = Err (Status Internal ''Missing message'')"

definition with_sole :: "'b body \<Rightarrow> ('b \<Rightarrow> 's \<Rightarrow> 's \<times> (grpc_status, 'a) res) \<Rightarrow> 's \<Rightarrow> 's \<times> (grpc_status, 'a) res" where
  "with_sole items f s = (case sole items of Ok b \<Rightarrow> f b s | Err st \<Rightarrow> (s, Err st) | Panic \<Rightarrow> (s, Panic))"

definition model_tonic :: "('b \<Rightarrow> nat) \<Rightarrow> ('b, 'z, 's) tonic" where
  "model_tonic size_of =
     (let cut = (\<lambda>cfg. cut_large size_of (decoding_limit cfg));
          sole_of = (\<lambda>cfg m. (fst m, bind_res (snd m) (\<lambda>items. sole (cut cfg items))))
      in \<lparr>tn_ready = None,
          tn_serve = (\<lambda>cfg m items s. case m of
             UnaryService f \<Rightarrow> one_message (with_sole (cut cfg items) f s)
           | ClientStreamingService f \<Rightarrow> one_message (f (cut cfg items) s)
           | ServerStreamingService f \<Rightarrow> with_sole (cut cfg items) f s),
          tn_unary = (\<lambda>cfg ch path meth b s. sole_of cfg (ch path [Ok b] s)),
          tn_client_streaming = (\<lambda>cfg ch path meth items s. sole_of cfg (ch path items s)),
          tn_server_streaming = (\<lambda>cfg ch path meth b s. encoded (cut cfg) (ch path [Ok b] s))\<rparr>)"

lemma cut_within: "within size_of cfg items \<Longrightarrow> cut_large size_of (decoding_limit cfg) items = items"
proof (induction items)
  case (Cons i items)
  then show ?case by (cases i) (auto simp: within_def)
qed simp

interpretation model: tonic_docs "model_tonic size_of" size_of for size_of
proof
  fix cfg :: "'b settings" and b and f :: "'a \<Rightarrow> 'c \<Rightarrow> 'c \<times> (grpc_status, 'a) res" and s
  assume "size_of b \<le> decoding_limit cfg"
  then show "tn_serve (model_tonic size_of) cfg (UnaryService f) [Ok b] s = one_message (f b s)"
    by (simp add: model_tonic_def with_sole_def)
next
  fix cfg :: "'b settings" and items and g :: "'a body \<Rightarrow> 'c \<Rightarrow> 'c \<times> (grpc_status, 'a) res" and s
  assume "within size_of cfg items"
  then show "tn_serve (model_tonic size_of) cfg (ClientStreamingService g) items s = one_message (g items s)"
    by (simp add: model_tonic_def cut_within)
next
  fix cfg :: "'b settings" and b and h :: "'a \<Rightarrow> 'c \<Rightarrow> 'c \<times> 'a reply" and s
  assume "size_of b \<le> decoding_limit cfg"
  then show "tn_serve (model_tonic size_of) cfg (ServerStreamingService h) [Ok b] s = h b s"
    by (simp add: model_tonic_def with_sole_def)
next
  fix cfg :: "'b settings" and ch :: "('a, 'c) channel" and path b s s' r meth
  assume "ch path [Ok b] s = one_message (s', r)" "\<And>x. r = Ok x \<Longrightarrow> size_of x \<le> decoding_limit cfg"
  then show "tn_unary (model_tonic size_of) cfg ch path meth b s = (s', r)"
    by (cases r) (simp_all add: model_tonic_def one_message_def)
next
  fix cfg :: "'b settings" and ch :: "('a, 'c) channel" and path items s s' r meth
  assume "ch path items s = one_message (s', r)" "\<And>x. r = Ok x \<Longrightarrow> size_of x \<le> decoding_limit cfg"
  then show "tn_client_streaming (model_tonic size_of) cfg ch path meth items s = (s', r)"
    by (cases r) (simp_all add: model_tonic_def one_message_def)
next
  fix cfg :: "'b settings" and ch :: "('a, 'c) channel" and path b s s' q meth
  assume "ch path [Ok b] s = (s', q)" "\<And>xs. q = Ok xs \<Longrightarrow> within size_of cfg xs"
  then show "tn_server_streaming (model_tonic size_of) cfg ch path meth b s = (s', q)"
    by (cases q) (simp_all add: model_tonic_def encoded_def cut_within)
next
  fix cfg :: "'b settings" and ch :: "('a, 'c) channel" and path b s s' x xs meth
  assume "ch path [Ok b] s = (s', Ok (Ok x # xs))" "decoding_limit cfg < size_of x"
  then show "\<exists>e. tn_server_streaming (model_tonic size_of) cfg ch path meth b s = (s', Ok [Err e])"
    by (simp add: model_tonic_def encoded_def)
qed

section \<open>The two services\<close>

definition bootstrap_impl ::
    "ip_addr option \<Rightarrow> ('k, 'c, 'q) rcgen \<Rightarrow> (string, 'k) res \<Rightarrow> bootstrap_service bootstrap_trait" where
  "bootstrap_impl remote_addr rc generated = \<lparr>bt_who_am_i = (\<lambda>_. who_am_i remote_addr),
     bt_request_csr = request_csr rc generated, bt_switch_connection = switch_connection\<rparr>"

definition agent_impl ::
    "fs_env \<Rightarrow> (analysis_config \<Rightarrow> ('e, agent_result) res) \<Rightarrow> u64 \<Rightarrow> files agent_trait" where
  "agent_impl env run now = \<lparr>at_hello_svc = (\<lambda>m fs. (fs, hello_svc m)), at_upload_sample = upload_sample env,
     at_analyze = (\<lambda>m fs. (fs, analyze run now m))\<rparr>"

definition bootstrap_channel where
  "bootstrap_channel tn px remote_addr rc generated =
     bootstrap_server_call tn px (server_new (bootstrap_impl remote_addr rc generated))"

definition agent_channel where
  "agent_channel tn px env run now = agent_server_call tn px (agent_server_new (agent_impl env run now))"

lemma bootstrap_paths:
  "bootstrap_channel tn px a rc g ''/malbox.Bootstrap/WhoAmI'' = tn_serve tn (server_settings (server_new (bootstrap_impl a rc g)))
     (unary_service (px_who px) (px_ip_msg px) (\<lambda>_. who_am_i a))"
  "bootstrap_channel tn px a rc g ''/malbox.Bootstrap/RequestCsr'' = tn_serve tn (server_settings (server_new (bootstrap_impl a rc g)))
     (unary_service (px_request_csr_envelope px) (px_csr_envelope px) (request_csr rc g))"
  "bootstrap_channel tn px a rc g ''/malbox.Bootstrap/SwitchConnection'' = tn_serve tn (server_settings (server_new (bootstrap_impl a rc g)))
     (unary_service (px_signed_cert_envelope px) (px_ack px) switch_connection)"
  by (simp_all add: fun_eq_iff bootstrap_channel_def bootstrap_server_call_def who_am_i_svc_def request_csr_svc_def
      switch_connection_svc_def server_new_def server_from_arc_def bootstrap_impl_def)

lemma agent_paths:
  "agent_channel tn px env run now ''/malbox.Agent/HelloSvc'' = tn_serve tn (server_settings (server_new (agent_impl env run now)))
     (unary_service (px_hello px) (px_hello px) (\<lambda>m fs. (fs, hello_svc m)))"
  "agent_channel tn px env run now ''/malbox.Agent/UploadSample'' = tn_serve tn (server_settings (server_new (agent_impl env run now)))
     (client_streaming_service (px_file_chunk px) (px_ack px) (upload_sample env))"
  "agent_channel tn px env run now ''/malbox.Agent/Analyze'' = tn_serve tn (server_settings (server_new (agent_impl env run now)))
     (server_streaming_service (px_analysis_request px) (px_event px) (\<lambda>m fs. (fs, analyze run now m)))"
  by (simp_all add: fun_eq_iff agent_channel_def agent_server_call_def hello_svc_svc_def upload_sample_svc_def
      analyze_svc_def agent_new server_new_def server_from_arc_def agent_impl_def)

section \<open>An encoding for the witnesses\<close>

datatype wire =
    WWho who
  | WIpMsg ip_msg
  | WRequestCsr request_csr_envelope
  | WCsr csr_envelope
  | WSignedCert signed_cert_envelope
  | WAck ack
  | WHello hello
  | WChunk file_chunk
  | WAnalysis analysis_request
  | WEvent event

fun wire_size :: "wire \<Rightarrow> nat" where
  "wire_size (WChunk c) = length (fc_data c) + length (fc_filename c)"
| "wire_size (WEvent e) = (case ev_kind e of Some (Done d) \<Rightarrow> length (acd_features_json d) | None \<Rightarrow> 0)"
| "wire_size w = 0"

definition wire_codec :: "('m \<Rightarrow> wire) \<Rightarrow> (wire \<Rightarrow> 'm option) \<Rightarrow> ('m, wire) codec" where
  "wire_codec enc dec = \<lparr>cd_encode = enc,
     cd_decode = (\<lambda>w. case dec w of Some m \<Rightarrow> Ok m | None \<Rightarrow> Err (Status Internal ''failed to decode''))\<rparr>"

definition wire_prost :: "wire prost" where
  "wire_prost = \<lparr>px_who = wire_codec WWho (\<lambda>w. case w of WWho m \<Rightarrow> Some m | _ \<Rightarrow> None),
     px_ip_msg = wire_codec WIpMsg (\<lambda>w. case w of WIpMsg m \<Rightarrow> Some m | _ \<Rightarrow> None),
     px_request_csr_envelope = wire_codec WRequestCsr (\<lambda>w. case w of WRequestCsr m \<Rightarrow> Some m | _ \<Rightarrow> None),
     px_csr_envelope = wire_codec WCsr (\<lambda>w. case w of WCsr m \<Rightarrow> Some m | _ \<Rightarrow> None),
     px_signed_cert_envelope = wire_codec WSignedCert (\<lambda>w. case w of WSignedCert m \<Rightarrow> Some m | _ \<Rightarrow> None),
     px_ack = wire_codec WAck (\<lambda>w. case w of WAck m \<Rightarrow> Some m | _ \<Rightarrow> None),
     px_hello = wire_codec WHello (\<lambda>w. case w of WHello m \<Rightarrow> Some m | _ \<Rightarrow> None),
     px_file_chunk = wire_codec WChunk (\<lambda>w. case w of WChunk m \<Rightarrow> Some m | _ \<Rightarrow> None),
     px_analysis_request = wire_codec WAnalysis (\<lambda>w. case w of WAnalysis m \<Rightarrow> Some m | _ \<Rightarrow> None),
     px_event = wire_codec WEvent (\<lambda>w. case w of WEvent m \<Rightarrow> Some m | _ \<Rightarrow> None)\<rparr>"

lemma wire_prost_ok: "prost_ok wire_prost"
  by (simp add: prost_ok_def codec_ok_def wire_prost_def wire_codec_def)

lemma wire_encode:
  "cd_encode (px_file_chunk wire_prost) = WChunk" "cd_encode (px_event wire_prost) = WEvent"
  "cd_encode (px_ack wire_prost) = WAck" "cd_encode (px_analysis_request wire_prost) = WAnalysis"
  "cd_encode (px_who wire_prost) = WWho" "cd_encode (px_ip_msg wire_prost) = WIpMsg"
  "cd_encode (px_request_csr_envelope wire_prost) = WRequestCsr" "cd_encode (px_csr_envelope wire_prost) = WCsr"
  "cd_encode (px_signed_cert_envelope wire_prost) = WSignedCert"
  by (simp_all add: wire_prost_def wire_codec_def)

lemma model_ready: "tn_ready (model_tonic size_of) = None"
  by (simp add: model_tonic_def)

section \<open>Calls over the wire\<close>

definition fits :: "('b \<Rightarrow> nat) \<Rightarrow> ('m, 'b) codec \<Rightarrow> ('r, 'b) codec \<Rightarrow> 'm \<Rightarrow> (grpc_status, 'r) res \<Rightarrow> bool" where
  "fits size_of ci co m r \<longleftrightarrow> size_of (cd_encode ci m) \<le> 4 * 1024 * 1024 \<and>
     (\<forall>x. r = Ok x \<longrightarrow> size_of (cd_encode co x) \<le> 4 * 1024 * 1024)"

text \<open>The calls of the bootstrap arrive: on a channel to the agent's bootstrap server, each method of the
  generated client is the handler of the same name on the agent's state, with the same message and the same
  answer or status, as long as request and answer are within the limit of 4 MB.\<close>

theorem bootstrap_calls_arrive:
  assumes "tonic_docs tn size_of" and "prost_ok px" and "tn_ready tn = None"
  shows "(fits size_of (px_who px) (px_ip_msg px) m (snd (who_am_i addr svc)) \<longrightarrow>
       client_who_am_i tn px client_new (bootstrap_channel tn px addr rc g) m svc = who_am_i addr svc) \<and>
     (fits size_of (px_request_csr_envelope px) (px_csr_envelope px) req (snd (request_csr rc g req svc)) \<longrightarrow>
       client_request_csr tn px client_new (bootstrap_channel tn px addr rc g) req svc = request_csr rc g req svc) \<and>
     (fits size_of (px_signed_cert_envelope px) (px_ack px) cert (snd (switch_connection cert svc)) \<longrightarrow>
       client_switch_connection tn px client_new (bootstrap_channel tn px addr rc g) cert svc = switch_connection cert svc)"
proof -
  have ok: "codec_ok (px_who px)" "codec_ok (px_ip_msg px)" "codec_ok (px_request_csr_envelope px)"
    "codec_ok (px_csr_envelope px)" "codec_ok (px_signed_cert_envelope px)" "codec_ok (px_ack px)"
    using assms(2) by (simp_all add: prost_ok_def)
  note call = tonic_docs.unary_call [OF assms(1)]
  let ?ch = "bootstrap_channel tn px addr rc g"
  show ?thesis
    unfolding fits_def client_who_am_i_def client_request_csr_def client_switch_connection_def when_ready_def assms(3)
    by (simp add: call [where ch = ?ch, OF ok(1,2) bootstrap_paths(1)] call [where ch = ?ch, OF ok(3,4) bootstrap_paths(2)]
        call [where ch = ?ch, OF ok(5,6) bootstrap_paths(3)])
qed

theorem bootstrap_calls_arrive_witness:
  "client_who_am_i (model_tonic wire_size :: (wire, unit, bootstrap_service) tonic) wire_prost client_new
      (bootstrap_channel (model_tonic wire_size :: (wire, unit, bootstrap_service) tonic) wire_prost (Some (V4 10 0 0 1))
         null_rcgen (Ok ())) Who new_service =
    who_am_i (Some (V4 10 0 0 1)) new_service"
  by (rule bootstrap_calls_arrive [OF model.tonic_docs_axioms wire_prost_ok model_ready, THEN conjunct1, THEN mp])
    (simp add: fits_def wire_encode)

text \<open>A call of a method of the other service is refused without an effect: the paths of the two services are
  disjoint.\<close>

lemma other_service:
  assumes "tonic_docs tn size_of" and "tn_ready tn = None"
  shows "client_hello_svc tn px agent_client_new (bootstrap_channel tn px addr rc g) m svc = (svc, Err (Status Unimplemented []))"
    "client_analyze tn px agent_client_new (bootstrap_channel tn px addr rc g) req svc = (svc, Err (Status Unimplemented []))"
    "client_upload_sample tn px agent_client_new (bootstrap_channel tn px addr rc g) ms svc = (svc, Err (Status Unimplemented []))"
proof -
  have no: "bootstrap_channel tn px addr rc g path body svc = (svc, Err (Status Unimplemented []))"
    if "path = ''/malbox.Agent/HelloSvc'' \<or> path = ''/malbox.Agent/UploadSample'' \<or> path = ''/malbox.Agent/Analyze''"
    for path body
    using that by (auto simp: bootstrap_channel_def bootstrap_server_call_def unimplemented_def)
  note refused = tonic_docs.refused [where ch = "bootstrap_channel tn px addr rc g", OF assms(1)]
  show "client_hello_svc tn px agent_client_new (bootstrap_channel tn px addr rc g) m svc = (svc, Err (Status Unimplemented []))"
    "client_analyze tn px agent_client_new (bootstrap_channel tn px addr rc g) req svc = (svc, Err (Status Unimplemented []))"
    "client_upload_sample tn px agent_client_new (bootstrap_channel tn px addr rc g) ms svc = (svc, Err (Status Unimplemented []))"
    by (simp_all add: client_hello_svc_def client_analyze_def client_upload_sample_def when_ready_def assms(2)
        agent_new refused no decoded_def)
qed

text \<open>The name of the sample is in the first chunk only, so every chunk is small.\<close>

lemma chunk_names:
  "chunk_loop rd live name s first k = Some cs \<Longrightarrow> \<forall>c \<in> set cs. length (fc_filename c) \<le> length name"
proof (erule chunk_loop.raw_induct [where P = "\<lambda>rd live name s first k cs. \<forall>c \<in> set cs. length (fc_filename c) \<le> length name",
      rotated])
  fix loop and rd :: "'a read_fn" and live name s first k cs
  assume IH: "\<And>rd live name s first k cs. loop rd live name s first k = Some cs \<Longrightarrow>
      \<forall>c \<in> set cs. length (fc_filename c) \<le> length name"
    and cs: "(case rd s CHUNK of (r, s') \<Rightarrow>
       (case r of
          Ok bs \<Rightarrow>
            (if bs = [] then Some []
             else if \<not> live k then Some []
             else Option.bind (loop rd live name s' False (Suc k)) (\<lambda>cs.
               Some (\<lparr>fc_data = bs, fc_is_first = first,
                      fc_filename = (if first then name else [])\<rparr> # cs)))
        | Err e \<Rightarrow> Some []
        | Panic \<Rightarrow> Some [])) = Some cs"
  then show "\<forall>c \<in> set cs. length (fc_filename c) \<le> length name"
    by (auto split: prod.splits res.splits if_splits simp: bind_eq_Some_conv)
qed

lemma upload_ack:
  assumes "snd (upload_sample env ms fs) = Ok a"
  shows "a = \<lparr>ack_success = True, ack_error_message = []\<rparr>"
  using assms by (auto simp: upload_sample_def store_upload_def Let_def bind_res_Ok_iff
      split: list.splits res.splits if_splits option.splits prod.splits)

text \<open>C18: Sending the sample over the wire changes nothing: the controller's upload through the generated client,
  the transport and the agent's server is the upload into the agent's handler, with the same files and the
  same result, for every sample and every name up to a megabyte, because no chunk reaches the limit on messages.\<close>

theorem upload_over_wire:
  assumes "tonic_docs tn size_of" and "prost_ok px" and "tn_ready tn = None"
    and "\<And>c. size_of (cd_encode (px_file_chunk px) c) \<le> length (fc_data c) + 2 * length (fc_filename c) + 64"
    and "\<And>a. size_of (cd_encode (px_ack px) a) \<le> 2 * length (ack_error_message a) + 64"
    and "byte_reader rd pending fin invar" and "invar s" and "\<And>k. live k" and "length name \<le> 1024 * 1024"
  shows "upload_sample_client None rd live
      (client_upload_sample tn px agent_client_new (agent_channel tn px env run now)) name s fs =
    upload_sample_client None rd live (upload_sample env) name s fs"
proof -
  obtain cs where cs: "chunk_loop rd live name s True 0 = Some cs"
    "\<forall>c \<in> set cs. fc_data c \<noteq> [] \<and> length (fc_data c) \<le> CHUNK"
    using byte_reader.chunk_loop_all [where live = live and name = name and first = True and k = 0, OF assms(6,7,8)]
    by blast
  have small: "size_of (cd_encode (px_file_chunk px) c) \<le> 4 * 1024 * 1024" if "c \<in> set cs" for c
  proof -
    have "length (fc_data c) \<le> 32 * 1024" "length (fc_filename c) \<le> 1024 * 1024"
      using cs(2) chunk_names [OF cs(1)] that assms(9) by (auto simp: CHUNK_def)
    with assms(4) [of c] show ?thesis by simp
  qed
  have ok: "codec_ok (px_file_chunk px)" "codec_ok (px_ack px)" using assms(2) by (simp_all add: prost_ok_def)
  have "client_upload_sample tn px agent_client_new (agent_channel tn px env run now) (map Ok cs) fs =
      upload_sample env (map Ok cs) fs"
    unfolding client_upload_sample_def when_ready_def assms(3) option.case agent_new
  proof (rule tonic_docs.client_stream_call [where ch = "agent_channel tn px env run now", OF assms(1) ok agent_paths(2)])
    fix m assume "Ok m \<in> set (map Ok cs :: (string, file_chunk) res list)"
    then show "size_of (cd_encode (px_file_chunk px) m) \<le> 4 * 1024 * 1024" using small by auto
  next
    fix x assume "snd (upload_sample env (map Ok cs) fs) = Ok x"
    then show "size_of (cd_encode (px_ack px) x) \<le> 4 * 1024 * 1024"
      using upload_ack [of env "map Ok cs" fs x] assms(5) [of x] by simp
  qed
  then show ?thesis using cs(1) by (simp add: upload_sample_client_def)
qed

theorem upload_over_wire_witness:
  "upload_sample_client None (np_read queue_read_file) (\<lambda>_. True)
      (client_upload_sample (model_tonic wire_size :: (wire, unit, files) tonic) wire_prost agent_client_new
        (agent_channel (model_tonic wire_size :: (wire, unit, files) tonic) wire_prost good_fs
          (\<lambda>_. Err '''' :: (string, agent_result) res) 0)) ''a.exe'' short_sample Map.empty =
    Some (Map.empty(win_join upload_dir ''a.exe'' \<mapsto> [77, 90, 1]), Ok ())"
proof -
  note rd = win_pipe.pipe.byte_reader_axioms
  have sizes: "\<And>c. wire_size (cd_encode (px_file_chunk wire_prost) c) \<le> length (fc_data c) + 2 * length (fc_filename c) + 64"
    "\<And>a. wire_size (cd_encode (px_ack wire_prost) a) \<le> 2 * length (ack_error_message a) + 64"
    by (simp_all add: wire_encode)
  have name: "length ''a.exe'' \<le> 1024 * 1024" by simp
  have "upload_sample_client None (np_read queue_read_file) (\<lambda>_. True) (upload_sample good_fs) ''a.exe''
      short_sample Map.empty = Some (Map.empty(win_join upload_dir ''a.exe'' \<mapsto> [77, 90, 1]), Ok ())"
    using client_good [where live = "\<lambda>_. True" and name = "''a.exe''" and fs = Map.empty, OF rd short_sample(1)]
    by (simp add: example_trim example_relative short_sample(2))
  then show ?thesis
    using upload_over_wire [where live = "\<lambda>_. True" and env = good_fs and run = "\<lambda>_. Err '''' :: (string, agent_result) res"
        and now = 0 and fs = Map.empty, OF model.tonic_docs_axioms wire_prost_ok model_ready sizes rd short_sample(1) TrueI name]
    by simp
qed

text \<open>The analysis over the wire, for the properties of the root theory.\<close>

lemma analyze_over_wire:
  assumes "tonic_docs tn size_of" and "prost_ok px" and "tn_ready tn = None"
    and "size_of (cd_encode (px_analysis_request px) req) \<le> 4 * 1024 * 1024"
  shows "(\<And>xs x. analyze run now req = Ok xs \<Longrightarrow> Ok x \<in> set xs \<Longrightarrow> size_of (cd_encode (px_event px) x) \<le> 4 * 1024 * 1024) \<Longrightarrow>
      client_analyze tn px agent_client_new (agent_channel tn px env run now) req fs = (fs, analyze run now req)"
    and "analyze run now req = Ok (Ok x # xs) \<Longrightarrow> 4 * 1024 * 1024 < size_of (cd_encode (px_event px) x) \<Longrightarrow>
      \<exists>e. client_analyze tn px agent_client_new (agent_channel tn px env run now) req fs = (fs, Ok [Err e])"
proof -
  have ok: "codec_ok (px_analysis_request px)" "codec_ok (px_event px)" using assms(2) by (simp_all add: prost_ok_def)
  note call = tonic_docs.server_stream_call [where ch = "agent_channel tn px env run now", OF assms(1) ok agent_paths(3) assms(4)]
  note large = tonic_docs.server_stream_too_large [where ch = "agent_channel tn px env run now",
      OF assms(1) ok(1) agent_paths(3) assms(4)]
  show "client_analyze tn px agent_client_new (agent_channel tn px env run now) req fs = (fs, analyze run now req)"
    if "\<And>xs x. analyze run now req = Ok xs \<Longrightarrow> Ok x \<in> set xs \<Longrightarrow> size_of (cd_encode (px_event px) x) \<le> 4 * 1024 * 1024"
    unfolding client_analyze_def when_ready_def assms(3) option.case agent_new by (rule call) (use that in auto)
  show "\<exists>e. client_analyze tn px agent_client_new (agent_channel tn px env run now) req fs = (fs, Ok [Err e])"
    if "analyze run now req = Ok (Ok x # xs)" "4 * 1024 * 1024 < size_of (cd_encode (px_event px) x)"
    unfolding client_analyze_def when_ready_def assms(3) option.case agent_new by (rule large) (use that in auto)
qed

end
