(* ===== verification/Wire_Job.thy ===== *)
theory Wire_Job
  imports Whole_Job Grpc
begin

text \<open>
  A whole job over the wire: the task of \<open>Job_Run\<close> with the generated clients, on the channels of the generated
  servers, which dispatch to the agent's handlers. Proved: as long as the report fits into a message, the task
  over the wire is the task against the handlers, so that what \<open>Whole_Job\<close> proves holds over the wire.
\<close>

section \<open>The guest's servers\<close>

definition guest_bootstrap ::
    "ip_addr option \<Rightarrow> ('k, 'c, 'q) rcgen \<Rightarrow> (string, 'k) res \<Rightarrow> guest bootstrap_trait" where
  "guest_bootstrap addr rc key = \<lparr>bt_who_am_i = (\<lambda>_. on_boot (who_am_i addr)),
     bt_request_csr = (\<lambda>q. on_boot (request_csr rc key q)), bt_switch_connection = (\<lambda>e. on_boot (switch_connection e))\<rparr>"

definition guest_agent :: "fs_env \<Rightarrow> 'h run_env \<Rightarrow> u64 \<Rightarrow> guest agent_trait" where
  "guest_agent fe renv now = \<lparr>at_hello_svc = (\<lambda>m g. (g, hello_svc m)),
     at_upload_sample = (\<lambda>ms. on_files (upload_sample fe ms)),
     at_analyze = (\<lambda>m g. (g, analyze (agent_run renv (gu_os g)) now m))\<rparr>"

definition boot_channel where
  "boot_channel tn px addr rc key = bootstrap_server_call tn px (server_new (guest_bootstrap addr rc key))"

definition mtls_channel where
  "mtls_channel tn px fe renv now = agent_server_call tn px (agent_server_new (guest_agent fe renv now))"

text \<open>A job's environment with the agent at the other end of the wire; the answer to \<open>HelloSvc\<close> does not depend on
  the state \<open>g0\<close> in which it is called.\<close>

definition wire_attach ::
    "('b, 'z, guest) tonic \<Rightarrow> 'b prost \<Rightarrow> guest \<Rightarrow> ip_addr option \<Rightarrow> (string, 'k) res \<Rightarrow> fs_env \<Rightarrow> 'h run_env \<Rightarrow> u64 \<Rightarrow>
       (guest, 's, 'k, 'c, 'q) job_env \<Rightarrow> (guest, 's, 'k, 'c, 'q) job_env" where
  "wire_attach tn px g0 addr key fe renv now env =
     (let boot = boot_channel tn px addr (je_rcgen env) key; agent = mtls_channel tn px fe renv now
      in env\<lparr>je_who := client_who_am_i tn px client_new boot Who, je_csr := client_request_csr tn px client_new boot,
           je_switch := client_switch_connection tn px client_new boot,
           je_hello := (\<lambda>m. snd (client_hello_svc tn px agent_client_new agent m g0)),
           je_upload := client_upload_sample tn px agent_client_new agent,
           je_analyze := (\<lambda>g req. snd (client_analyze tn px agent_client_new agent req g))\<rparr>)"

section \<open>What fits into a message\<close>

text \<open>What protobuf promises of the messages with texts and bytes: bytes are copied, a text takes at most two
  bytes for each Latin-1 character, and tags, lengths and numbers take no more than 64 bytes together.\<close>

definition encoded_within :: "('b \<Rightarrow> nat) \<Rightarrow> 'b prost \<Rightarrow> bool" where
  "encoded_within size_of px \<longleftrightarrow>
     (\<forall>m. size_of (cd_encode (px_who px) m) \<le> 64) \<and>
     (\<forall>m. size_of (cd_encode (px_ip_msg px) m) \<le> 2 * length (ip_addr m) + 64) \<and>
     (\<forall>m. size_of (cd_encode (px_request_csr_envelope px) m) \<le>
        2 * (length (rc_ip_addr m) + length (rc_job_uuid m) + length (rc_root_ca_pem m)) + 64) \<and>
     (\<forall>m. size_of (cd_encode (px_csr_envelope px) m) \<le> 2 * length (csr_pem m) + 64) \<and>
     (\<forall>m. size_of (cd_encode (px_signed_cert_envelope px) m) \<le> 2 * length (signed_cert_pem m) + 64) \<and>
     (\<forall>m. size_of (cd_encode (px_ack px) m) \<le> 2 * length (ack_error_message m) + 64) \<and>
     (\<forall>m. size_of (cd_encode (px_hello px) m) \<le> 2 * length (hello_msg m) + 64) \<and>
     (\<forall>m. size_of (cd_encode (px_file_chunk px) m) \<le> length (fc_data m) + 2 * length (fc_filename m) + 64) \<and>
     (\<forall>m. size_of (cd_encode (px_analysis_request px) m) \<le> 2 * length (arq_sample_name m) + 64) \<and>
     (\<forall>t d. size_of (cd_encode (px_event px) \<lparr>ev_timestamp = t, ev_kind = Some (Done d)\<rparr>) \<le>
        2 * length (acd_features_json d) + 64)"

definition short :: "string \<Rightarrow> bool" where
  "short t \<longleftrightarrow> length t \<le> 512 * 1024"

definition small_keys :: "('k, 'c, 'q) rcgen \<Rightarrow> bool" where
  "small_keys rc \<longleftrightarrow> (\<forall>c. short (rg_pem rc c)) \<and> (\<forall>p k t. rg_request rc p k = Ok t \<longrightarrow> short t)"

text \<open>The hypotheses on the transport and on what is sent over it.\<close>

definition small_job ::
    "('b \<Rightarrow> nat) \<Rightarrow> 'b prost \<Rightarrow> ip_addr option \<Rightarrow> 'h run_env \<Rightarrow> (guest, 's, 'k, 'c, 'q) job_env \<Rightarrow> bool" where
  "small_job size_of px addr renv env \<longleftrightarrow> encoded_within size_of px \<and> small_keys (je_rcgen env) \<and>
     (\<forall>a. addr = Some a \<longrightarrow> short (show_ip a)) \<and>
     (\<forall>k ip. Some ip \<in> set (ve_leases (je_vm env) k) \<longrightarrow> short ip) \<and>
     (\<forall>os cfg a t. agent_run renv os cfg = Ok a \<longrightarrow> size_of (cd_encode (px_event px) \<lparr>ev_timestamp = t, ev_kind = Some (Done
        \<lparr>acd_exit_code = agr_exit_code a, acd_runtime_ms = agr_runtime_ms a, acd_features_json = agr_features_json a\<rparr>)\<rparr>)
          \<le> 4 * 1024 * 1024)"

section \<open>The calls of a job\<close>

lemma boot_paths:
  "boot_channel tn px a rc k ''/malbox.Bootstrap/WhoAmI'' = tn_serve tn (server_settings (server_new (guest_bootstrap a rc k)))
     (unary_service (px_who px) (px_ip_msg px) (\<lambda>_. on_boot (who_am_i a)))"
  "boot_channel tn px a rc k ''/malbox.Bootstrap/RequestCsr'' = tn_serve tn (server_settings (server_new (guest_bootstrap a rc k)))
     (unary_service (px_request_csr_envelope px) (px_csr_envelope px) (\<lambda>q. on_boot (request_csr rc k q)))"
  "boot_channel tn px a rc k ''/malbox.Bootstrap/SwitchConnection'' =
     tn_serve tn (server_settings (server_new (guest_bootstrap a rc k)))
     (unary_service (px_signed_cert_envelope px) (px_ack px) (\<lambda>e. on_boot (switch_connection e)))"
  by (simp_all add: fun_eq_iff boot_channel_def bootstrap_server_call_def who_am_i_svc_def request_csr_svc_def
      switch_connection_svc_def server_new_def server_from_arc_def guest_bootstrap_def)

lemma mtls_paths:
  "mtls_channel tn px fe renv now ''/malbox.Agent/HelloSvc'' = tn_serve tn (server_settings (server_new (guest_agent fe renv now)))
     (unary_service (px_hello px) (px_hello px) (\<lambda>m g. (g, hello_svc m)))"
  "mtls_channel tn px fe renv now ''/malbox.Agent/UploadSample'' = tn_serve tn (server_settings (server_new (guest_agent fe renv now)))
     (client_streaming_service (px_file_chunk px) (px_ack px) (\<lambda>ms. on_files (upload_sample fe ms)))"
  "mtls_channel tn px fe renv now ''/malbox.Agent/Analyze'' = tn_serve tn (server_settings (server_new (guest_agent fe renv now)))
     (server_streaming_service (px_analysis_request px) (px_event px) (\<lambda>m g. (g, analyze (agent_run renv (gu_os g)) now m)))"
  by (simp_all add: fun_eq_iff mtls_channel_def agent_server_call_def hello_svc_svc_def upload_sample_svc_def
      analyze_svc_def agent_new server_new_def server_from_arc_def guest_agent_def)

lemma encoded_bounds:
  assumes "encoded_within size_of px"
  shows "size_of (cd_encode (px_who px) w) \<le> 64"
    and "size_of (cd_encode (px_ip_msg px) i) \<le> 2 * length (ip_addr i) + 64"
    and "size_of (cd_encode (px_request_csr_envelope px) q) \<le>
      2 * (length (rc_ip_addr q) + length (rc_job_uuid q) + length (rc_root_ca_pem q)) + 64"
    and "size_of (cd_encode (px_csr_envelope px) c) \<le> 2 * length (csr_pem c) + 64"
    and "size_of (cd_encode (px_signed_cert_envelope px) e) \<le> 2 * length (signed_cert_pem e) + 64"
    and "size_of (cd_encode (px_ack px) a) \<le> 2 * length (ack_error_message a) + 64"
    and "size_of (cd_encode (px_hello px) h) \<le> 2 * length (hello_msg h) + 64"
    and "size_of (cd_encode (px_file_chunk px) f) \<le> length (fc_data f) + 2 * length (fc_filename f) + 64"
    and "size_of (cd_encode (px_analysis_request px) r) \<le> 2 * length (arq_sample_name r) + 64"
    and "size_of (cd_encode (px_event px) \<lparr>ev_timestamp = t, ev_kind = Some (Done d)\<rparr>) \<le> 2 * length (acd_features_json d) + 64"
  using assms by (simp_all add: encoded_within_def)

lemma boot_calls:
  assumes docs: "tonic_docs tn size_of" "tn_ready tn = None" "prost_ok px"
    and small: "encoded_within size_of px" "small_keys rc" "\<And>a. addr = Some a \<Longrightarrow> short (show_ip a)"
  shows "client_who_am_i tn px client_new (boot_channel tn px addr rc key) Who g = on_boot (who_am_i addr) g"
    and "short (rc_ip_addr q) \<Longrightarrow> short (rc_job_uuid q) \<Longrightarrow> short (rc_root_ca_pem q) \<Longrightarrow>
      client_request_csr tn px client_new (boot_channel tn px addr rc key) q g = on_boot (request_csr rc key q) g"
    and "short (signed_cert_pem e) \<Longrightarrow>
      client_switch_connection tn px client_new (boot_channel tn px addr rc key) e g = on_boot (switch_connection e) g"
proof -
  have ok: "codec_ok (px_who px)" "codec_ok (px_ip_msg px)" "codec_ok (px_request_csr_envelope px)"
    "codec_ok (px_csr_envelope px)" "codec_ok (px_signed_cert_envelope px)" "codec_ok (px_ack px)"
    using docs(3) by (simp_all add: prost_ok_def)
  note within = encoded_bounds [OF small(1)]
  note call = tonic_docs.unary_call [where ch = "boot_channel tn px addr rc key", OF docs(1)]
  show "client_who_am_i tn px client_new (boot_channel tn px addr rc key) Who g = on_boot (who_am_i addr) g"
    unfolding client_who_am_i_def when_ready_def docs(2) option.case
  proof (rule call [OF ok(1,2) boot_paths(1)])
    show "size_of (cd_encode (px_who px) Who) \<le> 4 * 1024 * 1024" using within(1) [of Who] by simp
    fix x assume "snd (on_boot (who_am_i addr) g) = Ok x"
    then have "short (ip_addr x)" using small(3) by (auto simp: who_am_i_def split: option.splits)
    then show "size_of (cd_encode (px_ip_msg px) x) \<le> 4 * 1024 * 1024" using within(2) [of x] by (simp add: short_def)
  qed
  show "client_request_csr tn px client_new (boot_channel tn px addr rc key) q g = on_boot (request_csr rc key q) g"
    if "short (rc_ip_addr q)" "short (rc_job_uuid q)" "short (rc_root_ca_pem q)"
    unfolding client_request_csr_def when_ready_def docs(2) option.case
  proof (rule call [OF ok(3,4) boot_paths(2)])
    show "size_of (cd_encode (px_request_csr_envelope px) q) \<le> 4 * 1024 * 1024"
      using within(3) [of q] that by (simp add: short_def)
    fix x assume "snd (on_boot (request_csr rc key q) g) = Ok x"
    then have "short (csr_pem x)" using small(2)
      by (auto simp: request_csr_def generate_csr_def Let_def small_keys_def bind_res_Ok_iff split: option.splits res.splits)
    then show "size_of (cd_encode (px_csr_envelope px) x) \<le> 4 * 1024 * 1024" using within(4) [of x] by (simp add: short_def)
  qed
  show "client_switch_connection tn px client_new (boot_channel tn px addr rc key) e g = on_boot (switch_connection e) g"
    if "short (signed_cert_pem e)"
    unfolding client_switch_connection_def when_ready_def docs(2) option.case
  proof (rule call [OF ok(5,6) boot_paths(3)])
    show "size_of (cd_encode (px_signed_cert_envelope px) e) \<le> 4 * 1024 * 1024"
      using within(5) [of e] that by (simp add: short_def)
    fix x assume "snd (on_boot (switch_connection e) g) = Ok x"
    then have "ack_error_message x = []" by (auto simp: switch_connection_def Let_def split: if_splits)
    then show "size_of (cd_encode (px_ack px) x) \<le> 4 * 1024 * 1024" using within(6) [of x] by simp
  qed
qed

lemma mtls_calls:
  assumes docs: "tonic_docs tn size_of" "tn_ready tn = None" "prost_ok px" and small: "encoded_within size_of px"
  shows "client_hello_svc tn px agent_client_new (mtls_channel tn px fe renv now) \<lparr>hello_msg = ''controller''\<rparr> g =
      (g, hello_svc \<lparr>hello_msg = ''controller''\<rparr>)"
    and "(\<And>c. c \<in> set cs \<Longrightarrow> length (fc_data c) \<le> CHUNK \<and> short (fc_filename c)) \<Longrightarrow>
      client_upload_sample tn px agent_client_new (mtls_channel tn px fe renv now) (map Ok cs) g =
        on_files (upload_sample fe (map Ok cs)) g"
    and "short (arq_sample_name req) \<Longrightarrow> (\<And>xs x. analyze (agent_run renv (gu_os g)) now req = Ok xs \<Longrightarrow> Ok x \<in> set xs \<Longrightarrow>
        size_of (cd_encode (px_event px) x) \<le> 4 * 1024 * 1024) \<Longrightarrow>
      client_analyze tn px agent_client_new (mtls_channel tn px fe renv now) req g =
        (g, analyze (agent_run renv (gu_os g)) now req)"
proof -
  let ?ch = "mtls_channel tn px fe renv now"
  have ok: "codec_ok (px_hello px)" "codec_ok (px_file_chunk px)" "codec_ok (px_ack px)"
    "codec_ok (px_analysis_request px)" "codec_ok (px_event px)"
    using docs(3) by (simp_all add: prost_ok_def)
  note within = encoded_bounds [OF small]
  show "client_hello_svc tn px agent_client_new ?ch \<lparr>hello_msg = ''controller''\<rparr> g = (g, hello_svc \<lparr>hello_msg = ''controller''\<rparr>)"
    unfolding client_hello_svc_def when_ready_def docs(2) option.case agent_new
    by (rule tonic_docs.unary_call [where ch = ?ch, OF docs(1) ok(1,1) mtls_paths(1)])
      (use within(7) [of "\<lparr>hello_msg = ''controller''\<rparr>"] within(7) [of "\<lparr>hello_msg = ''agent''\<rparr>"] in \<open>auto simp: hello_svc_def\<close>)
  show "client_upload_sample tn px agent_client_new ?ch (map Ok cs) g = on_files (upload_sample fe (map Ok cs)) g"
    if cs: "\<And>c. c \<in> set cs \<Longrightarrow> length (fc_data c) \<le> CHUNK \<and> short (fc_filename c)"
    unfolding client_upload_sample_def when_ready_def docs(2) option.case agent_new
  proof (rule tonic_docs.client_stream_call [where ch = ?ch, OF docs(1) ok(2,3) mtls_paths(2)])
    fix m assume "Ok m \<in> set (map Ok cs :: (string, file_chunk) res list)"
    then show "size_of (cd_encode (px_file_chunk px) m) \<le> 4 * 1024 * 1024"
      using cs [of m] within(8) [of m] by (auto simp: CHUNK_def short_def)
  next
    fix x assume "snd (on_files (upload_sample fe (map Ok cs)) g) = Ok x"
    then show "size_of (cd_encode (px_ack px) x) \<le> 4 * 1024 * 1024"
      using upload_ack [of fe "map Ok cs" "os_files (gu_os g)" x] within(6) [of x] by simp
  qed
  show "client_analyze tn px agent_client_new ?ch req g = (g, analyze (agent_run renv (gu_os g)) now req)"
    if name: "short (arq_sample_name req)" and ev: "\<And>xs x. analyze (agent_run renv (gu_os g)) now req = Ok xs \<Longrightarrow>
      Ok x \<in> set xs \<Longrightarrow> size_of (cd_encode (px_event px) x) \<le> 4 * 1024 * 1024"
    unfolding client_analyze_def when_ready_def docs(2) option.case agent_new
    by (rule tonic_docs.server_stream_call [where ch = ?ch, OF docs(1) ok(4,5) mtls_paths(3)])
      (use name ev within(9) [of req] in \<open>auto simp: short_def\<close>)
qed

section \<open>The stages of a job\<close>

text \<open>Over the wire or not, the fields that do not concern the agent are those of \<open>env\<close>.\<close>

lemma wire_fields:
  "je_others (wire_attach tn px g0 addr key fe renv now env) = je_others env"
  "create_machine (wire_attach tn px g0 addr key fe renv now env) = create_machine env"
  "remove_machine (wire_attach tn px g0 addr key fe renv now env) = remove_machine env"
  "check_wanted (wire_attach tn px g0 addr key fe renv now env) = check_wanted env"
  "je_others (attach addr key fe renv now env) = je_others env"
  "create_machine (attach addr key fe renv now env) = create_machine env"
  "remove_machine (attach addr key fe renv now env) = remove_machine env"
  "check_wanted (attach addr key fe renv now env) = check_wanted env"
  by (simp_all add: fun_eq_iff wire_attach_def attach_def create_machine_def remove_machine_def check_wanted_def Let_def bind_job_def)

lemma wire_stages:
  assumes docs: "tonic_docs tn size_of" "tn_ready tn = None" "prost_ok px" and small: "small_job size_of px addr renv env"
    and sample: "byte_reader (je_read env) pending fin invar" "invar (je_sample env)" "\<And>k. je_live env k"
  shows "short jid \<Longrightarrow> short (jd_ip_addr jd) \<Longrightarrow> bootstrap_agent (wire_attach tn px g0 addr key fe renv now env) jid jd =
      bootstrap_agent (attach addr key fe renv now env) jid jd"
    and "connect_agent (wire_attach tn px g0 addr key fe renv now env) = connect_agent (attach addr key fe renv now env)"
    and "short name \<Longrightarrow> send_sample (wire_attach tn px g0 addr key fe renv now env) name =
      send_sample (attach addr key fe renv now env) name"
    and "short name \<Longrightarrow> await_analysis (wire_attach tn px g0 addr key fe renv now env) jd timeout name =
      await_analysis (attach addr key fe renv now env) jd timeout name"
proof -
  have px: "encoded_within size_of px" and keys: "small_keys (je_rcgen env)" and addr: "\<And>a. addr = Some a \<Longrightarrow> short (show_ip a)"
    using small by (simp_all add: small_job_def)
  have pem: "\<And>c. short (rg_pem (je_rcgen env) c)" using keys by (simp add: small_keys_def)
  note boot = boot_calls [OF docs px keys addr] and agent = mtls_calls [OF docs px]
  show "bootstrap_agent (wire_attach tn px g0 addr key fe renv now env) jid jd =
      bootstrap_agent (attach addr key fe renv now env) jid jd" if "short jid" "short (jd_ip_addr jd)"
    using that by (simp add: fun_eq_iff bootstrap_agent_def wire_attach_def attach_def Let_def bootstrap_mtls_def exchange_def boot pem
        cong: option.case_cong)
  show "connect_agent (wire_attach tn px g0 addr key fe renv now env) = connect_agent (attach addr key fe renv now env)"
    by (simp add: fun_eq_iff connect_agent_def connect_mtls_def wire_attach_def attach_def Let_def agent(1) cong: option.case_cong)
  show "send_sample (wire_attach tn px g0 addr key fe renv now env) name = send_sample (attach addr key fe renv now env) name"
    if name: "short name"
  proof -
    obtain cs where cs: "chunk_loop (je_read env) (je_live env) name (je_sample env) True 0 = Some cs"
      "\<forall>c \<in> set cs. fc_data c \<noteq> [] \<and> length (fc_data c) \<le> CHUNK"
      using byte_reader.chunk_loop_all [where live = "je_live env" and name = name and first = True and k = 0, OF sample]
      by blast
    have "length (fc_data c) \<le> CHUNK \<and> short (fc_filename c)" if "c \<in> set cs" for c
      using cs(2) chunk_names [OF cs(1)] that name unfolding short_def by (meson order_trans)
    then have "client_upload_sample tn px agent_client_new (mtls_channel tn px fe renv now) (map Ok cs) =
        on_files (upload_sample fe (map Ok cs))"
      by (intro ext agent(2))
    then show ?thesis
      by (simp add: fun_eq_iff send_sample_def upload_sample_client_def wire_attach_def attach_def Let_def cs(1)
          split: option.splits)
  qed
  have lost: "size_of (cd_encode (px_event px) \<lparr>ev_timestamp = now, ev_kind = Some (Done
      \<lparr>acd_exit_code = 1, acd_runtime_ms = 0, acd_features_json = []\<rparr>)\<rparr>) \<le> 4 * 1024 * 1024"
    using encoded_bounds(10) [OF px, of now "\<lparr>acd_exit_code = 1, acd_runtime_ms = 0, acd_features_json = []\<rparr>"] by simp
  have made: "size_of (cd_encode (px_event px) \<lparr>ev_timestamp = now, ev_kind = Some (Done
      \<lparr>acd_exit_code = agr_exit_code a, acd_runtime_ms = agr_runtime_ms a, acd_features_json = agr_features_json a\<rparr>)\<rparr>)
      \<le> 4 * 1024 * 1024" if "agent_run renv os cfg = Ok a" for os cfg a
    using small that unfolding small_job_def by blast
  have done_event: "size_of (cd_encode (px_event px) x) \<le> 4 * 1024 * 1024"
    if xs: "analyze (agent_run renv (gu_os g)) now req = Ok xs" "Ok x \<in> set xs" for g req xs x
  proof -
    obtain cfg where "xs = analyze_events (agent_run renv (gu_os g) cfg) now"
      using xs(1) by (auto simp: analyze_def bind_res_Ok_iff)
    then show ?thesis using xs(2) lost made [of "gu_os g" cfg]
      by (cases "agent_run renv (gu_os g) cfg") (simp_all add: analyze_events_def)
  qed
  show "await_analysis (wire_attach tn px g0 addr key fe renv now env) jd timeout name =
      await_analysis (attach addr key fe renv now env) jd timeout name" if name: "short name"
  proof -
    have "client_analyze tn px agent_client_new (mtls_channel tn px fe renv now)
        \<lparr>arq_timeout_secs = timeout, arq_sample_name = name\<rparr> g =
      (g, analyze (agent_run renv (gu_os g)) now \<lparr>arq_timeout_secs = timeout, arq_sample_name = name\<rparr>)" for g
      by (rule agent(3)) (use name done_event in simp_all)
    then have "run_analysis_client (je_analyze (wire_attach tn px g0 addr key fe renv now env) g) timeout name =
        run_analysis_client (je_analyze (attach addr key fe renv now env) g) timeout name" for g
      by (simp add: run_analysis_client_def wire_attach_def attach_def Let_def)
    then show ?thesis by (simp only: fun_eq_iff await_analysis_def wire_fields simp_thms)
  qed
qed

lemma created_address:
  assumes "create_job_domain cfg env h = Some (h', Ok jd)"
  shows "\<exists>k. Some (jd_ip_addr jd) \<in> set (ve_leases env k)"
  using create_started [OF create_Ok_started [OF assms]] assms
proof (cases rule: await_network_cases [of cfg env "started_host cfg env h"])
  case (1 ip)
  from wait_loop_found [OF _ 1(2) [unfolded wait_for_ip_from_mac_def]] obtain k where
    "get_ip_from_mac (generate_mac (ve_mac_suffix env)) (ve_leases env k) = Some ip" by auto
  then have "Some ip \<in> set (ve_leases env k)" by (auto simp: get_ip_from_mac_def split: list.splits if_splits)
  with 1(1) create_started [OF create_Ok_started [OF assms]] assms show ?thesis by auto
qed simp_all

lemma bind_job_cong:
  assumes "m w = m' w" and "\<And>x w'. m' w = Some (w', Ok x) \<Longrightarrow> f x w' = f' x w'"
  shows "bind_job m f w = bind_job m' f' w"
  using assms by (auto simp: bind_job_def split: option.splits res.splits)

section \<open>Properties\<close>

text \<open>C11: A job over the wire is the job against the handlers: with the generated clients and servers in between, the task
  does to the table of jobs, to the host and to the guest exactly what it does when it calls the agent's handlers,
  with the same result or error, for every behaviour of the machine, the sample and the other users of the table.
  The hypotheses bound what is sent: identifiers, names, addresses and PEM texts up to 512 KB, and a report whose
  last message is within the limit of 4 MB; that the limit matters for the report is \<open>large_report_lost\<close>.\<close>

theorem job_over_wire:
  assumes "tonic_docs tn size_of" and "tn_ready tn = None" and "prost_ok px" and "small_job size_of px addr renv env"
    and "byte_reader (je_read env) pending fin invar" and "invar (je_sample env)" and "\<And>k. je_live env k"
    and "short jid" and "short name"
  shows "run_job (wire_attach tn px g0 addr key fe renv now env) jid name timeout w =
     run_job (attach addr key fe renv now env) jid name timeout w"
proof -
  note stages = wire_stages [OF assms(1-7)] and fields = wire_fields
  have machine: "with_machine (wire_attach tn px g0 addr key fe renv now env) jid name timeout jd =
      with_machine (attach addr key fe renv now env) jid name timeout jd" if "short (jd_ip_addr jd)" for jd
    using that assms(8,9) by (simp add: with_machine_def fields stages)
  have "run_job_inner (wire_attach tn px g0 addr key fe renv now env) jid name timeout w =
      run_job_inner (attach addr key fe renv now env) jid name timeout w"
    unfolding run_job_inner_def fields
  proof (intro bind_job_cong refl)
    fix u :: unit and jd and w1 w2 :: "guest world"
    assume "at_pc (je_others env) PCreateVm (context_job ''failed to create VM'' (create_machine env)) w1 = Some (w2, Ok jd)"
    then obtain h h' where "create_job_domain (je_paths env) (je_vm env) h = Some (h', Ok jd)"
      by (auto simp: at_pc_def context_job_def create_machine_def)
    then have "short (jd_ip_addr jd)" using created_address assms(4) unfolding small_job_def by blast
    then show "with_machine (wire_attach tn px g0 addr key fe renv now env) jid name timeout jd w2 =
        with_machine (attach addr key fe renv now env) jid name timeout jd w2"
      by (simp add: machine)
  qed
  then show ?thesis unfolding run_job_def fields by simp
qed

text \<open>The report of a successful analysis is what \<open>serde_json\<close> printed.\<close>

lemma report_text:
  assumes "agent_run env os cfg = Ok a"
  shows "\<exists>v. re_to_string env v = Ok (agr_features_json a)"
proof -
  obtain s where run: "run_analysis env cfg os = Some (s, Ok a)"
    using assms by (auto simp: agent_run_def split: option.splits)
  obtain s1 st where start: "start_sample env cfg (fresh_run os) = (s1, Ok st)" by (rule analysis_ok [OF run])
  obtain p os' where "finish env cfg st (sample_ran env p os' s1) = (s, Ok a)" by (rule analysis_split [OF run start])
  then obtain report where "report_to_json (re_to_string env) report = Ok (agr_features_json a)" by (rule finish_ok)
  then show ?thesis by (auto simp: report_to_json_def)
qed

lemma example_small: "small_job wire_size wire_prost (Some (V4 192 168 122 1)) example_run_env example_base"
proof -
  have "show_ip (V4 192 168 122 1) = ''192.168.122.1''" by code_simp
  then have addr: "short (show_ip (V4 192 168 122 1))" by (simp add: short_def)
  have px: "encoded_within wire_size wire_prost" by (simp add: encoded_within_def wire_prost_def wire_codec_def)
  have keys: "small_keys (je_rcgen example_base)"
    by (simp add: small_keys_def short_def example_base_def null_rcgen_def)
  have lease: "short ip" if "Some ip \<in> set (ve_leases (je_vm example_base) k)" for k ip
    using that by (simp add: example_base_def example_env_def short_def split: if_splits)
  have "agr_features_json a = ''{}''" if "agent_run example_run_env os cfg = Ok a" for os cfg a
    using report_text [OF that] by (simp add: example_run_env_def)
  then show ?thesis using addr px keys lease unfolding small_job_def by (simp add: wire_encode)
qed

theorem job_over_wire_witness:
  "\<exists>w'. run_job (wire_attach (model_tonic wire_size :: (wire, unit, guest) tonic) wire_prost example_guest
      (Some (V4 192 168 122 1)) (Ok ()) good_fs example_run_env 0 example_base) ''j'' ''a.exe'' 300
      (example_world example_guest) = Some (w', Ok None)"
proof -
  have rd: "byte_reader (je_read example_base) queue_bytes (pipe_fin pq_code) queue_valid"
    and s: "queue_valid (je_sample example_base)" "\<And>k. je_live example_base k"
    using win_pipe.pipe.byte_reader_axioms short_sample(1) by (simp_all add: example_base_def)
  have names: "short ''j''" "short ''a.exe''" by (simp_all add: short_def)
  show ?thesis
    unfolding job_over_wire [OF model.tonic_docs_axioms model_ready wire_prost_ok example_small rd s names]
    by (rule example_job_completes)
qed

end
