(* ===== verification/Json_Text.thy ===== *)
theory Json_Text
  imports Report_Json
begin

text \<open>
  A printer and a parser of JSON values that meet what \<open>Report_Json\<close> asks of \<open>serde_json\<close>: what is printed is
  parsed back. They are not JSON's grammar, which no property depends on, but a prefix code that is easy to
  evaluate; the witnesses use them where a theorem is about any such pair.
\<close>

definition print_nat :: "nat \<Rightarrow> string" where
  "print_nat n = replicate n (CHR ''1'') @ ''.''"

definition print_string :: "string \<Rightarrow> string" where
  "print_string s = print_nat (length s) @ s"

fun print_json :: "json \<Rightarrow> string" where
  "print_json JNull = ''z''"
| "print_json (JBool b) = (if b then ''t'' else ''f'')"
| "print_json (JNumber i) = (if i < 0 then ''-'' else ''+'') @ print_nat (nat \<bar>i\<bar>)"
| "print_json (JString s) = CHR ''s'' # print_string s"
| "print_json (JArray vs) = ''['' @ concat (map print_json vs) @ '']''"
| "print_json (JObject fs) = ''{'' @ concat (map (\<lambda>(k, v). print_string k @ print_json v) fs) @ ''}''"

fun scan_nat :: "nat \<Rightarrow> string \<Rightarrow> (nat \<times> string) option" where
  "scan_nat n [] = None"
| "scan_nat n (c # cs) = (if c = CHR ''1'' then scan_nat (Suc n) cs else if c = CHR ''.'' then Some (n, cs) else None)"

definition scan_string :: "string \<Rightarrow> (string \<times> string) option" where
  "scan_string cs = map_option (\<lambda>(n, r). (take n r, drop n r)) (scan_nat 0 cs)"

text \<open>The first argument bounds the depth of the recursion; \<open>parse_json\<close> takes the length of the text.\<close>

fun scan_json :: "nat \<Rightarrow> string \<Rightarrow> (json \<times> string) option"
  and scan_items :: "nat \<Rightarrow> string \<Rightarrow> (json list \<times> string) option"
  and scan_fields :: "nat \<Rightarrow> string \<Rightarrow> ((string \<times> json) list \<times> string) option" where
  "scan_json 0 cs = None"
| "scan_json (Suc k) [] = None"
| "scan_json (Suc k) (c # r) =
     (if c = CHR ''z'' then Some (JNull, r)
      else if c = CHR ''t'' then Some (JBool True, r)
      else if c = CHR ''f'' then Some (JBool False, r)
      else if c = CHR ''+'' then map_option (\<lambda>(n, r). (JNumber (int n), r)) (scan_nat 0 r)
      else if c = CHR ''-'' then map_option (\<lambda>(n, r). (JNumber (- int n), r)) (scan_nat 0 r)
      else if c = CHR ''s'' then map_option (\<lambda>(s, r). (JString s, r)) (scan_string r)
      else if c = CHR ''['' then map_option (\<lambda>(vs, r). (JArray vs, r)) (scan_items k r)
      else if c = CHR ''{'' then map_option (\<lambda>(fs, r). (JObject fs, r)) (scan_fields k r)
      else None)"
| "scan_items 0 cs = None"
| "scan_items (Suc k) cs =
     (if cs \<noteq> [] \<and> hd cs = CHR '']'' then Some ([], tl cs)
      else Option.bind (scan_json k cs) (\<lambda>(v, r). map_option (\<lambda>(vs, r). (v # vs, r)) (scan_items k r)))"
| "scan_fields 0 cs = None"
| "scan_fields (Suc k) cs =
     (if cs \<noteq> [] \<and> hd cs = CHR ''}'' then Some ([], tl cs)
      else Option.bind (scan_string cs) (\<lambda>(f, r). Option.bind (scan_json k r) (\<lambda>(v, r).
        map_option (\<lambda>(fs, r). ((f, v) # fs, r)) (scan_fields k r))))"

definition parse_json :: "string \<Rightarrow> json option" where
  "parse_json text = (case scan_json (length text) text of Some (v, []) \<Rightarrow> Some v | _ \<Rightarrow> None)"

lemma scan_print_nat: "scan_nat n (print_nat m @ r) = Some (n + m, r)"
  by (induction m arbitrary: n) (simp_all add: print_nat_def)

lemma scan_print_string: "scan_string (print_string s @ r) = Some (s, r)"
  by (simp add: scan_string_def print_string_def scan_print_nat)

lemma print_starts:
  "print_json v \<noteq> []" "hd (print_json v) \<noteq> CHR '']''" "hd (print_string s) \<noteq> CHR ''}''" "print_string s \<noteq> []"
     apply (cases v; simp)
    apply (cases v; simp)
   apply (cases s; simp add: print_string_def print_nat_def)
  apply (simp add: print_string_def print_nat_def)
  done

lemma scan_print: "length (print_json v) \<le> k \<Longrightarrow> scan_json k (print_json v @ r) = Some (v, r)"
proof (induction v arbitrary: k r)
  case (JArray vs)
  have items: "length (concat (map print_json us)) < j \<Longrightarrow>
      scan_items j (concat (map print_json us) @ CHR '']'' # r) = Some (us, r)" if "set us \<subseteq> set vs" for us j
    using that
  proof (induction us arbitrary: j)
    case Nil
    then show ?case by (cases j) simp_all
  next
    case (Cons u us)
    then obtain i where j: "j = Suc i" "length (print_json u) \<le> i" by (cases j) auto
    have "0 < length (print_json u)" using print_starts(1) [of u] by blast
    then have "length (concat (map print_json us)) < i" using Cons.prems(1) j(1) by (simp del: length_greater_0_conv)
    with Cons j JArray.IH [of u i] show ?case by (simp add: print_starts)
  qed
  obtain i where "k = Suc i" using JArray.prems by (cases k) simp_all
  then show ?case using items [of vs i] JArray.prems by simp
next
  case (JObject fs)
  have fields: "length (concat (map (\<lambda>(f, v). print_string f @ print_json v) us)) < j \<Longrightarrow>
      scan_fields j (concat (map (\<lambda>(f, v). print_string f @ print_json v) us) @ CHR ''}'' # r) = Some (us, r)"
    if "set us \<subseteq> set fs" for us j
    using that
  proof (induction us arbitrary: j)
    case Nil
    then show ?case by (cases j) simp_all
  next
    case (Cons u us)
    obtain f v where u: "u = (f, v)" by (cases u)
    obtain i where j: "j = Suc i" "length (print_json v) \<le> i" using Cons.prems(1) u by (cases j) auto
    have "0 < length (print_json v)" using print_starts(1) [of v] by blast
    then have "length (concat (map (\<lambda>(f, v). print_string f @ print_json v) us)) < i" using Cons.prems(1) j(1) u
      by (simp del: length_greater_0_conv)
    moreover have "(f, v) \<in> set fs" using Cons.prems(2) u by simp
    ultimately show ?case using Cons.IH [of i] Cons.prems(2) j JObject.IH [of "(f, v)" v i]
      by (simp add: u print_starts scan_print_string)
  qed
  obtain i where "k = Suc i" using JObject.prems by (cases k) simp_all
  then show ?case using fields [of fs i] JObject.prems by simp
next
  case (JNumber i)
  obtain j where "k = Suc j" using JNumber.prems by (cases k) (simp_all split: if_splits)
  then show ?case by (simp add: scan_print_nat)
next
  case (JString s)
  obtain j where "k = Suc j" using JString.prems by (cases k) simp_all
  then show ?case by (simp add: scan_print_string)
next
  case (JBool b)
  then show ?case by (cases k) (simp_all split: if_splits)
next
  case JNull
  then show ?case by (cases k) simp_all
qed

lemma parse_print: "parse_json (print_json v) = Some v"
  using scan_print [of v "length (print_json v)" "[]"] by (simp add: parse_json_def)

section \<open>Properties\<close>

text \<open>C38: The JSON of a report loses nothing: when the printer of \<open>serde_json\<close> writes text that its parser reads back,
  two reports with the same text are equal, the number of a 64-bit field included, and a reader that parses the
  text finds the processes under \<open>behavior.processes\<close>, the file type under the renamed field \<open>type\<close> and the
  payloads under \<open>CAPE\<close>.\<close>

theorem report_json_faithful:
  assumes "\<And>v text. to_string v = Ok text \<Longrightarrow> parse text = Some v" and "report_to_json to_string r = Ok text"
  shows "(\<forall>q. report_to_json to_string q = Ok text \<longrightarrow> q = r) \<and>
     (\<exists>v. parse text = Some v \<and>
        json_at [''behavior'', ''processes''] v = Some (JArray (map process_value (bh_processes (rp_behavior r)))) \<and>
        json_at [''target'', ''file'', ''type''] v = Some (JString (tf_r_type (tg_file (rp_target r)))) \<and>
        json_at [''CAPE'', ''payloads''] v = Some (JArray (map payload_value (cp_payloads (rp_cape r)))))"
proof -
  have v: "parse text = Some (report_value q)" if "report_to_json to_string q = Ok text" for q
    using assms(1) that by (simp add: report_to_json_def)
  with assms(2) have "q = r" if "report_to_json to_string q = Ok text" for q
    using that by (metis option.inject report_value_eq)
  with v [OF assms(2)] report_paths [of r] show ?thesis by blast
qed

text \<open>A report of one process with one call, whose return value is negative.\<close>

definition example_report :: "json report" where
  "example_report = \<lparr>rp_target = \<lparr>tg_file = \<lparr>tf_name = ''a.exe'', tf_size = 3, tf_r_type = ''unknown'', tf_cape_type_code = 0\<rparr>,
       tg_category = ''file''\<rparr>,
     rp_behavior = \<lparr>bh_processes = [\<lparr>pe_process_id = 7, pe_parent_id = 0, pe_process_name = ''a.exe'', pe_threads = [100],
         pe_calls = [\<lparr>ce_api = ''NtClose'', ce_category = ''system'', ce_status = ''FAILURE'', ce_return_value = - 1,
           ce_thread_id = 100, ce_time = 5, ce_arguments = [\<lparr>ag_name = ''Handle'', ag_value = ''0x4''\<rparr>]\<rparr>]\<rparr>],
       bh_processtree = [TreeNode 7 ''a.exe'' []],
       bh_summary = \<lparr>sm_files = [], sm_read_files = [], sm_write_files = [], sm_delete_files = []\<rparr>,
       bh_enhanced = [], bh_anomaly = [], bh_encryptedbuffers = []\<rparr>,
     rp_dropped = [], rp_signatures = [], rp_cape = \<lparr>cp_payloads = []\<rparr>\<rparr>"

theorem report_json_faithful_witness:
  "\<exists>v. parse_json (print_json (report_value example_report)) = Some v \<and>
     json_at [''target'', ''file'', ''type''] v = Some (JString ''unknown'') \<and> json_at [''CAPE'', ''payloads''] v = Some (JArray [])"
proof -
  have p: "\<And>v text. Ok (print_json v) = Ok text \<Longrightarrow> parse_json text = Some v" by (auto simp: parse_print)
  have "report_to_json (\<lambda>v. Ok (print_json v)) example_report = Ok (print_json (report_value example_report))"
    by (simp add: report_to_json_def)
  from report_json_faithful [where parse = parse_json, OF p this]
  have "\<exists>v. parse_json (print_json (report_value example_report)) = Some v \<and>
      json_at [''target'', ''file'', ''type''] v = Some (JString (tf_r_type (tg_file (rp_target example_report)))) \<and>
      json_at [''CAPE'', ''payloads''] v = Some (JArray (map payload_value (cp_payloads (rp_cape example_report))))" by blast
  then show ?thesis by (simp add: example_report_def)
qed

end
