(* ===== verification/Command_Pipe.thy ===== *)
theory Command_Pipe
  imports Pipe_Raw
begin

text \<open>
  \<open>crates/malbox-agent/src/pipes/command.rs\<close>: the thread that accepts the monitor's commands, the handler
  of one connection, and how the analysis stops the thread (\<open>do_run\<close>, \<open>nudge_server\<close> of \<open>pipes/raw.rs\<close> and the
  \<open>join\<close> in \<open>analysis.rs\<close>). The handles of its pipes are followed in \<open>Pipe_Handles\<close>.
\<close>

section \<open>Writing to a pipe\<close>

text \<open>\<open>std::io::Write::write_all\<close>; \<open>None\<close> if it never returns.\<close>

type_synonym 's write_fn = "'s \<Rightarrow> u8 list \<Rightarrow> (io_error, nat) res \<times> 's"

partial_function (option) write_all_loop ::
    "'s write_fn \<Rightarrow> 's \<Rightarrow> u8 list \<Rightarrow> ((io_error, unit) res \<times> 's) option" where
  "write_all_loop wr s data =
     (if data = [] then Some (Ok (), s)
      else case wr s data of (r, s') \<Rightarrow>
        (case r of
           Ok n \<Rightarrow>
             (if n = 0 then Some (Err WriteZero, s')
              else if length data < n then Some (Panic, s')
              else write_all_loop wr s' (drop n data))
         | Err e \<Rightarrow> (if is_interrupted e then write_all_loop wr s' data else Some (Err e, s'))
         | Panic \<Rightarrow> Some (Panic, s')))"

section \<open>One connection\<close>

datatype handler_end = Disconnected | HandlerPanicked

definition OK_reply :: "u8 list" where "OK_reply = [79, 75]"

text \<open>The messages that are printed are collected; they have no other effect.\<close>

partial_function (option) handle_command_connection ::
    "'s read_fn \<Rightarrow> 's write_fn \<Rightarrow> 's \<Rightarrow> u8 list list \<Rightarrow> (u8 list list \<times> handler_end \<times> 's) option" where
  "handle_command_connection rd wr s printed =
     (case rd s (unat BUFSIZE) of (r, s') \<Rightarrow>
       (case r of
          Ok bs \<Rightarrow>
            (if bs = [] then Some (printed, Disconnected, s')
             else if unat BUFSIZE < length bs then Some (printed, HandlerPanicked, s')
             else (case write_all_loop wr s' OK_reply of
                 None \<Rightarrow> None
               | Some p \<Rightarrow> handle_command_connection rd wr (snd p) (printed @ [bs])))
        | Err e \<Rightarrow> Some (printed, Disconnected, s')
        | Panic \<Rightarrow> Some (printed, HandlerPanicked, s')))"

text \<open>What the handler relies on: a reader, and writes that make progress or fail, do not disturb what is
  still to be read, and are all that adds to the bytes \<open>sent\<close>.\<close>

locale duplex_pipe = byte_reader rd pending fin invar
  for rd :: "'s read_fn" and pending fin invar +
  fixes wr :: "'s write_fn"
    and sent :: "'s \<Rightarrow> u8 list"
  assumes wr_progress: "invar s \<Longrightarrow> data \<noteq> [] \<Longrightarrow>
      (\<exists>n s'. wr s data = (Ok n, s') \<and> 0 < n \<and> n \<le> length data \<and> sent s' = sent s @ take n data \<and>
         pending s' = pending s \<and> fin s' = fin s \<and> invar s') \<or>
      (\<exists>e s'. wr s data = (Err e, s') \<and> \<not> is_interrupted e \<and> sent s' = sent s \<and>
         pending s' = pending s \<and> fin s' = fin s \<and> invar s')"
    and rd_sent: "rd s n = (r, s') \<Longrightarrow> sent s' = sent s"
begin

definition never_fails :: bool where "never_fails \<longleftrightarrow> (\<forall>s data e s'. wr s data \<noteq> (Err e, s'))"

lemma write_all_ends:
  assumes "invar s"
  shows "\<exists>r s' k. write_all_loop wr s data = Some (r, s') \<and> sent s' = sent s @ take k data \<and>
    (r = Ok () \<longrightarrow> sent s' = sent s @ data) \<and> (never_fails \<longrightarrow> r = Ok ()) \<and>
    pending s' = pending s \<and> fin s' = fin s \<and> invar s'"
  using assms
proof (induction "length data" arbitrary: s data rule: less_induct)
  case less
  show ?case
  proof (cases "data = []")
    case True
    then show ?thesis using less.prems by (simp add: write_all_loop.simps [of wr s "[]"])
  next
    case False
    from wr_progress [OF less.prems False] show ?thesis
    proof (elim disjE exE conjE)
      fix n s'
      assume w: "wr s data = (Ok n, s')" "0 < n" "n \<le> length data" "sent s' = sent s @ take n data"
        "pending s' = pending s" "fin s' = fin s" "invar s'"
      have "length (drop n data) < length data" using w(2) False by simp
      from less.hyps [OF this w(7)] obtain r s'' k where
        IH: "write_all_loop wr s' (drop n data) = Some (r, s'')" "sent s'' = sent s' @ take k (drop n data)"
          "r = Ok () \<longrightarrow> sent s'' = sent s' @ drop n data" "pending s'' = pending s'" "fin s'' = fin s'" "invar s''"
          "never_fails \<longrightarrow> r = Ok ()"
        by blast
      have "write_all_loop wr s data = Some (r, s'')"
        using False w(1-3) IH(1) by (simp add: write_all_loop.simps [of wr s data])
      moreover have "sent s'' = sent s @ take (n + k) data" using w(4) IH(2) by (simp add: take_add)
      moreover have "r = Ok () \<longrightarrow> sent s'' = sent s @ data" using w(4) IH(3) by (metis append.assoc append_take_drop_id)
      ultimately show ?thesis using IH(4-7) w(5,6) by metis
    next
      fix e s'
      assume w: "wr s data = (Err e, s')" "\<not> is_interrupted e" "sent s' = sent s"
        "pending s' = pending s" "fin s' = fin s" "invar s'"
      have "\<not> never_fails" using w(1) unfolding never_fails_def by blast
      moreover have "write_all_loop wr s data = Some (Err e, s')"
        using False w(1,2) by (simp add: write_all_loop.simps [of wr s data])
      moreover have "sent s' = sent s @ take 0 data" using w(3) by simp
      ultimately show ?thesis using w(4-6) by blast
    qed
  qed
qed

lemma handler_prints_all:
  assumes "invar s"
  shows "\<exists>ms s'. handle_command_connection rd wr s printed = Some (printed @ ms, Disconnected, s') \<and>
    concat ms = pending s \<and> [] \<notin> set ms \<and>
    (never_fails \<longrightarrow> sent s' = sent s @ concat (replicate (length ms) OK_reply))"
  using assms
proof (induction "length (pending s)" arbitrary: s printed rule: less_induct)
  case less
  have size: "0 < unat BUFSIZE" "unat BUFSIZE < 2 ^ 32" by (simp_all add: BUFSIZE_def)
  show ?case
  proof (cases "pending s = []")
    case True
    obtain s' where s': "rd s (unat BUFSIZE) = ((case fin s of None \<Rightarrow> Ok [] | Some e \<Rightarrow> Err e), s')"
      using rd_end [OF less.prems size True] by blast
    have "sent s' = sent s" by (rule rd_sent [OF s'])
    then show ?thesis using True s'
      by (auto simp: handle_command_connection.simps [of rd wr s] split: option.splits)
  next
    case False
    obtain bs s' where s': "rd s (unat BUFSIZE) = (Ok bs, s')" "bs \<noteq> []" "length bs \<le> unat BUFSIZE"
      "pending s = bs @ pending s'" "invar s'"
      using rd_data [OF less.prems size False] by blast
    have quiet: "sent s' = sent s" by (rule rd_sent [OF s'(1)])
    obtain r s'' where w: "write_all_loop wr s' OK_reply = Some (r, s'')" "pending s'' = pending s'" "invar s''"
      "never_fails \<longrightarrow> sent s'' = sent s' @ OK_reply"
      using write_all_ends [OF s'(5)] by blast
    have "length (pending s'') < length (pending s)" using s'(2,4) w(2) by simp
    from less.hyps [OF this w(3), of "printed @ [bs]"] obtain ms s3 where IH:
      "handle_command_connection rd wr s'' (printed @ [bs]) = Some ((printed @ [bs]) @ ms, Disconnected, s3)"
      "concat ms = pending s''" "[] \<notin> set ms"
      "never_fails \<longrightarrow> sent s3 = sent s'' @ concat (replicate (length ms) OK_reply)" by blast
    have "handle_command_connection rd wr s printed = Some (printed @ bs # ms, Disconnected, s3)"
      using s'(1-3) w(1) IH(1) by (simp add: handle_command_connection.simps [of rd wr s])
    moreover have "concat (bs # ms) = pending s" "[] \<notin> set (bs # ms)" using s'(2,4) w(2) IH(2,3) by simp_all
    moreover have "never_fails \<longrightarrow> sent s3 = sent s @ concat (replicate (length (bs # ms)) OK_reply)"
      using w(4) IH(4) quiet by simp
    ultimately show ?thesis by blast
  qed
qed

end

text \<open>What Win32 documents about \<open>WriteFile\<close> on a pipe gives the contract to the pipe of \<open>pipes/raw.rs\<close>.\<close>

locale win_pipe_io = win_read_file rf queued code valid
  for rf :: "'p read_file" and queued code valid +
  fixes wf :: "'p \<Rightarrow> u8 list \<Rightarrow> (u32, nat) res \<times> 'p"
    and replies :: "'p \<Rightarrow> u8 list"
  assumes wf_progress: "valid p \<Longrightarrow> data \<noteq> [] \<Longrightarrow>
      (\<exists>n p'. wf p data = (Ok n, p') \<and> 0 < n \<and> n \<le> length data \<and> replies p' = replies p @ take n data \<and>
         queued p' = queued p \<and> code p' = code p \<and> valid p') \<or>
      (\<exists>e p'. wf p data = (Err e, p') \<and> e \<noteq> 10004 \<and> replies p' = replies p \<and>
         queued p' = queued p \<and> code p' = code p \<and> valid p')"
    and rf_replies: "rf p n = (out, p') \<Longrightarrow> replies p' = replies p"

sublocale win_pipe_io \<subseteq> duplex: duplex_pipe "np_read rf" queued "pipe_fin code" valid "np_write wf" replies
proof
  fix p and data :: "u8 list"
  assume p: "valid p" "data \<noteq> []"
  have fin: "pipe_fin code p' = pipe_fin code p" if "code p' = code p" for p'
    using that by (simp add: pipe_fin_def)
  from wf_progress [OF p] show "(\<exists>n p'. np_write wf p data = (Ok n, p') \<and> 0 < n \<and> n \<le> length data \<and>
      replies p' = replies p @ take n data \<and> queued p' = queued p \<and> pipe_fin code p' = pipe_fin code p \<and> valid p') \<or>
    (\<exists>e p'. np_write wf p data = (Err e, p') \<and> \<not> is_interrupted e \<and> replies p' = replies p \<and>
      queued p' = queued p \<and> pipe_fin code p' = pipe_fin code p \<and> valid p')"
  proof (elim disjE exE conjE)
    fix n p'
    assume w: "wf p data = (Ok n, p')" "0 < n" "n \<le> length data" "replies p' = replies p @ take n data"
      "queued p' = queued p" "code p' = code p" "valid p'"
    then show ?thesis using fin [OF w(6)] by (intro disjI1 exI [of _ n] exI [of _ p']) (simp add: np_write_def)
  next
    fix e p'
    assume w: "wf p data = (Err e, p')" "e \<noteq> 10004" "replies p' = replies p"
      "queued p' = queued p" "code p' = code p" "valid p'"
    then show ?thesis using fin [OF w(5)]
      by (intro disjI2 exI [of _ "OsError e"] exI [of _ p']) (simp add: np_write_def is_interrupted_def)
  qed
next
  fix p n r p'
  assume "np_read rf p n = (r, p')"
  then show "replies p' = replies p"
    using rf_replies by (auto simp: np_read_def split: prod.splits read_file_out.splits if_splits)
qed

context win_pipe_io
begin

lemma pipe_handler:
  assumes "valid p" and "\<And>p data e p'. wf p data \<noteq> (Err e, p')"
  shows "\<exists>ms p'. handle_command_connection (np_read rf) (np_write wf) p [] = Some (ms, Disconnected, p') \<and>
    concat ms = queued p \<and> [] \<notin> set ms \<and> replies p' = replies p @ concat (replicate (length ms) OK_reply)"
proof -
  have "duplex.never_fails"
    using assms(2) by (auto simp: duplex.never_fails_def np_write_def split: prod.splits res.splits)
  then show ?thesis using duplex.handler_prints_all [OF assms(1), of "[]"] by auto
qed

end

text \<open>An executable command pipe: the queue of the client's messages and the replies.\<close>

record cmd_queue =
  cq_in :: pipe_queue
  cq_out :: "u8 list"

definition cmd_read_file :: "cmd_queue read_file" where
  "cmd_read_file q n = (case queue_read_file (cq_in q) n of (out, i) \<Rightarrow> (out, q\<lparr>cq_in := i\<rparr>))"

definition cmd_write_file :: "cmd_queue \<Rightarrow> u8 list \<Rightarrow> (u32, nat) res \<times> cmd_queue" where
  "cmd_write_file q data = (Ok (length data), q\<lparr>cq_out := cq_out q @ data\<rparr>)"

interpretation cmd_pipe: win_pipe_io cmd_read_file "\<lambda>q. queue_bytes (cq_in q)" "\<lambda>q. pq_code (cq_in q)"
  "\<lambda>q. queue_valid (cq_in q)" cmd_write_file cq_out
proof
  fix p :: cmd_queue and n :: nat
  assume "queue_valid (cq_in p)" "0 < n" "queue_bytes (cq_in p) \<noteq> []"
  from win_pipe.rf_data [OF this] obtain bs i where
    i: "queue_read_file (cq_in p) n = (RfOk bs, i) \<or> queue_read_file (cq_in p) n = (RfFail ERROR_MORE_DATA bs, i)"
      "bs \<noteq> []" "length bs \<le> n" "queue_bytes (cq_in p) = bs @ queue_bytes i" "pq_code i = pq_code (cq_in p)" "queue_valid i"
    by blast
  then show "\<exists>bs p'. (cmd_read_file p n = (RfOk bs, p') \<or> cmd_read_file p n = (RfFail ERROR_MORE_DATA bs, p')) \<and>
      bs \<noteq> [] \<and> length bs \<le> n \<and> queue_bytes (cq_in p) = bs @ queue_bytes (cq_in p') \<and>
      pq_code (cq_in p') = pq_code (cq_in p) \<and> queue_valid (cq_in p')"
    by (intro exI [of _ bs] exI [of _ "p\<lparr>cq_in := i\<rparr>"]) (auto simp: cmd_read_file_def)
next
  fix p :: cmd_queue and n :: nat
  assume "queue_valid (cq_in p)" "0 < n" "queue_bytes (cq_in p) = []"
  from win_pipe.rf_end [OF this] obtain bs i where
    "queue_read_file (cq_in p) n = (RfFail (pq_code (cq_in p)) bs, i)" "queue_bytes i = []"
    "pq_code i = pq_code (cq_in p)" "queue_valid i"
    by blast
  then show "\<exists>bs p'. cmd_read_file p n = (RfFail (pq_code (cq_in p)) bs, p') \<and> queue_bytes (cq_in p') = [] \<and>
      pq_code (cq_in p') = pq_code (cq_in p) \<and> queue_valid (cq_in p')"
    by (intro exI [of _ bs] exI [of _ "p\<lparr>cq_in := i\<rparr>"]) (simp add: cmd_read_file_def)
next
  fix p :: cmd_queue
  assume "queue_valid (cq_in p)"
  then show "pq_code (cq_in p) \<noteq> ERROR_MORE_DATA \<and> pq_code (cq_in p) \<noteq> 10004" by (rule win_pipe.code_final)
next
  fix p :: cmd_queue and data :: "u8 list"
  assume "queue_valid (cq_in p)" "data \<noteq> []"
  then show "(\<exists>n p'. cmd_write_file p data = (Ok n, p') \<and> 0 < n \<and> n \<le> length data \<and> cq_out p' = cq_out p @ take n data \<and>
         queue_bytes (cq_in p') = queue_bytes (cq_in p) \<and> pq_code (cq_in p') = pq_code (cq_in p) \<and> queue_valid (cq_in p')) \<or>
      (\<exists>e p'. cmd_write_file p data = (Err e, p') \<and> e \<noteq> 10004 \<and> cq_out p' = cq_out p \<and>
         queue_bytes (cq_in p') = queue_bytes (cq_in p) \<and> pq_code (cq_in p') = pq_code (cq_in p) \<and> queue_valid (cq_in p'))"
    by (intro disjI1 exI [of _ "length data"] exI [of _ "p\<lparr>cq_out := cq_out p @ data\<rparr>"]) (simp add: cmd_write_file_def)
next
  fix p p' :: cmd_queue and n out
  assume "cmd_read_file p n = (out, p')"
  then show "cq_out p' = cq_out p" by (auto simp: cmd_read_file_def split: prod.splits)
qed

section \<open>The accepting thread and its end\<close>

text \<open>
  \<open>serve_command_pipe\<close> as a program counter, against the thread of the analysis, which clears \<open>do_run\<close>,
  then nudges the server and then joins it. \<open>sv_pipe\<close> is the instance of the pipe that the accepting thread
  holds: \<open>Some False\<close> waits for a client, \<open>Some True\<close> has one. Opening the pipe succeeds only on an instance
  that waits; a client of the monitor may do so at any time.
\<close>

datatype server_pc = AtCheck | AtCreate | AtConnect | AtRecheck | Returned
datatype analysis_pc = Watching | Stopping | Joining | Joined

record server =
  sv_pc :: server_pc
  sv_pipe :: "bool option"
  sv_do_run :: bool
  sv_handlers :: nat
  sv_main :: analysis_pc

definition server_init :: server where
  "server_init = \<lparr>sv_pc = AtCheck, sv_pipe = None, sv_do_run = True, sv_handlers = 0, sv_main = Watching\<rparr>"

text \<open>One step of the accepting thread, given what \<open>CreateNamedPipeW\<close> and \<open>ConnectNamedPipe\<close> answer; it stays
  where it is while \<open>ConnectNamedPipe\<close> waits.\<close>

definition server_step :: "bool \<Rightarrow> bool \<Rightarrow> server \<Rightarrow> server" where
  "server_step created connected s = (case sv_pc s of
       AtCheck \<Rightarrow> if sv_do_run s then s\<lparr>sv_pc := AtCreate\<rparr> else s\<lparr>sv_pc := Returned\<rparr>
     | AtCreate \<Rightarrow> if created then s\<lparr>sv_pc := AtConnect, sv_pipe := Some False\<rparr> else s\<lparr>sv_pc := Returned\<rparr>
     | AtConnect \<Rightarrow>
         (if \<not> connected then s\<lparr>sv_pc := AtCheck, sv_pipe := None\<rparr>
          else if sv_pipe s = Some True then s\<lparr>sv_pc := AtRecheck\<rparr> else s)
     | AtRecheck \<Rightarrow>
         (if \<not> sv_do_run s then s\<lparr>sv_pc := Returned, sv_pipe := None\<rparr>
          else s\<lparr>sv_pc := AtCheck, sv_pipe := None, sv_handlers := Suc (sv_handlers s)\<rparr>)
     | Returned \<Rightarrow> s)"

text \<open>\<open>nudge_server\<close>: \<open>CreateFileW\<close> on the name of the pipe, and \<open>CloseHandle\<close>.\<close>

definition nudge_server :: "server \<Rightarrow> server" where
  "nudge_server s = (if sv_pipe s = Some False then s\<lparr>sv_pipe := Some True\<rparr> else s)"

definition main_step :: "server \<Rightarrow> server" where
  "main_step s = (case sv_main s of
       Watching \<Rightarrow> s\<lparr>sv_do_run := False, sv_main := Stopping\<rparr>
     | Stopping \<Rightarrow> (nudge_server s)\<lparr>sv_main := Joining\<rparr>
     | Joining \<Rightarrow> if sv_pc s = Returned then s\<lparr>sv_main := Joined\<rparr> else s
     | Joined \<Rightarrow> s)"

inductive server_move :: "server \<Rightarrow> server \<Rightarrow> bool" where
  accepts: "server_move s (server_step created connected s)"
| analysis: "server_move s (main_step s)"
| client: "sv_pipe s = Some False \<Longrightarrow> server_move s (s\<lparr>sv_pipe := Some True\<rparr>)"

inductive_cases server_moveE: "server_move s t"

inductive server_reachable :: "server \<Rightarrow> bool" where
  start: "server_reachable server_init"
| move: "server_reachable s \<Longrightarrow> server_move s t \<Longrightarrow> server_reachable t"

definition server_inv :: "server \<Rightarrow> bool" where
  "server_inv s \<longleftrightarrow>
     (sv_do_run s \<longleftrightarrow> sv_main s = Watching) \<and>
     (sv_main s = Joined \<longrightarrow> sv_pc s = Returned) \<and>
     (sv_pc s \<in> {AtCheck, AtCreate, Returned} \<longrightarrow> sv_pipe s = None) \<and>
     (sv_pc s = AtConnect \<longrightarrow> sv_pipe s \<noteq> None) \<and>
     (sv_pc s = AtRecheck \<longrightarrow> sv_pipe s = Some True)"

lemma reach_accepts: "server_reachable s \<Longrightarrow> server_reachable (server_step created connected s)"
  by (rule server_reachable.move [OF _ server_move.accepts])

lemma reach_analysis: "server_reachable s \<Longrightarrow> server_reachable (main_step s)"
  by (rule server_reachable.move [OF _ server_move.analysis])

lemmas reach = server_reachable.start reach_accepts reach_analysis

lemma server_inv_step: "server_inv s \<Longrightarrow> server_inv (server_step created connected s)"
  by (cases "sv_pc s") (auto simp: server_inv_def server_step_def)

lemma server_inv_main: "server_inv s \<Longrightarrow> server_inv (main_step s)"
  by (cases "sv_main s"; cases "sv_pc s") (auto simp: server_inv_def main_step_def nudge_server_def)

lemma server_inv_client: "server_inv s \<Longrightarrow> sv_pipe s = Some False \<Longrightarrow> server_inv (s\<lparr>sv_pipe := Some True\<rparr>)"
  by (cases "sv_pc s") (auto simp: server_inv_def)

lemma server_reachable_inv: "server_reachable s \<Longrightarrow> server_inv s"
proof (induction rule: server_reachable.induct)
  case start
  then show ?case by (simp add: server_inv_def server_init_def)
next
  case (move s t)
  then show ?case
    by (auto elim!: server_moveE intro: server_inv_step server_inv_main server_inv_client)
qed

section \<open>Properties\<close>

text \<open>The handler of a command connection returns on every pipe on which Win32 behaves as documented, reads
  everything the monitor sends and, when no write fails, answers every message with \<open>OK\<close>; it has no other
  effect, so no command ever registers a process or starts a reader.\<close>

theorem commands_only_acknowledged:
  assumes "win_pipe_io rf queued code valid write_file replies" and "valid p"
    and "\<And>p data e p'. write_file p data \<noteq> (Err e, p')"
  shows "\<exists>ms p'. handle_command_connection (np_read rf) (np_write write_file) p [] = Some (ms, Disconnected, p') \<and>
    concat ms = queued p \<and> [] \<notin> set ms \<and> replies p' = replies p @ concat (replicate (length ms) OK_reply)"
  by (rule win_pipe_io.pipe_handler [OF assms])

theorem commands_only_acknowledged_witness:
  "\<exists>ms p'. handle_command_connection (np_read cmd_read_file) (np_write cmd_write_file)
       \<lparr>cq_in = \<lparr>pq_writes = [[1, 2], [3]], pq_code = 109\<rparr>, cq_out = []\<rparr> [] = Some (ms, Disconnected, p') \<and>
     concat ms = [1, 2, 3] \<and> cq_out p' = concat (replicate (length ms) OK_reply)"
  using commands_only_acknowledged [OF cmd_pipe.win_pipe_io_axioms, of "\<lparr>cq_in = \<lparr>pq_writes = [[1, 2], [3]], pq_code = 109\<rparr>, cq_out = []\<rparr>"]
  by (auto simp: queue_valid_def queue_bytes_def ERROR_MORE_DATA_def cmd_write_file_def)

text \<open>The analysis continues past its \<open>join\<close> only when the accepting thread has returned, the flag is cleared
  before it nudges, and in every reachable state a waiting instance of the pipe exists only inside
  \<open>connect\<close>.\<close>

theorem join_waits:
  assumes "server_reachable s"
  shows "(sv_main s = Joined \<longrightarrow> sv_pc s = Returned) \<and> (sv_main s \<noteq> Watching \<longrightarrow> \<not> sv_do_run s) \<and>
    (sv_pipe s = Some False \<longrightarrow> sv_pc s = AtConnect)"
  using server_reachable_inv [OF assms] by (cases "sv_pc s") (auto simp: server_inv_def)

lemma join_waits_reach: "server_reachable (main_step server_init)"
  by (intro reach)

theorem join_waits_witness:
  "sv_main (main_step server_init) \<noteq> Watching \<and> \<not> sv_do_run (main_step server_init)"
  using join_waits [OF join_waits_reach] by (simp add: main_step_def server_init_def)

text \<open>C20: The nudge ends the accepting thread, except in one window: in every reachable state in which the
  analysis is about to nudge, the thread returns within two of its steps, whatever \<open>CreateNamedPipeW\<close> and
  \<open>ConnectNamedPipe\<close> answer, if and only if it is not just between its check of \<open>do_run\<close> and the creation of
  the next instance.\<close>

theorem nudge_ends_server:
  assumes "server_reachable s" and "sv_main s = Stopping"
  shows "(\<forall>a b c d. sv_pc (server_step a b (server_step c d (main_step s))) = Returned) \<longleftrightarrow> sv_pc s \<noteq> AtCreate"
proof -
  have inv: "server_inv s" by (rule server_reachable_inv [OF assms(1)])
  show ?thesis
  proof (cases "sv_pc s")
    case AtCreate
    have "sv_pc (server_step True True (server_step True True (main_step s))) = AtConnect"
      using inv assms(2) AtCreate
      by (simp add: server_inv_def main_step_def nudge_server_def server_step_def)
    then have "sv_pc (server_step True True (server_step True True (main_step s))) \<noteq> Returned" by simp
    with AtCreate show ?thesis by blast
  qed (use inv assms(2) in \<open>auto simp: server_inv_def main_step_def nudge_server_def server_step_def\<close>)
qed

definition waiting_stop :: server where
  "waiting_stop = main_step (server_step True True (server_step True True server_init))"

lemma waiting_stop_reach: "server_reachable waiting_stop" "sv_main waiting_stop = Stopping" "sv_pc waiting_stop = AtConnect"
proof -
  show "server_reachable waiting_stop"
    unfolding waiting_stop_def by (intro reach)
qed (simp_all add: waiting_stop_def main_step_def server_step_def server_init_def)

theorem nudge_ends_server_witness:
  "\<forall>a b c d. sv_pc (server_step a b (server_step c d (main_step waiting_stop))) = Returned"
  using nudge_ends_server [OF waiting_stop_reach(1,2)] waiting_stop_reach(3) by simp

text \<open>C37: In that window the analysis can hang for ever: there is a reachable state in which the nudge has missed,
  the accepting thread waits for a client on an instance created after the nudge, the analysis waits for
  the thread, and neither can move unless the wait fails or a monitor connects, although the sample is
  gone.\<close>

theorem shutdown_can_hang:
  "\<exists>s. server_reachable s \<and> sv_main s = Joining \<and> \<not> sv_do_run s \<and> sv_pc s = AtConnect \<and>
     (\<forall>created. server_step created True s = s) \<and> main_step s = s"
proof -
  let ?s = "server_step True True (main_step (main_step (server_step True True server_init)))"
  have "server_reachable ?s" by (intro reach)
  moreover have "sv_main ?s = Joining \<and> \<not> sv_do_run ?s \<and> sv_pc ?s = AtConnect \<and>
     (\<forall>created. server_step created True ?s = ?s) \<and> main_step ?s = ?s"
    by (simp add: server_step_def main_step_def nudge_server_def server_init_def)
  ultimately show ?thesis by blast
qed

end
