(* ===== verification/Pipe_Handles.thy ===== *)
theory Pipe_Handles
  imports Command_Pipe
begin

text \<open>
  The handles of the pipes of \<open>pipes/raw.rs\<close> through \<open>pipes/command.rs\<close> and \<open>pipes/logserver.rs\<close>: who owns a
  \<open>NamedPipe\<close>, and that its \<open>drop\<close> closes it exactly once. The accepting thread of \<open>Command_Pipe\<close> again, with the
  handles in it; a handle is the number of its opening, so a value that Windows gives out again is another handle.
\<close>

section \<open>The table of handles\<close>

datatype pipe_event = OpenPipe nat | DisconnectPipe nat | ClosePipe nat

text \<open>\<open>pt_pipe\<close> is the instance that the accepting thread holds and whether a client has it; \<open>pt_handlers\<close> and
  \<open>pt_readers\<close> are the pipes that have been moved into the threads of connections and of log readers.\<close>

record pipe_table =
  pt_pc :: server_pc
  pt_pipe :: "(nat \<times> bool) option"
  pt_do_run :: bool
  pt_handlers :: "nat list"
  pt_ended :: nat
  pt_readers :: "nat list"
  pt_events :: "pipe_event list"
  pt_next :: nat
  pt_main :: analysis_pc

definition pipes_init :: pipe_table where
  "pipes_init = \<lparr>pt_pc = AtCheck, pt_pipe = None, pt_do_run = True, pt_handlers = [], pt_ended = 0, pt_readers = [],
     pt_events = [], pt_next = 0, pt_main = Watching\<rparr>"

definition emit_pipe :: "pipe_event \<Rightarrow> pipe_table \<Rightarrow> pipe_table" where
  "emit_pipe e s = s\<lparr>pt_events := pt_events s @ [e]\<rparr>"

text \<open>\<open>create\<close>, \<open>disconnect\<close> and \<open>drop\<close> of a pipe.\<close>

definition np_open :: "pipe_table \<Rightarrow> nat \<times> pipe_table" where
  "np_open s = (pt_next s, (emit_pipe (OpenPipe (pt_next s)) s)\<lparr>pt_next := Suc (pt_next s)\<rparr>)"

definition np_disconnect :: "nat \<Rightarrow> pipe_table \<Rightarrow> pipe_table" where
  "np_disconnect h = emit_pipe (DisconnectPipe h)"

definition np_drop :: "nat \<Rightarrow> pipe_table \<Rightarrow> pipe_table" where
  "np_drop h = emit_pipe (ClosePipe h)"

section \<open>The threads\<close>

text \<open>\<open>serve_command_pipe\<close>: \<open>continue\<close> and \<open>break\<close> drop the pipe, \<open>spawn\<close> moves it into the handler's thread.\<close>

definition accept_step :: "bool \<Rightarrow> bool \<Rightarrow> pipe_table \<Rightarrow> pipe_table" where
  "accept_step created connected s = (case pt_pc s of
       AtCheck \<Rightarrow> if pt_do_run s then s\<lparr>pt_pc := AtCreate\<rparr> else s\<lparr>pt_pc := Returned\<rparr>
     | AtCreate \<Rightarrow>
         (if created then (case np_open s of (h, s') \<Rightarrow> s'\<lparr>pt_pc := AtConnect, pt_pipe := Some (h, False)\<rparr>)
          else s\<lparr>pt_pc := Returned\<rparr>)
     | AtConnect \<Rightarrow>
         (case pt_pipe s of
            None \<Rightarrow> s
          | Some (h, client) \<Rightarrow>
              (if \<not> connected then (np_drop h s)\<lparr>pt_pc := AtCheck, pt_pipe := None\<rparr>
               else if client then s\<lparr>pt_pc := AtRecheck\<rparr> else s))
     | AtRecheck \<Rightarrow>
         (case pt_pipe s of
            None \<Rightarrow> s
          | Some (h, client) \<Rightarrow>
              (if \<not> pt_do_run s then (np_drop h s)\<lparr>pt_pc := Returned, pt_pipe := None\<rparr>
               else s\<lparr>pt_pc := AtCheck, pt_pipe := None, pt_handlers := pt_handlers s @ [h]\<rparr>))
     | Returned \<Rightarrow> s)"

text \<open>The end of a handler: it disconnects its pipe and drops it; a handler that panics only drops it.\<close>

definition handler_ends :: "handler_end \<Rightarrow> nat \<Rightarrow> pipe_table \<Rightarrow> pipe_table" where
  "handler_ends e h s =
     (let s1 = (case e of Disconnected \<Rightarrow> np_disconnect h s | HandlerPanicked \<Rightarrow> s)
      in (np_drop h s1)\<lparr>pt_handlers := remove1 h (pt_handlers s), pt_ended := Suc (pt_ended s)\<rparr>)"

text \<open>\<open>spawn_reader\<close> creates the log pipe and moves it into the reader's thread, which drops it when \<open>read_loop\<close> returns
  or panics.\<close>

definition reader_starts :: "bool \<Rightarrow> pipe_table \<Rightarrow> pipe_table" where
  "reader_starts created s =
     (if created then (case np_open s of (h, s') \<Rightarrow> s'\<lparr>pt_readers := pt_readers s @ [h]\<rparr>) else s)"

definition reader_ends :: "nat \<Rightarrow> pipe_table \<Rightarrow> pipe_table" where
  "reader_ends h s = (np_drop h s)\<lparr>pt_readers := remove1 h (pt_readers s)\<rparr>"

text \<open>\<open>nudge_server\<close>: the client's end is opened on an instance that waits, and closed at once.\<close>

definition nudge_open :: "pipe_table \<Rightarrow> pipe_table" where
  "nudge_open s = (case pt_pipe s of
       None \<Rightarrow> s
     | Some (h, client) \<Rightarrow>
         (if client then s else (case np_open s of (c, s') \<Rightarrow> (np_drop c s')\<lparr>pt_pipe := Some (h, True)\<rparr>)))"

definition stop_step :: "pipe_table \<Rightarrow> pipe_table" where
  "stop_step s = (case pt_main s of
       Watching \<Rightarrow> s\<lparr>pt_do_run := False, pt_main := Stopping\<rparr>
     | Stopping \<Rightarrow> (nudge_open s)\<lparr>pt_main := Joining\<rparr>
     | Joining \<Rightarrow> if pt_pc s = Returned then s\<lparr>pt_main := Joined\<rparr> else s
     | Joined \<Rightarrow> s)"

inductive pipe_move :: "pipe_table \<Rightarrow> pipe_table \<Rightarrow> bool" where
  accept: "pipe_move s (accept_step created connected s)"
| stop: "pipe_move s (stop_step s)"
| connects: "pt_pipe s = Some (h, False) \<Longrightarrow> pipe_move s (s\<lparr>pt_pipe := Some (h, True)\<rparr>)"
| handler: "h \<in> set (pt_handlers s) \<Longrightarrow> pipe_move s (handler_ends e h s)"
| reader: "pipe_move s (reader_starts created s)"
| reader_end: "h \<in> set (pt_readers s) \<Longrightarrow> pipe_move s (reader_ends h s)"

inductive pipes_reachable :: "pipe_table \<Rightarrow> bool" where
  pipes_start: "pipes_reachable pipes_init"
| pipes_next: "pipes_reachable s \<Longrightarrow> pipe_move s t \<Longrightarrow> pipes_reachable t"

section \<open>Legal uses of handles\<close>

text \<open>The handles that are open after some events, unless one was opened twice, or used or closed while it was not open.\<close>

fun open_after :: "pipe_event list \<Rightarrow> nat set \<Rightarrow> nat set option" where
  "open_after [] H = Some H"
| "open_after (OpenPipe h # es) H = (if h \<in> H then None else open_after es (insert h H))"
| "open_after (DisconnectPipe h # es) H = (if h \<in> H then open_after es H else None)"
| "open_after (ClosePipe h # es) H = (if h \<in> H then open_after es (H - {h}) else None)"

lemma open_after_append: "open_after (es @ fs) H = Option.bind (open_after es H) (open_after fs)"
  by (induction es H rule: open_after.induct) simp_all

definition owned :: "pipe_table \<Rightarrow> nat list" where
  "owned s = (case pt_pipe s of None \<Rightarrow> [] | Some (h, _) \<Rightarrow> [h]) @ pt_handlers s @ pt_readers s"

definition pipes_inv :: "pipe_table \<Rightarrow> bool" where
  "pipes_inv s \<longleftrightarrow> open_after (pt_events s) {} = Some (set (owned s)) \<and> distinct (owned s) \<and>
     (\<forall>h \<in> set (owned s). h < pt_next s) \<and>
     (pt_pc s \<in> {AtCheck, AtCreate, Returned} \<longrightarrow> pt_pipe s = None)"

lemmas pipe_ops = np_open_def np_drop_def np_disconnect_def emit_pipe_def open_after_append owned_def

lemma accept_inv: "pipes_inv s \<Longrightarrow> pipes_inv (accept_step created connected s)"
  unfolding pipes_inv_def accept_step_def
  by (cases "pt_pc s") (auto simp: pipe_ops less_Suc_eq split: option.splits)

lemma handler_ends_inv: "pipes_inv s \<Longrightarrow> h \<in> set (pt_handlers s) \<Longrightarrow> pipes_inv (handler_ends e h s)"
  unfolding pipes_inv_def handler_ends_def
  by (cases e) (auto simp: pipe_ops Let_def less_Suc_eq split: option.splits)

lemma reader_starts_inv: "pipes_inv s \<Longrightarrow> pipes_inv (reader_starts created s)"
  unfolding pipes_inv_def reader_starts_def
  by (auto simp: pipe_ops less_Suc_eq split: option.splits)

lemma reader_ends_inv: "pipes_inv s \<Longrightarrow> h \<in> set (pt_readers s) \<Longrightarrow> pipes_inv (reader_ends h s)"
  unfolding pipes_inv_def reader_ends_def
  by (auto simp: pipe_ops less_Suc_eq split: option.splits)

lemma nudge_inv: "pipes_inv s \<Longrightarrow> pipes_inv (nudge_open s)"
  unfolding pipes_inv_def nudge_open_def
  by (auto simp: pipe_ops less_Suc_eq split: option.splits)

lemma stop_inv: "pipes_inv s \<Longrightarrow> pipes_inv (stop_step s)"
  using nudge_inv [of s] unfolding stop_step_def
  by (cases "pt_main s") (auto simp: pipes_inv_def owned_def)

lemma pipe_move_inv: "pipe_move s t \<Longrightarrow> pipes_inv s \<Longrightarrow> pipes_inv t"
proof (induction rule: pipe_move.induct)
  case (connects s h)
  then show ?case by (auto simp: pipes_inv_def owned_def)
qed (rule accept_inv stop_inv handler_ends_inv reader_starts_inv reader_ends_inv; assumption)+

lemma pipes_reachable_inv: "pipes_reachable s \<Longrightarrow> pipes_inv s"
proof (induction rule: pipes_reachable.induct)
  case pipes_start
  show ?case by (simp add: pipes_inv_def pipes_init_def owned_def)
qed (rule pipe_move_inv)

section \<open>The accepting thread is the one of \<open>Command_Pipe\<close>\<close>

definition server_of :: "pipe_table \<Rightarrow> server" where
  "server_of s = \<lparr>sv_pc = pt_pc s, sv_pipe = map_option snd (pt_pipe s), sv_do_run = pt_do_run s,
     sv_handlers = length (pt_handlers s) + pt_ended s, sv_main = pt_main s\<rparr>"

lemma accept_simulates:
  assumes "server_inv (server_of s)"
  shows "server_of (accept_step created connected s) = server_step created connected (server_of s)"
  using assms unfolding accept_step_def server_step_def server_inv_def server_of_def
  by (cases "pt_pc s") (auto simp: np_open_def np_drop_def emit_pipe_def split: option.splits)

lemma nudge_simulates: "server_of (nudge_open s) = nudge_server (server_of s)"
  by (auto simp: nudge_open_def nudge_server_def server_of_def np_open_def np_drop_def emit_pipe_def split: option.splits)

lemma stop_simulates: "server_of (stop_step s) = main_step (server_of s)"
proof (cases "pt_main s")
  case Stopping
  have "server_of ((nudge_open s)\<lparr>pt_main := Joining\<rparr>) = (server_of (nudge_open s))\<lparr>sv_main := Joining\<rparr>"
    by (simp add: server_of_def)
  with Stopping show ?thesis by (simp add: stop_step_def main_step_def nudge_simulates) (simp add: server_of_def)
qed (simp_all add: stop_step_def main_step_def server_of_def)

lemma threads_simulate:
  "h \<in> set (pt_handlers s) \<Longrightarrow> server_of (handler_ends e h s) = server_of s"
  "server_of (reader_starts created s) = server_of s" "server_of (reader_ends h s) = server_of s"
  by (cases e; auto simp: handler_ends_def reader_starts_def reader_ends_def server_of_def np_open_def np_drop_def
      np_disconnect_def emit_pipe_def Let_def length_remove1 dest: length_pos_if_in_set)+

lemma pipes_simulate: "pipes_reachable s \<Longrightarrow> server_reachable (server_of s)"
proof (induction rule: pipes_reachable.induct)
  case pipes_start
  have "server_of pipes_init = server_init" by (simp add: server_of_def pipes_init_def server_init_def)
  then show ?case by (simp add: server_reachable.start)
next
  case (pipes_next s t)
  have inv: "server_inv (server_of s)" by (rule server_reachable_inv [OF pipes_next.IH])
  from pipes_next.hyps(2) show ?case
  proof cases
    case (connects h)
    then have "server_move (server_of s) (server_of t)"
      using server_move.client [of "server_of s"] by (simp add: server_of_def)
    then show ?thesis by (rule server_reachable.move [OF pipes_next.IH])
  qed (use pipes_next.IH in \<open>auto simp: accept_simulates [OF inv] stop_simulates threads_simulate
      intro: server_reachable.move server_move.intros\<close>)
qed

section \<open>Properties\<close>

text \<open>C39: Whatever the accepting thread, the threads of connections and log readers, the monitor and the end of the
  analysis do, and in whatever order: each pipe of the agent is opened once, disconnected only while it is open
  and closed at most once, and what is open is exactly what some thread still owns; so when the accepting thread
  has been joined and the other threads have ended, every pipe is closed. The accepting thread with its handles
  is a refinement of the one without.\<close>

theorem pipe_handles_accounted:
  assumes "pipes_reachable s"
  shows "open_after (pt_events s) {} = Some (set (owned s)) \<and> distinct (owned s) \<and>
     (pt_main s = Joined \<and> pt_handlers s = [] \<and> pt_readers s = [] \<longrightarrow> open_after (pt_events s) {} = Some {}) \<and>
     server_reachable (server_of s)"
proof -
  have s: "pipes_inv s" "server_reachable (server_of s)"
    using pipes_reachable_inv [OF assms] pipes_simulate [OF assms] by simp_all
  then have "pt_main s = Joined \<longrightarrow> pt_pipe s = None"
    using server_reachable_inv [OF s(2)] by (auto simp: server_inv_def server_of_def)
  with s show ?thesis by (simp add: pipes_inv_def owned_def)
qed

text \<open>An executable scheduler, and one connection and one log reader from the start to the join.\<close>

datatype move = MAccept bool bool | MStop | MConnect | MHandler handler_end nat | MReader bool | MReaderEnd nat

fun do_move :: "move \<Rightarrow> pipe_table \<Rightarrow> pipe_table" where
  "do_move (MAccept created connected) s = accept_step created connected s"
| "do_move MStop s = stop_step s"
| "do_move MConnect s = (case pt_pipe s of
       None \<Rightarrow> s | Some (h, client) \<Rightarrow> if client then s else s\<lparr>pt_pipe := Some (h, True)\<rparr>)"
| "do_move (MHandler e h) s = (if h \<in> set (pt_handlers s) then handler_ends e h s else s)"
| "do_move (MReader created) s = reader_starts created s"
| "do_move (MReaderEnd h) s = (if h \<in> set (pt_readers s) then reader_ends h s else s)"

lemma do_move_reachable: "pipes_reachable s \<Longrightarrow> pipes_reachable (do_move m s)"
  by (cases m) (auto intro: pipes_reachable.pipes_next pipe_move.intros split: option.splits)

lemma do_moves_reachable: "pipes_reachable (fold do_move ms pipes_init)"
proof -
  have "pipes_reachable s \<Longrightarrow> pipes_reachable (fold do_move ms s)" for s
    by (induction ms arbitrary: s) (simp_all add: do_move_reachable)
  then show ?thesis by (simp add: pipes_reachable.pipes_start)
qed

definition one_connection :: pipe_table where
  "one_connection = fold do_move
     [MReader True, MAccept True True, MAccept True True, MConnect, MAccept True True, MAccept True True,
      MAccept True True, MAccept True True, MHandler Disconnected 1, MStop, MStop, MAccept True True, MAccept True True,
      MReaderEnd 0, MStop] pipes_init"

lemma one_connection:
  "pt_main one_connection = Joined" "pt_handlers one_connection = []" "pt_readers one_connection = []"
  "pt_events one_connection = [OpenPipe 0, OpenPipe 1, OpenPipe 2, DisconnectPipe 1, ClosePipe 1,
     OpenPipe 3, ClosePipe 3, ClosePipe 2, ClosePipe 0]"
  by (simp_all add: one_connection_def pipes_init_def accept_step_def stop_step_def nudge_open_def handler_ends_def
      reader_starts_def reader_ends_def np_open_def np_drop_def np_disconnect_def emit_pipe_def Let_def)

theorem pipe_handles_accounted_witness:
  "open_after [OpenPipe 0, OpenPipe 1, OpenPipe 2, DisconnectPipe 1, ClosePipe 1,
     OpenPipe 3, ClosePipe 3, ClosePipe 2, ClosePipe 0] {} = Some {} \<and> server_reachable (server_of one_connection)"
proof -
  have "pipes_reachable one_connection" unfolding one_connection_def by (rule do_moves_reachable)
  from pipe_handles_accounted [OF this] one_connection(1-3)
  have "open_after (pt_events one_connection) {} = Some {} \<and> server_reachable (server_of one_connection)" by blast
  then show ?thesis unfolding one_connection(4) .
qed

end
