(* ===== verification/Routes.thy ===== *)
theory Routes
  imports Run_Job Rust_Path
begin

text \<open>
  The HTTP handlers of \<open>crates/malbox-controller/src/routes.rs\<close>: submitting a sample, the state
  of a job, its event stream and its cancellation. Status codes are numbers; the multipart parser,
  the file system and the two random UUIDs are arguments. The files of the controller are a map
  from paths to contents.
\<close>

section \<open>Submitting\<close>

record multipart_field =
  mf_file_name :: "string option"
  mf_bytes :: "(string, u8 list) res"

record submit_response =
  sr_job_id :: string
  sr_status :: string

definition safe_filename :: "multipart_field \<Rightarrow> string" where
  "safe_filename field =
     (let raw_filename = (case mf_file_name field of Some n \<Rightarrow> n | None \<Rightarrow> ''unknown'')
      in case unix_file_name raw_filename of Some n \<Rightarrow> n | None \<Rightarrow> ''unknown'')"

definition sample_dir_of :: "paths_config \<Rightarrow> string" where
  "sample_dir_of cfg = unix_join (pc_report_dir cfg) ''samples''"

record submit_env =
  sb_mkdir :: "string option"
  sb_field :: "(string, multipart_field option) res"
  sb_disk_uuid :: string
  sb_write :: "string option"
  sb_job_uuid :: string
  sb_now :: u64

definition submit_job ::
    "paths_config \<Rightarrow> submit_env \<Rightarrow> (string \<rightharpoonup> u8 list) \<Rightarrow> job_tracker \<Rightarrow>
       (string \<rightharpoonup> u8 list) \<times> job_tracker \<times> (nat \<times> string, nat \<times> submit_response) res" where
  "submit_job cfg env fs t =
     (let sample_dir = sample_dir_of cfg
      in case sb_mkdir env of
           Some e \<Rightarrow> (fs, t, Err (500, e))
         | None \<Rightarrow>
             (case sb_field env of
                Err e \<Rightarrow> (fs, t, Err (400, e))
              | Panic \<Rightarrow> (fs, t, Panic)
              | Ok None \<Rightarrow> (fs, t, Err (400, ''no file uploaded''))
              | Ok (Some field) \<Rightarrow>
                  (case mf_bytes field of
                     Err e \<Rightarrow> (fs, t, Err (400, e))
                   | Panic \<Rightarrow> (fs, t, Panic)
                   | Ok data \<Rightarrow>
                       (let disk_name = sb_disk_uuid env @ ''_'' @ safe_filename field;
                            sample_path = unix_join sample_dir disk_name
                        in case sb_write env of
                             Some e \<Rightarrow> (fs, t, Err (500, e))
                           | None \<Rightarrow>
                               (case submit t (sb_job_uuid env) sample_path (safe_filename field) 300 (sb_now env) of
                                  (t', job_id) \<Rightarrow>
                                    (fs(sample_path \<mapsto> data), t',
                                     Ok (201, \<lparr>sr_job_id = job_id, sr_status = ''queued''\<rparr>)))))))"

section \<open>Asking and cancelling\<close>

definition get_job :: "job_tracker \<Rightarrow> string \<Rightarrow> (nat, job_info) res" where
  "get_job t jid = (case get_info t jid of Some i \<Rightarrow> Ok i | None \<Rightarrow> Err 404)"

definition cancel_job :: "job_tracker \<Rightarrow> string \<Rightarrow> job_tracker \<times> nat" where
  "cancel_job t jid = (case cancel t jid of (t', found) \<Rightarrow> (t', if found then 200 else 404))"

section \<open>The event stream\<close>

text \<open>\<open>serde_json\<close> on an event: tagged, with the string escapes of JSON.\<close>

definition json_char :: "char \<Rightarrow> string" where
  "json_char c =
     (if c = CHR 0x22 then [bslash, CHR 0x22]
      else if c = bslash then [bslash, bslash]
      else if c = CHR 0x08 then [bslash, CHR ''b'']
      else if c = CHR 0x09 then [bslash, CHR ''t'']
      else if c = CHR 0x0A then [bslash, CHR ''n'']
      else if c = CHR 0x0C then [bslash, CHR ''f'']
      else if c = CHR 0x0D then [bslash, CHR ''r'']
      else if (of_char c :: nat) < 32 then bslash # CHR ''u'' # pad_left 4 (CHR ''0'') (show_hex (of_char c))
      else [c])"

definition json_string :: "string \<Rightarrow> string" where
  "json_string s = [CHR 0x22] @ concat (map json_char s) @ [CHR 0x22]"

fun join_with_comma :: "string list \<Rightarrow> string" where
  "join_with_comma [] = []"
| "join_with_comma [x] = x"
| "join_with_comma (x # xs) = x @ '','' @ join_with_comma xs"

definition json_object :: "(string \<times> string) list \<Rightarrow> string" where
  "json_object kvs = ''{'' @ join_with_comma (map (\<lambda>(k, v). json_string k @ '':'' @ v) kvs) @ ''}''"

definition show_i32 :: "i32 \<Rightarrow> string" where
  "show_i32 i = (if sint i < 0 then ''-'' @ show_dec (nat (- sint i)) else show_dec (nat (sint i)))"

fun job_event_json :: "job_event \<Rightarrow> string" where
  "job_event_json (StatusChanged s) = json_object [(''type'', json_string ''status''), (''data'', json_string s)]"
| "job_event_json (ErrorEvent m) = json_object [(''type'', json_string ''error''), (''data'', json_string m)]"
| "job_event_json (CompletedEvent c ms) = json_object [(''type'', json_string ''completed''),
     (''data'', json_object [(''exit_code'', show_i32 c), (''runtime_ms'', show_dec (unat ms))])]"

fun event_name :: "job_event \<Rightarrow> string" where
  "event_name (StatusChanged _) = ''status''"
| "event_name (ErrorEvent _) = ''error''"
| "event_name (CompletedEvent _ _) = ''completed''"

text \<open>
  What \<open>recv\<close> returns on a receiver of a channel that keeps the last \<open>cap\<close> values: one that has
  fallen behind is told so once and goes on with the oldest value kept. The stream drops the
  notice and ends when the channel is closed.
\<close>

datatype recv_out = Received job_event | Lagged nat | Closed

definition recv_sequence :: "nat \<Rightarrow> job_event list \<Rightarrow> nat \<Rightarrow> bool \<Rightarrow> recv_out list" where
  "recv_sequence cap log pos closed =
     (let behind = length log - pos
      in (if cap < behind then Lagged (behind - cap) # map Received (drop (length log - cap) log)
          else map Received (drop pos log)) @ (if closed then [Closed] else []))"

fun event_stream :: "recv_out list \<Rightarrow> (string \<times> string) list" where
  "event_stream [] = []"
| "event_stream (Received e # rs) = (event_name e, job_event_json e) # event_stream rs"
| "event_stream (Lagged n # rs) = event_stream rs"
| "event_stream (Closed # rs) = []"

definition CHANNEL_CAPACITY :: nat where "CHANNEL_CAPACITY = 64"

definition job_events :: "job_tracker \<Rightarrow> string \<Rightarrow> (nat, nat \<times> nat) res" where
  "job_events t jid = (case subscribe t jid of Some rx \<Rightarrow> Ok rx | None \<Rightarrow> Err 404)"

section \<open>Where a sample is stored\<close>

lemma safe_filename_normal: "safe_filename field \<noteq> [] \<and> CHR ''/'' \<notin> set (safe_filename field)"
proof (cases "unix_file_name (case mf_file_name field of Some n \<Rightarrow> n | None \<Rightarrow> ''unknown'')")
  case (Some n)
  then show ?thesis using unix_file_name_normal [OF Some]
    by (auto simp: safe_filename_def unix_normal_def unix_sep_def)
qed (simp add: safe_filename_def)

lemma disk_name_normal:
  assumes "CHR ''/'' \<notin> set uuid" and "CHR ''/'' \<notin> set name"
  shows "unix_normal (uuid @ ''_'' @ name)"
proof -
  have "CHR ''_'' \<in> set (uuid @ ''_'' @ name)" "CHR ''_'' \<notin> set ''.''" "CHR ''_'' \<notin> set ''..''"
    by simp_all
  then have "uuid @ ''_'' @ name \<noteq> ''.''" "uuid @ ''_'' @ name \<noteq> ''..''" by metis+
  then show ?thesis using assms by (auto simp: unix_normal_def unix_sep_def)
qed

lemma samples_normal: "unix_normal ''samples''"
  by (simp add: unix_normal_def unix_sep_def)

lemma submit_job_OkD:
  assumes "submit_job cfg env fs t = (fs', t', Ok r)"
  obtains field data where "sb_field env = Ok (Some field)" "mf_bytes field = Ok data"
    "r = (201, \<lparr>sr_job_id = sb_job_uuid env, sr_status = ''queued''\<rparr>)"
    "fs' = fs(unix_join (sample_dir_of cfg) (sb_disk_uuid env @ ''_'' @ safe_filename field) \<mapsto> data)"
    "t' = fst (submit t (sb_job_uuid env)
        (unix_join (sample_dir_of cfg) (sb_disk_uuid env @ ''_'' @ safe_filename field))
        (safe_filename field) 300 (sb_now env))"
  using assms
  by (auto simp: submit_job_def submit_def Let_def split: option.splits res.splits)

lemma submit_job_not_Ok:
  "submit_job cfg env fs t = (fs', t', r) \<Longrightarrow> (\<forall>x. r \<noteq> Ok x) \<Longrightarrow> fs' = fs \<and> t' = t"
  by (auto simp: submit_job_def submit_def Let_def split: option.splits res.splits)

lemma log_length: "log_ok evs \<Longrightarrow> length evs \<le> 6"
  by (erule log_okE) (auto simp: progress_def)

section \<open>Properties\<close>


definition example_submit :: submit_env where
  "example_submit = \<lparr>sb_mkdir = None,
     sb_field = Ok (Some \<lparr>mf_file_name = Some ''../../etc/passwd'', mf_bytes = Ok [77, 90]\<rparr>),
     sb_disk_uuid = ''u'', sb_write = None, sb_job_uuid = ''j'', sb_now = 9\<rparr>"


text \<open>C31: A subscriber of a job misses nothing: in every reachable state the log of a channel is shorter
  than the channel's capacity, so from its subscription on the stream carries every event sent, once,
  in order, and with the event's own name and data, and then ends if the channel is closed.\<close>

theorem subscriber_sees_all:
  assumes "reachable s" and "sy_chan s jid = Some k"
  shows "event_stream (recv_sequence CHANNEL_CAPACITY (tk_sent (sy_tracker s) k) pos closed) =
     map (\<lambda>e. (event_name e, job_event_json e)) (drop pos (tk_sent (sy_tracker s) k))"
proof -
  have "log_ok (tk_sent (sy_tracker s) k)"
    using reachable_inv [OF assms(1)] assms(2) unfolding sys_inv_def by blast
  then have "\<not> CHANNEL_CAPACITY < length (tk_sent (sy_tracker s) k) - pos"
    using log_length by (fastforce simp: CHANNEL_CAPACITY_def)
  moreover have "event_stream (map Received es @ (if closed then [Closed] else [])) =
      map (\<lambda>e. (event_name e, job_event_json e)) es" for es
    by (induction es) auto
  ultimately show ?thesis by (simp add: recv_sequence_def Let_def)
qed

theorem subscriber_sees_all_witness:
  "event_stream (recv_sequence CHANNEL_CAPACITY (tk_sent (sy_tracker lost_sys) 0) 1 True) =
     map (\<lambda>e. (event_name e, job_event_json e)) (drop 1 (tk_sent (sy_tracker lost_sys) 0))"
  by (rule subscriber_sees_all [OF lost_sys(2,4)])

text \<open>The state a client reads from \<open>GET /jobs/{id}\<close> and the one it reads from the event stream are
  spelled alike except for one: the stream says \<open>spawningvm\<close> where the state says
  \<open>spawning_vm\<close>.\<close>

theorem status_spelling: "(status_event_name st = status_json st) = (st \<noteq> SpawningVm)"
  by (cases st) (simp_all add: status_event_names)

text \<open>Cancelling a job answers 200 exactly when the job was there; afterwards its state, its events and
  a second cancellation all answer 404, and every other job is as before.\<close>

theorem cancel_then_gone:
  shows "snd (cancel_job t jid) = (if has t jid then 200 else 404) \<and>
     get_job (fst (cancel_job t jid)) jid = Err 404 \<and>
     job_events (fst (cancel_job t jid)) jid = Err 404 \<and>
     snd (cancel_job (fst (cancel_job t jid)) jid) = 404 \<and>
     (\<forall>k. k = jid \<or> get_job (fst (cancel_job t jid)) k = get_job t k)"
  by (auto simp: cancel_job_def cancel_def has_def get_job_def get_info_def job_events_def subscribe_def)

end
