(* ===== verification/Startup.thy ===== *)
theory Startup
  imports Routes Run_Job
begin

text \<open>
  The start of the controller: \<open>config.rs\<close>, \<open>VmManager::new\<close> and \<open>main.rs\<close> up to the server, and its table of
  routes. Reading a file, the TOML parser, libvirt and the socket are arguments; every failure is an \<open>unwrap\<close>
  of an error with its context, so the process ends with a panic, here \<open>Err\<close> with the chain of its text,
  before it serves anything. The settings of
  \<open>VmConfig\<close> are read and then used nowhere: the machine's template has fixed values.
\<close>

record libvirt_config =
  lc_uri :: string

record vm_config =
  vc_vcpus :: u32
  vc_memory_mb :: u32

record config =
  cf_listen_addr :: string
  cf_libvirt :: libvirt_config
  cf_vm :: vm_config
  cf_paths :: paths_config

definition from_file :: "(string \<Rightarrow> (string, string) res) \<Rightarrow> (string \<Rightarrow> (string, config) res) \<Rightarrow> string \<Rightarrow> (anyhow, config) res" where
  "from_file read_to_string from_str path = (case bind_res (read_to_string path) from_str of
       Ok c \<Rightarrow> Ok c | Err e \<Rightarrow> Err [e] | Panic \<Rightarrow> Panic)"

record 'conn vm_manager =
  vm_config_of :: config
  vm_conn :: 'conn

definition vm_manager_new :: "(string \<Rightarrow> (string, 'conn) res) \<Rightarrow> config \<Rightarrow> (anyhow, 'conn vm_manager) res" where
  "vm_manager_new connect cfg = (case connect (lc_uri (cf_libvirt cfg)) of
       Ok conn \<Rightarrow> Ok \<lparr>vm_config_of = cfg, vm_conn = conn\<rparr> | Err e \<Rightarrow> Err [e] | Panic \<Rightarrow> Panic)"

record 'conn app_state =
  as_tracker :: job_tracker
  as_vm_mgr :: "'conn vm_manager"
  as_config :: config

datatype http_method = GET | POST | DELETE
datatype endpoint = ServeFrontend | SubmitJob | GetJob | CancelJob | JobEvents

definition routes :: "(string \<times> (http_method \<times> endpoint) list) list" where
  "routes = [(''/'', [(GET, ServeFrontend)]), (''/jobs'', [(POST, SubmitJob)]),
     (''/jobs/{id}'', [(GET, GetJob), (DELETE, CancelJob)]), (''/jobs/{id}/events'', [(GET, JobEvents)])]"

definition BODY_LIMIT :: nat where "BODY_LIMIT = 50 * 1024 * 1024"

record 'conn controller =
  co_state :: "'conn app_state"
  co_routes :: "(string \<times> (http_method \<times> endpoint) list) list"
  co_body_limit :: nat
  co_listen_addr :: string


definition controller_main ::
    "(string \<Rightarrow> (string, string) res) \<Rightarrow> (string \<Rightarrow> (string, config) res) \<Rightarrow> (string \<Rightarrow> (string, 'conn) res) \<Rightarrow>
     ('conn \<Rightarrow> (string, string) res) \<Rightarrow> (string \<Rightarrow> string option) \<Rightarrow> (anyhow, 'conn controller) res" where
  "controller_main read_to_string from_str connect get_uri bind_listener =
     (let path = ''config.EXAMPLE.toml''
      in bind_res (context_msg (''Failed to load config from '' @ path) (from_file read_to_string from_str path)) (\<lambda>cfg.
         bind_res (context_msg (''Failed to connect to libvirt at '' @ lc_uri (cf_libvirt cfg)) (vm_manager_new connect cfg)) (\<lambda>vm_mgr.
         case get_uri (vm_conn vm_mgr) of
           Ok _ \<Rightarrow>
             (case bind_listener (cf_listen_addr cfg) of
                None \<Rightarrow> Ok \<lparr>co_state = \<lparr>as_tracker = new_tracker, as_vm_mgr = vm_mgr, as_config = cfg\<rparr>,
                           co_routes = routes, co_body_limit = BODY_LIMIT, co_listen_addr = cf_listen_addr cfg\<rparr>
              | Some e \<Rightarrow> Err [e])
         | Err e \<Rightarrow> Err [e]
         | Panic \<Rightarrow> Panic)))"

text \<open>What the controller serves with, when it serves: an empty table of jobs, and one configuration everywhere.\<close>

lemma controller_started:
  assumes "controller_main rd fs cn gu bl = Ok c"
  shows "\<exists>text. rd ''config.EXAMPLE.toml'' = Ok text \<and> fs text = Ok (as_config (co_state c)) \<and>
    vm_config_of (as_vm_mgr (co_state c)) = as_config (co_state c) \<and>
    co_listen_addr c = cf_listen_addr (as_config (co_state c)) \<and> bl (co_listen_addr c) = None \<and>
    as_tracker (co_state c) = new_tracker"
proof -
  have ctx: "context_msg m r = Ok x \<longleftrightarrow> r = Ok x" for m and r :: "(anyhow, 'b) res" and x
    by (simp add: context_msg_def split: res.splits)
  have loaded: "from_file rd fs p = Ok x \<longleftrightarrow> (\<exists>text. rd p = Ok text \<and> fs text = Ok x)" for p x
    by (auto simp: from_file_def bind_res_Ok_iff split: res.splits)
  have vm: "vm_manager_new cn cfg = Ok x \<Longrightarrow> vm_config_of x = cfg" for cfg x
    by (auto simp: vm_manager_new_def split: res.splits)
  from assms obtain cfg m where cfg: "from_file rd fs ''config.EXAMPLE.toml'' = Ok cfg" and m: "vm_manager_new cn cfg = Ok m"
    and rest: "(case gu (vm_conn m) of
           Ok _ \<Rightarrow>
             (case bl (cf_listen_addr cfg) of
                None \<Rightarrow> Ok \<lparr>co_state = \<lparr>as_tracker = new_tracker, as_vm_mgr = m, as_config = cfg\<rparr>,
                           co_routes = routes, co_body_limit = BODY_LIMIT, co_listen_addr = cf_listen_addr cfg\<rparr>
              | Some e \<Rightarrow> Err [e])
         | Err e \<Rightarrow> Err [e]
         | Panic \<Rightarrow> Panic) = Ok c"
    unfolding controller_main_def Let_def bind_res_Ok_iff ctx by blast
  from rest show ?thesis using cfg vm [OF m]
    by (cases "gu (vm_conn m)"; cases "bl (cf_listen_addr cfg)") (auto simp: loaded)
qed

end
