(* ===== verification/Http_Api.thy ===== *)
theory Http_Api
  imports Startup
begin

text \<open>
  The HTTP interface of the controller: the table of routes of \<open>crates/malbox-controller/src/main.rs\<close> served with
  the handlers of \<open>routes.rs\<close> on the shared state. The router is axum's and a parameter (\<open>axum_router\<close>): what is
  used of it is that a path goes to the one pattern of the table that matches it, segment by segment, that a
  method the pattern does not have is answered with 405, and a path without a pattern with 404.
\<close>

section \<open>Paths\<close>

definition segments :: "string \<Rightarrow> string list" where
  "segments = split_on (\<lambda>c. c = CHR ''/'')"

definition is_capture :: "string \<Rightarrow> bool" where
  "is_capture p \<longleftrightarrow> p \<noteq> [] \<and> hd p = CHR ''{''"

text \<open>The captured segments, if the pattern matches.\<close>

fun match_segments :: "string list \<Rightarrow> string list \<Rightarrow> string list option" where
  "match_segments [] [] = Some []"
| "match_segments (p # ps) (s # ss) =
     (if is_capture p then (if s = [] then None else map_option (Cons s) (match_segments ps ss))
      else if p = s then match_segments ps ss else None)"
| "match_segments _ _ = None"

definition path_matches :: "string \<Rightarrow> string \<Rightarrow> string list option" where
  "path_matches pattern path = match_segments (segments pattern) (segments path)"

datatype routed = Routed endpoint "string list" | MethodNotAllowed | NoRoute

type_synonym route_table = "(string \<times> (http_method \<times> endpoint) list) list"

definition only_match :: "route_table \<Rightarrow> string \<Rightarrow> string \<Rightarrow> (http_method \<times> endpoint) list \<Rightarrow> string list \<Rightarrow> bool" where
  "only_match table path pattern methods captures \<longleftrightarrow> (pattern, methods) \<in> set table \<and>
     path_matches pattern path = Some captures \<and>
     (\<forall>(q, ms) \<in> set table. path_matches q path \<noteq> None \<longrightarrow> (q, ms) = (pattern, methods))"

text \<open>\<open>decode\<close> undoes the percent-encoding of a captured segment; a segment without \<open>%\<close> is itself.\<close>

locale axum_router =
  fixes route :: "route_table \<Rightarrow> http_method \<Rightarrow> string \<Rightarrow> routed" and decode :: "string \<Rightarrow> string option"
  assumes route_hit: "only_match table path pattern ms caps \<Longrightarrow>
      route table m path = (case map_of ms m of Some e \<Rightarrow> Routed e caps | None \<Rightarrow> MethodNotAllowed)"
    and route_miss: "\<forall>(pattern, ms) \<in> set table. path_matches pattern path = None \<Longrightarrow> route table m path = NoRoute"
    and decode_plain: "CHR ''%'' \<notin> set s \<Longrightarrow> decode s = Some s"

section \<open>Serving a request\<close>

record http_request =
  rq_method :: http_method
  rq_path :: string
  rq_submit :: submit_env        \<comment> \<open>the body and what the environment answers while it is stored\<close>

datatype http_reply =
    Page string
  | Accepted submit_response
  | JobState job_info
  | EventStream "nat \<times> nat"
  | Code nat
  | ErrorText nat string

definition serve_frontend :: "string \<Rightarrow> http_reply" where
  "serve_frontend html = Page html"

text \<open>A handler that panics ends the connection, which is no reply.\<close>

definition submit_reply :: "(nat \<times> string, nat \<times> submit_response) res \<Rightarrow> http_reply option" where
  "submit_reply r = (case r of Ok (code, s) \<Rightarrow> Some (Accepted s) | Err (code, msg) \<Rightarrow> Some (ErrorText code msg) | Panic \<Rightarrow> None)"

definition with_id :: "(string \<Rightarrow> string option) \<Rightarrow> string list \<Rightarrow> (string \<Rightarrow> 's \<times> http_reply option) \<Rightarrow> 's \<Rightarrow> 's \<times> http_reply option" where
  "with_id decode captures f s = (case captures of
       [c] \<Rightarrow> (case decode c of Some jid \<Rightarrow> f jid | None \<Rightarrow> (s, Some (Code 400)))
     | _ \<Rightarrow> (s, Some (Code 500)))"

type_synonym site = "(string \<rightharpoonup> u8 list) \<times> job_tracker"

definition run_endpoint ::
    "(string \<Rightarrow> string option) \<Rightarrow> paths_config \<Rightarrow> string \<Rightarrow> endpoint \<Rightarrow> string list \<Rightarrow> submit_env \<Rightarrow> site \<Rightarrow> site \<times> http_reply option" where
  "run_endpoint decode cfg html e caps body s = (case e of
       ServeFrontend \<Rightarrow> (s, Some (serve_frontend html))
     | SubmitJob \<Rightarrow> (case submit_job cfg body (fst s) (snd s) of (fs, t, r) \<Rightarrow> ((fs, t), submit_reply r))
     | GetJob \<Rightarrow> with_id decode caps (\<lambda>jid. (s, Some (case get_job (snd s) jid of
           Ok i \<Rightarrow> JobState i | Err c \<Rightarrow> Code c | Panic \<Rightarrow> Code 500))) s
     | CancelJob \<Rightarrow> with_id decode caps (\<lambda>jid. (case cancel_job (snd s) jid of (t, c) \<Rightarrow> ((fst s, t), Some (Code c)))) s
     | JobEvents \<Rightarrow> with_id decode caps (\<lambda>jid. (s, Some (case job_events (snd s) jid of
           Ok rx \<Rightarrow> EventStream rx | Err c \<Rightarrow> Code c | Panic \<Rightarrow> Code 500))) s)"

definition serve ::
    "(route_table \<Rightarrow> http_method \<Rightarrow> string \<Rightarrow> routed) \<Rightarrow> (string \<Rightarrow> string option) \<Rightarrow> paths_config \<Rightarrow> string \<Rightarrow>
     http_request \<Rightarrow> site \<Rightarrow> site \<times> http_reply option" where
  "serve route decode cfg html rq s = (case route routes (rq_method rq) (rq_path rq) of
       NoRoute \<Rightarrow> (s, Some (Code 404))
     | MethodNotAllowed \<Rightarrow> (s, Some (Code 405))
     | Routed e caps \<Rightarrow> run_endpoint decode cfg html e caps (rq_submit rq) s)"

section \<open>The paths of the table\<close>

lemma segments_plain: "CHR ''/'' \<notin> set s \<Longrightarrow> segments s = [s]"
  unfolding segments_def by (rule split_on_none) auto

lemma segments_append: "CHR ''/'' \<notin> set s \<Longrightarrow> segments (s @ CHR ''/'' # r) = s # segments r"
  using segments_plain [of s] by (simp add: segments_def split_on_append)

definition job_path :: "string \<Rightarrow> string" where
  "job_path jid = ''/jobs/'' @ jid"

definition events_path :: "string \<Rightarrow> string" where
  "events_path jid = ''/jobs/'' @ jid @ ''/events''"

definition plain_id :: "string \<Rightarrow> bool" where
  "plain_id jid \<longleftrightarrow> jid \<noteq> [] \<and> CHR ''/'' \<notin> set jid \<and> CHR ''%'' \<notin> set jid"

lemma job_path_segments: "plain_id jid \<Longrightarrow> segments (job_path jid) = [[], ''jobs'', jid]"
  using segments_append [of "[]" "''jobs/'' @ jid"] segments_append [of "''jobs''" jid]
  by (simp add: job_path_def plain_id_def segments_plain)

lemma events_path_segments: "plain_id jid \<Longrightarrow> segments (events_path jid) = [[], ''jobs'', jid, ''events'']"
  using segments_append [of "[]" "''jobs/'' @ jid @ ''/events''"] segments_append [of "''jobs''" "jid @ ''/events''"]
    segments_append [of jid "''events''"] segments_plain [of "''events''"]
  by (simp add: events_path_def plain_id_def)

lemma pattern_segments:
  "segments ''/'' = [[], []]" "segments ''/jobs'' = [[], ''jobs'']" "segments ''/jobs/{id}'' = [[], ''jobs'', ''{id}'']"
  "segments ''/jobs/{id}/events'' = [[], ''jobs'', ''{id}'', ''events'']"
  by (simp_all add: segments_def)

lemma table_matches:
  "only_match routes ''/jobs'' ''/jobs'' [(POST, SubmitJob)] []"
  "only_match routes ''/'' ''/'' [(GET, ServeFrontend)] []"
  "plain_id jid \<Longrightarrow> only_match routes (job_path jid) ''/jobs/{id}'' [(GET, GetJob), (DELETE, CancelJob)] [jid]"
  "plain_id jid \<Longrightarrow> only_match routes (events_path jid) ''/jobs/{id}/events'' [(GET, JobEvents)] [jid]"
  by (auto simp: only_match_def routes_def path_matches_def job_path_segments events_path_segments is_capture_def plain_id_def
      pattern_segments)

section \<open>Dispatch\<close>

context axum_router
begin

lemma job_route:
  assumes "plain_id jid"
  shows "route routes m (job_path jid) = (case m of
      GET \<Rightarrow> Routed GetJob [jid] | DELETE \<Rightarrow> Routed CancelJob [jid] | POST \<Rightarrow> MethodNotAllowed)"
    and "route routes m (events_path jid) = (if m = GET then Routed JobEvents [jid] else MethodNotAllowed)"
  using route_hit [OF table_matches(3) [OF assms], of m] route_hit [OF table_matches(4) [OF assms], of m]
  by (auto split: http_method.splits)

lemma fixed_routes:
  "route routes m ''/jobs'' = (if m = POST then Routed SubmitJob [] else MethodNotAllowed)"
  "route routes m ''/'' = (if m = GET then Routed ServeFrontend [] else MethodNotAllowed)"
  using route_hit [OF table_matches(1), of m] route_hit [OF table_matches(2), of m] by auto

lemma decode_id: "plain_id jid \<Longrightarrow> decode jid = Some jid"
  by (rule decode_plain) (simp add: plain_id_def)

end

text \<open>A router that takes the first pattern that matches, for segments without percent-encoding.\<close>

definition first_route :: "route_table \<Rightarrow> http_method \<Rightarrow> string \<Rightarrow> routed" where
  "first_route table m path = (case find (\<lambda>(p, ms). path_matches p path \<noteq> None) table of
       None \<Rightarrow> NoRoute
     | Some (p, ms) \<Rightarrow> (case map_of ms m of
           None \<Rightarrow> MethodNotAllowed | Some e \<Rightarrow> Routed e (the (path_matches p path))))"

interpretation first: axum_router first_route Some
proof
  fix table path pattern ms caps m
  assume only: "only_match table path pattern ms caps"
  obtain e where "find (\<lambda>(p, ms). path_matches p path \<noteq> None) table = Some e"
    using only by (cases "find (\<lambda>(p, ms). path_matches p path \<noteq> None) table") (auto simp: find_None_iff only_match_def)
  moreover have "e = (pattern, ms)"
  proof -
    from calculation have "e \<in> set table" "path_matches (fst e) path \<noteq> None"
      by (auto simp: find_Some_iff case_prod_unfold)
    moreover have "(q, qs) = (pattern, ms)" if "(q, qs) \<in> set table" "path_matches q path \<noteq> None" for q qs
      using only that unfolding only_match_def by blast
    ultimately show ?thesis by (metis prod.collapse)
  qed
  ultimately show "first_route table m path = (case map_of ms m of Some e \<Rightarrow> Routed e caps | None \<Rightarrow> MethodNotAllowed)"
    using only by (simp add: first_route_def only_match_def split: option.split)
next
  fix table :: route_table and path m
  assume "\<forall>(pattern, ms) \<in> set table. path_matches pattern path = None"
  then have "find (\<lambda>(p, ms). path_matches p path \<noteq> None) table = None" by (auto simp: find_None_iff)
  then show "first_route table m path = NoRoute" by (simp add: first_route_def)
qed simp

section \<open>The life of a job as its clients see it\<close>

definition cancels :: "(route_table \<Rightarrow> http_method \<Rightarrow> string \<Rightarrow> routed) \<Rightarrow> (string \<Rightarrow> string option) \<Rightarrow> string \<Rightarrow> http_request \<Rightarrow> bool" where
  "cancels route decode jid rq \<longleftrightarrow>
     (\<exists>c. route routes (rq_method rq) (rq_path rq) = Routed CancelJob [c] \<and> decode c = Some jid)"

text \<open>A sequence of requests; before each, the tasks of the jobs may have changed the table.\<close>

fun serve_all ::
    "(route_table \<Rightarrow> http_method \<Rightarrow> string \<Rightarrow> routed) \<Rightarrow> (string \<Rightarrow> string option) \<Rightarrow> paths_config \<Rightarrow> string \<Rightarrow>
     ((job_tracker \<Rightarrow> job_tracker) \<times> http_request) list \<Rightarrow> site \<Rightarrow> site" where
  "serve_all route decode cfg html [] s = s"
| "serve_all route decode cfg html ((f, rq) # rqs) s =
     serve_all route decode cfg html rqs (fst (serve route decode cfg html rq (fst s, f (snd s))))"

definition keeps_jobs :: "(job_tracker \<Rightarrow> job_tracker) \<Rightarrow> bool" where
  "keeps_jobs f \<longleftrightarrow> (\<forall>t. dom (tk_jobs (f t)) = dom (tk_jobs t))"

text \<open>Every step of every task is such a change.\<close>

lemma task_keeps_jobs: "keeps_jobs (\<lambda>t. fst (snd (job_step jid x p t vm)))"
proof -
  have "dom (tk_jobs (set_status st t jid)) = dom (tk_jobs t)" "dom (tk_jobs (set_result r t jid)) = dom (tk_jobs t)"
    "dom (tk_jobs (emit_error m t jid)) = dom (tk_jobs t)" for st r m t
    by (auto simp: set_status_def set_result_def emit_error_def tx_send_def Let_def split: option.splits)
  then show ?thesis
    by (cases p) (simp_all add: keeps_jobs_def check_step_def split: ext.splits)
qed

lemma submit_job_has:
  assumes "submit_job cfg env fs t = (fs', t', r)" and "sb_job_uuid env \<noteq> jid"
  shows "has t' jid = has t jid"
proof (cases "\<exists>x. r = Ok x")
  case True
  then obtain x where "r = Ok x" by blast
  with assms(1) have "submit_job cfg env fs t = (fs', t', Ok x)" by simp
  then show ?thesis by (rule submit_job_OkD) (use assms(2) in \<open>simp add: has_def tracker_simps\<close>)
next
  case False
  then show ?thesis using submit_job_not_Ok [OF assms(1)] by simp
qed

lemma serve_has:
  assumes "sb_job_uuid (rq_submit rq) \<noteq> jid"
  shows "has (snd (fst (serve route decode cfg html rq s))) jid \<longleftrightarrow> has (snd s) jid \<and> \<not> cancels route decode jid rq"
proof (cases "route routes (rq_method rq) (rq_path rq)")
  case (Routed e caps)
  show ?thesis
  proof (cases e)
    case SubmitJob
    obtain fs t r where "submit_job cfg (rq_submit rq) (fst s) (snd s) = (fs, t, r)" by (metis prod_cases3)
    with submit_job_has [OF this assms] SubmitJob Routed show ?thesis
      by (simp add: serve_def run_endpoint_def cancels_def)
  qed (use Routed in \<open>auto simp: serve_def run_endpoint_def cancels_def with_id_def cancel_job_def cancel_def has_def
      split: list.splits option.splits\<close>)
qed (simp_all add: serve_def cancels_def)

lemma serve_all_has:
  assumes "\<forall>(f, rq) \<in> set rqs. sb_job_uuid (rq_submit rq) \<noteq> jid \<and> keeps_jobs f"
  shows "has (snd (serve_all route decode cfg html rqs s)) jid \<longleftrightarrow>
     has (snd s) jid \<and> \<not> (\<exists>(f, rq) \<in> set rqs. cancels route decode jid rq)"
  using assms
proof (induction rqs arbitrary: s)
  case (Cons e rqs)
  obtain f rq where e: "e = (f, rq)" by (cases e)
  have "has (f t) jid = has t jid" for t
    using Cons.prems e by (auto simp: keeps_jobs_def has_def dom_def set_eq_iff)
  then show ?case using Cons.IH Cons.prems serve_has [of rq jid route decode cfg html "(fst s, f (snd s))"]
    by (auto simp: e)
qed simp

lemma accepted_has:
  assumes "serve route decode cfg html rq s = (s', Some (Accepted r))"
  shows "has (snd s') (sr_job_id r)"
proof (cases "route routes (rq_method rq) (rq_path rq)")
  case (Routed e caps)
  show ?thesis
  proof (cases e)
    case SubmitJob
    obtain fs t q where q: "submit_job cfg (rq_submit rq) (fst s) (snd s) = (fs, t, q)" by (metis prod_cases3)
    with assms SubmitJob Routed obtain c where c: "q = Ok (c, r)" "s' = (fs, t)"
      by (auto simp: serve_def run_endpoint_def submit_reply_def split: res.splits)
    from q [unfolded c(1)] show ?thesis by (rule submit_job_OkD) (simp add: c(2) has_def tracker_simps)
  qed (use Routed assms in \<open>auto simp: serve_def run_endpoint_def serve_frontend_def with_id_def cancel_job_def
      split: list.splits option.splits res.splits prod.splits\<close>)
qed (use assms in \<open>simp_all add: serve_def\<close>)

section \<open>Properties\<close>

text \<open>C32: The life of a job as the clients of the controller see it: once a submission has been accepted, its job can be
  read under \<open>/jobs/\<close> and its identifier until a request deletes it, and never after; no other request, to
  whatever path and with whatever method, and no step of any job's task changes that. Identifiers are fresh, and
  without slashes and percent signs, as UUIDs are.\<close>

theorem http_lifetime:
  assumes "axum_router route decode" and "serve route decode cfg html post s = (s1, Some (Accepted r))"
    and "plain_id (sr_job_id r)" and "\<forall>(f, rq) \<in> set rqs. sb_job_uuid (rq_submit rq) \<noteq> sr_job_id r \<and> keeps_jobs f"
  shows "snd (serve route decode cfg html \<lparr>rq_method = GET, rq_path = job_path (sr_job_id r), rq_submit = body\<rparr>
      (serve_all route decode cfg html rqs s1)) =
    (if \<exists>(f, rq) \<in> set rqs. cancels route decode (sr_job_id r) rq then Some (Code 404)
     else map_option JobState (get_info (snd (serve_all route decode cfg html rqs s1)) (sr_job_id r)))"
proof -
  have "has (snd (serve_all route decode cfg html rqs s1)) (sr_job_id r) \<longleftrightarrow>
      \<not> (\<exists>(f, rq) \<in> set rqs. cancels route decode (sr_job_id r) rq)"
    using serve_all_has [OF assms(4)] accepted_has [OF assms(2)] by blast
  then show ?thesis
    using axum_router.job_route(1) [OF assms(1,3)] axum_router.decode_id [OF assms(1,3)]
    by (auto simp: serve_def run_endpoint_def with_id_def get_job_def get_info_def has_def)
qed

text \<open>A submission, a look at its job, a deletion of another job and one of this job.\<close>

definition example_request_of :: "http_method \<Rightarrow> string \<Rightarrow> http_request" where
  "example_request_of m path = \<lparr>rq_method = m, rq_path = path, rq_submit = example_submit\<lparr>sb_job_uuid := ''k''\<rparr>\<rparr>"

theorem http_lifetime_witness:
  "let post = \<lparr>rq_method = POST, rq_path = ''/jobs'', rq_submit = example_submit\<rparr>;
       site = serve first_route Some example_cfg ''<html>'' post (Map.empty, new_tracker);
       look = (\<lambda>rqs. snd (serve first_route Some example_cfg ''<html>'' (example_request_of GET (job_path ''j''))
         (serve_all first_route Some example_cfg ''<html>'' (map (Pair (\<lambda>t. t)) rqs) (fst site))))
   in snd site = Some (Accepted \<lparr>sr_job_id = ''j'', sr_status = ''queued''\<rparr>) \<and>
      look [example_request_of GET ''/'', example_request_of DELETE (job_path ''k'')] \<noteq> Some (Code 404) \<and>
      look [example_request_of DELETE (job_path ''j'')] = Some (Code 404)"
proof -
  let ?post = "\<lparr>rq_method = POST, rq_path = ''/jobs'', rq_submit = example_submit\<rparr>"
  have plain: "plain_id ''j''" "plain_id ''k''" by (simp_all add: plain_id_def)
  obtain s1 where s1: "serve first_route Some example_cfg ''<html>'' ?post (Map.empty, new_tracker) =
      (s1, Some (Accepted \<lparr>sr_job_id = ''j'', sr_status = ''queued''\<rparr>))"
    by (simp add: serve_def first.fixed_routes run_endpoint_def submit_reply_def submit_job_def example_submit_def submit_def Let_def)
  have keeps: "keeps_jobs (\<lambda>t. t)" by (simp add: keeps_jobs_def)
  have life: "snd (serve first_route Some example_cfg ''<html>'' (example_request_of GET (job_path ''j''))
      (serve_all first_route Some example_cfg ''<html>'' (map (Pair (\<lambda>t. t)) rqs) s1)) =
    (if \<exists>(f, rq) \<in> set (map (Pair (\<lambda>t. t)) rqs). cancels first_route Some ''j'' rq then Some (Code 404)
     else map_option JobState (get_info (snd (serve_all first_route Some example_cfg ''<html>'' (map (Pair (\<lambda>t. t)) rqs) s1)) ''j''))"
    if "\<forall>rq \<in> set rqs. sb_job_uuid (rq_submit rq) = ''k''" for rqs :: "http_request list"
    using http_lifetime [OF first.axum_router_axioms s1, of "map (Pair (\<lambda>t. t)) rqs"] plain that keeps
    by (simp add: example_request_of_def)
  show ?thesis
    using life [of "[example_request_of GET ''/'', example_request_of DELETE (job_path ''k'')]"]
      life [of "[example_request_of DELETE (job_path ''j'')]"] plain
    by (simp add: s1 Let_def example_request_of_def cancels_def first.job_route first.fixed_routes)
qed

end
