(* ===== verification/Volatility.thy ===== *)
theory Volatility
  imports Prelude
begin

text \<open>
  \<open>crates/malbox-controller/src/volatility.rs\<close>: the plugins that are run on a memory dump. The module is
  compiled but nothing calls it. The program \<open>vol\<close> and the JSON parser are parameters: \<open>run_vol\<close> is given the
  arguments and answers with an error to start, or success and the standard output; \<open>from_str\<close> parses into
  a type \<open>'j\<close> of JSON values, in which \<open>no_rows\<close> is the empty array. A \<open>serde_json::Map\<close> is a map, and the
  order in which \<open>phf\<close> iterates over its table is a parameter.
\<close>

definition PLUGINS :: "(string \<times> string) list" where
  "PLUGINS =
    [(''psscan'', ''windows.psscan.PsScan''),
     (''pslist'', ''windows.pslist.PsList''),
     (''pstree'', ''windows.pstree.PsTree''),
     (''psxview'', ''windows.psxview.PsXView''),
     (''callbacks'', ''windows.callbacks.Callbacks''),
     (''ssdt'', ''windows.ssdt.SSDT''),
     (''getsids'', ''windows.getsids.GetSIDs''),
     (''privs'', ''windows.privileges.Privs''),
     (''malfind'', ''windows.malfind.Malfind''),
     (''dlllist'', ''windows.dlllist.DllList''),
     (''handles'', ''windows.handles.Handles''),
     (''mutantscan'', ''windows.mutantscan.MutantScan''),
     (''svcscan'', ''windows.svcscan.SvcScan''),
     (''modscan'', ''windows.modscan.ModScan''),
     (''yarascan'', ''yarascan.YaraScan''),
     (''netscan'', ''windows.netscan.NetScan''),
     (''info'', ''windows.info.Info''),
     (''ldrmodules'', ''windows.ldrmodules.LdrModules''),
     (''cmdline'', ''windows.cmdline.CmdLine''),
     (''envars'', ''windows.envars.Envars''),
     (''modules'', ''windows.modules.Modules''),
     (''driverscan'', ''windows.driverscan.DriverScan''),
     (''driverirp'', ''windows.driverirp.DriverIrp''),
     (''verinfo'', ''windows.verinfo.VerInfo''),
     (''filescan'', ''windows.filescan.FileScan''),
     (''vadinfo'', ''windows.vadinfo.VadInfo''),
     (''timers'', ''windows.timers.Timers''),
     (''hivelist'', ''windows.registry.hivelist.HiveList''),
     (''hashdump'', ''windows.hashdump.Hashdump''),
     (''lsadump'', ''windows.lsadump.Lsadump''),
     (''cachedump'', ''windows.cachedump.Cachedump''),
     (''symlinkscan'', ''windows.symlinkscan.SymlinkScan''),
     (''thrdscan'', ''windows.thrdscan.ThrdScan''),
     (''hollowprocesses'', ''windows.hollowprocesses.HollowProcesses''),
     (''processghosting'', ''windows.processghosting.ProcessGhosting''),
     (''suspiciousthreads'', ''windows.suspicious_threads.SuspiciousThreads''),
     (''devicetree'', ''windows.devicetree.DeviceTree''),
     (''consoles'', ''windows.consoles.Consoles''),
     (''cmdscan'', ''windows.cmdscan.CmdScan''),
     (''amcache'', ''windows.amcache.Amcache''),
     (''shimcache'', ''windows.shimcachemem.ShimcacheMem''),
     (''userassist'', ''windows.registry.userassist.UserAssist''),
     (''unloadedmodules'', ''windows.unloadedmodules.UnloadedModules''),
     (''iat'', ''windows.iat.IAT''),
     (''skeletonkey'', ''windows.skeleton_key_check.Skeleton_Key_Check''),
     (''unhookedsyscalls'', ''windows.unhooked_system_calls.unhooked_system_calls''),
     (''etwpatch'', ''windows.etwpatch.EtwPatch''),
     (''mftscan'', ''windows.mftscan.MFTScan''),
     (''svclist'', ''windows.svclist.SvcList''),
     (''svcdiff'', ''windows.svcdiff.SvcDiff'')]"

type_synonym 'j json_map = "string \<rightharpoonup> 'j"

definition vol_args :: "string \<Rightarrow> string \<Rightarrow> string list" where
  "vol_args dump_path plugin = [''-f'', dump_path, ''-r'', ''json'', plugin]"

definition run_plugin ::
    "(string list \<Rightarrow> (string, bool \<times> string) res) \<Rightarrow> (string \<Rightarrow> 'j option) \<Rightarrow> 'j \<Rightarrow> string \<Rightarrow> string \<Rightarrow>
       (string, 'j) res" where
  "run_plugin run_vol from_str no_rows dump_path plugin = (case run_vol (vol_args dump_path plugin) of
       Err _ \<Rightarrow> Err (''Failed to execute volatility plugin: '' @ plugin)
     | Panic \<Rightarrow> Panic
     | Ok (success, stdout) \<Rightarrow>
         (if \<not> success then Ok no_rows
          else (case from_str stdout of
              Some parsed \<Rightarrow> Ok parsed
            | None \<Rightarrow> Err ''Failed to parse JSON output from plugin: {}'')))"

fun dump_loop :: "(string \<Rightarrow> (string, 'j) res) \<Rightarrow> (string \<times> string) list \<Rightarrow> 'j json_map \<Rightarrow> (string, 'j json_map) res" where
  "dump_loop plugin_result [] report = Ok report"
| "dump_loop plugin_result ((name, plugin) # entries) report =
     bind_res (plugin_result plugin) (\<lambda>result. dump_loop plugin_result entries (report(name \<mapsto> result)))"

definition analyze_dump ::
    "(string list \<Rightarrow> (string, bool \<times> string) res) \<Rightarrow> (string \<Rightarrow> 'j option) \<Rightarrow> 'j \<Rightarrow>
       ((string \<times> string) list \<Rightarrow> (string \<times> string) list) \<Rightarrow> string \<Rightarrow> (string, 'j json_map) res" where
  "analyze_dump run_vol from_str no_rows order dump_path =
     dump_loop (run_plugin run_vol from_str no_rows dump_path) (order PLUGINS) Map.empty"

lemma plugins_distinct: "distinct (map fst PLUGINS)"
  unfolding PLUGINS_def by code_simp

lemma plugins_keys_in: "(n, p) \<in> set PLUGINS \<Longrightarrow> (n, q) \<in> set PLUGINS \<Longrightarrow> p = q"
  using plugins_distinct by (metis Some_eq_map_of_iff option.inject)

definition result_of :: "(string \<Rightarrow> (string, 'j) res) \<Rightarrow> string \<Rightarrow> 'j option" where
  "result_of f p = (case f p of Ok j \<Rightarrow> Some j | _ \<Rightarrow> None)"

lemma dump_loop_Ok:
  assumes "distinct (map fst es)"
  shows "dump_loop f es m = Ok r \<longleftrightarrow> (\<forall>e \<in> set es. result_of f (snd e) \<noteq> None) \<and>
     r = (\<lambda>k. case map_of es k of Some p \<Rightarrow> result_of f p | None \<Rightarrow> m k)"
  using assms
proof (induction es arbitrary: m)
  case (Cons e es)
  obtain n p where e: "e = (n, p)" by (cases e)
  have n: "map_of es n = None" using Cons.prems e by (simp add: map_of_eq_None_iff)
  show ?case
  proof (cases "f p")
    case (Ok j)
    have eq: "(\<lambda>k. case map_of es k of Some p \<Rightarrow> result_of f p | None \<Rightarrow> (m(n \<mapsto> j)) k) =
        (\<lambda>k. case map_of (e # es) k of Some p \<Rightarrow> result_of f p | None \<Rightarrow> m k)"
      using n Ok e by (auto simp: fun_eq_iff result_of_def split: option.split)
    have step: "dump_loop f (e # es) m = dump_loop f es (m(n \<mapsto> j))" by (simp add: e Ok)
    have "distinct (map fst es)" using Cons.prems by simp
    from Cons.IH [OF this, of "m(n \<mapsto> j)"]
    have "dump_loop f (e # es) m = Ok r \<longleftrightarrow> (\<forall>e \<in> set es. result_of f (snd e) \<noteq> None) \<and>
        r = (\<lambda>k. case map_of (e # es) k of Some p \<Rightarrow> result_of f p | None \<Rightarrow> m k)"
      unfolding step eq .
    moreover have "result_of f p \<noteq> None" using Ok by (simp add: result_of_def)
    ultimately show ?thesis by (simp add: e)
  qed (simp_all add: e result_of_def)
qed auto

lemma same_table:
  assumes "mset es = mset PLUGINS"
  shows "distinct (map fst es)" "map_of es = map_of PLUGINS" "set es = set PLUGINS"
proof -
  have "mset (map fst es) = mset (map fst PLUGINS)" using assms by simp
  then show dist: "distinct (map fst es)" using plugins_distinct mset_eq_imp_distinct_iff by blast
  show set: "set es = set PLUGINS" using assms by (rule mset_eq_setD)
  show "map_of es = map_of PLUGINS"
    using dist plugins_distinct set by (simp add: map_of_inject_set)
qed

text \<open>The report of a memory dump does not depend on the order in which the plugin table is iterated: it is
  made exactly when every plugin of the table has a result, and then it holds for each of the fifty names
  the result of its plugin and nothing else; a single plugin that cannot be started, or whose output is
  not JSON, loses the whole report, while one that exits with a failure counts as an empty array.\<close>

theorem dump_report:
  assumes "mset (order PLUGINS) = mset PLUGINS"
  shows "analyze_dump run_vol from_str no_rows order dump_path = Ok r \<longleftrightarrow>
     (\<forall>(name, plugin) \<in> set PLUGINS. \<exists>j. run_plugin run_vol from_str no_rows dump_path plugin = Ok j) \<and>
     r = (\<lambda>name. case map_of PLUGINS name of None \<Rightarrow> None
            | Some plugin \<Rightarrow> result_of (run_plugin run_vol from_str no_rows dump_path) plugin) \<and>
     length PLUGINS = 50 \<and> distinct (map fst PLUGINS)"
proof -
  have "result_of f p \<noteq> None \<longleftrightarrow> (\<exists>j. f p = Ok j)" for f :: "string \<Rightarrow> (string, 'a) res" and p
    by (cases "f p") (simp_all add: result_of_def)
  moreover have "length PLUGINS = 50" by (simp add: PLUGINS_def)
  moreover have "(case map_of PLUGINS k of Some p \<Rightarrow> g p | None \<Rightarrow> Map.empty k) =
      (case map_of PLUGINS k of None \<Rightarrow> None | Some p \<Rightarrow> g p)" for k and g :: "string \<Rightarrow> 'a option"
    by (simp split: option.split)
  ultimately show ?thesis
    unfolding analyze_dump_def dump_loop_Ok [OF same_table(1) [OF assms]] same_table(2,3) [OF assms]
    using plugins_distinct by (auto simp: case_prod_beta)
qed

theorem dump_report_witness:
  "analyze_dump (\<lambda>args. Ok (True, last args)) Some [] rev ''mem.dmp'' =
     Ok (\<lambda>name. case map_of PLUGINS name of None \<Rightarrow> None | Some plugin \<Rightarrow> Some plugin)"
proof -
  let ?run = "run_plugin (\<lambda>args. Ok (True, last args)) Some [] ''mem.dmp''"
  have run: "?run p = Ok p" for p by (simp add: run_plugin_def vol_args_def)
  have perm: "mset (rev PLUGINS) = mset PLUGINS" by simp
  have all: "result_of ?run = Some" by (simp add: fun_eq_iff result_of_def run)
  have "length PLUGINS = 50" by (simp add: PLUGINS_def)
  then show ?thesis
    using dump_report [where order = rev, OF perm, of "\<lambda>args. Ok (True, last args)" Some "[]" "''mem.dmp''", unfolded all]
      run plugins_distinct by simp
qed

end
