(* ===== verification/Spec2Isabelle.thy ===== *)
theory Spec2Isabelle
  imports Wire_Job Json_Text Pipe_Handles Command_Pipe Logserver Http_Api Volatility
begin

text \<open>
  Malbox is a malware sandbox in two Rust programs. The controller (\<open>src/crates/malbox-controller\<close>)
  takes samples over HTTP, starts a Windows machine per sample through libvirt, and drives the agent
  inside it; the agent (\<open>src/crates/malbox-agent\<close>) receives the sample, runs it under a monitor,
  collects the monitor's log of API calls and builds a report. This development models the
  controller's jobs, machines and routes, the protocol between the two programs from both ends, and
  the agent's analysis run, from the files of the monitor to the report.

  How the parts fit together. A submission (\<open>Routes.submit_job\<close>) stores the file and registers a job
  (\<open>Job_Tracker.submit\<close>), whose task (\<open>Run_Job.job_step\<close>) creates the machine
  (\<open>Vm.create_job_domain\<close>), exchanges certificates with the agent's bootstrap service
  (\<open>Controller_Client.bootstrap_mtls\<close> against \<open>Agent_Bootstrap\<close>), sends the sample
  (\<open>Controller_Client.upload_sample_client\<close> against \<open>Agent_Service.upload_sample\<close>) and waits for the
  analysis (\<open>Controller_Client.run_analysis_client\<close> against \<open>Agent_Service.analyze\<close>). \<open>Job_Run.run_job\<close> is the
  same task as one function in which these calls are made, and \<open>Whole_Job\<close> runs it against the agent. The agent runs
  the sample (\<open>Analysis.run_analysis\<close>): it writes the monitor's files (\<open>Monitor\<close>), creates the sample
  suspended, injects the monitor and resumes it (\<open>Process\<close>), polls it, stops the command pipe
  (\<open>Command_Pipe\<close>) and cleans up. Meanwhile one reader per monitored process (\<open>Logserver.read_loop\<close>) parses its log pipe (\<open>Pipe_Raw\<close>,
  \<open>Byte_Reader\<close>, \<open>Bson_Frame\<close>, \<open>Bson_Log\<close>) into the shared collector (\<open>Collector\<close>), from which
  the report is built (\<open>Report\<close>) and turned into the JSON (\<open>Report_Json\<close>) that the controller stores with the job.

  The theories, in the order of their imports:
  \<^item> \<open>Prelude\<close>: outcomes (\<open>Ok\<close>, \<open>Err\<close>, \<open>Panic\<close>), indexing and slicing that panic, little-endian
    numbers, and shared list lemmas; the fact collections \<open>std_simps\<close> and \<open>tracker_simps\<close>.
  \<^item> \<open>Rust_Text\<close>, \<open>Rust_Path\<close>, \<open>Rust_Net\<close>: what the program uses of the standard library: trimming,
    splitting, number formatting and parsing, Unix and Windows paths, and IP addresses.
    A \<open>string\<close> is a list of 8-bit characters; text outside Latin-1 is not represented.
  \<^item> \<open>Proto\<close>: the messages of \<open>malbox-proto\<close>.
  \<^item> \<open>Bson_Log\<close>, \<open>Bson_Frame\<close>: \<open>bson_log.rs\<close>; the crate \<open>bson\<close> is the parameter \<open>bson_crate\<close>.
    Proved: exactly when \<open>process_doc\<close> panics, the call built from an info document and a call
    document, the header round trip, and the bounds on frame lengths.
  \<^item> \<open>Byte_Reader\<close>, \<open>Pipe_Raw\<close>: the contract of \<open>std::io::Read\<close> as the locale \<open>byte_reader\<close>, and the
    named pipe of \<open>pipes/raw.rs\<close>, which meets it whenever \<open>ReadFile\<close> behaves as Win32 documents
    (locale \<open>win_read_file\<close>, a sublocale of the reader). The frame and reader lemmas are proved once
    inside \<open>byte_reader\<close> and hold for the pipe.
  \<^item> \<open>Collector\<close>: \<open>collector.rs\<close>; the hash map is an association list in insertion order, its iteration
    order a parameter wherever the code iterates. Proved: the invariant and the recorded calls for
    every sequence of operations; the locale \<open>call_sink\<close> is what the readers rely on.
  \<^item> \<open>Logserver\<close>: \<open>pipes/logserver.rs\<close>. Proved: a reader returns on every pipe, and delivers a
    well-formed log exactly.
  \<^item> \<open>Report\<close>: \<open>report.rs\<close>. Proved: the order of the process list, completeness of the process tree,
    the registrations on which it fails, and when \<open>detect_pe_type\<close> panics.
  \<^item> \<open>Report_Json\<close>, \<open>Json_Text\<close>: the JSON value of a report, from the derived serialisation of the structs of
    \<open>report.rs\<close>. Proved: each value is determined by its JSON, and where the processes are found in it.
    \<open>Json_Text\<close> is a printer and a parser of compact JSON on ASCII texts, the instance by which the
    hypothesis on \<open>serde_json\<close> (what it prints, it parses) is shown to be satisfiable.
  \<^item> \<open>Job_Tracker\<close>, \<open>Run_Job\<close>: \<open>job.rs\<close>, the table of jobs and the task of a job; the task is a program
    counter with one step per access to the table and per await, and \<open>sys_step\<close> interleaves tasks,
    submissions and cancellations. Proved over all reachable states: outcome, event log, order of
    states, finality of a cancellation, the machines left behind, and termination of a task. The
    operations of a task meet the locale \<open>job_update\<close>.
  \<^item> \<open>Vm\<close>: \<open>vm.rs\<close>; libvirt, \<open>qemu-img\<close>, the lease table, the clock and the random bytes are the record
    \<open>vm_env\<close>, the host is its files and domains. Proved: what creation does on success and on early
    and late failure, that it returns, and that \<open>teardown\<close> undoes it.
  \<^item> \<open>Certs\<close>, \<open>Agent_Bootstrap\<close>: \<open>certs.rs\<close>, \<open>cert.rs\<close>, \<open>bootstrap.rs\<close> and the agent's \<open>main.rs\<close>; the crate
    \<open>rcgen\<close> is a parameter. Proved: the state machine of \<open>main\<close> around the bootstrap, its ends and failures, and the
    contract \<open>bootstrap_rpc\<close> of the handlers.
  \<^item> \<open>Agent_Service\<close>: \<open>agent.rs\<close>. Proved: what an upload stores and where, what the directory guard does
    not stop, and the contract \<open>upload_rpc\<close>.
  \<^item> \<open>Monitor\<close>: \<open>monitor.rs\<close>, the files of the monitor, its random names and its configuration. Proved: its
    clean-up undoes its set-up (\<open>monitor_undone\<close>).
  \<^item> \<open>Process\<close>: \<open>process.rs\<close>; what Win32 answers is the record \<open>os_env\<close>, and the state \<open>win_os\<close> holds the open
    handles, the files and the list of visible events. Proved: no handle leaks or is closed twice, the
    configuration names what the agent serves, and that \<open>set_terminate_event\<close> opens another name.
  \<^item> \<open>Single_Process\<close>: lemmas on collectors and reports with one process.
  \<^item> \<open>Analysis\<close>: \<open>analysis.rs\<close>; the run is a state-passing program over \<open>run_state\<close>, in which \<open>bind_run\<close> is
    the operator \<open>?\<close> and \<open>expect_run\<close> is \<open>unwrap\<close>; \<open>keeps\<close> is the preservation of an invariant along it, and
    \<open>last_poll\<close> is how the loop of polls ends. Proved: the run returns, a sample is never resumed
    unmonitored, the files are restored, and when the exit code is lost.
  \<^item> \<open>Command_Pipe\<close>: \<open>pipes/command.rs\<close>. The handler of a connection is proved in the locale \<open>duplex_pipe\<close>, which
    Win32's pipes meet (\<open>win_pipe_io\<close>); the accepting thread against the end of the analysis is the
    transition system \<open>server_move\<close>, with the window in which the nudge is missed.
  \<^item> \<open>Pipe_Handles\<close>: the same server with the handles of its pipes, from \<open>open\<close> to \<open>disconnect\<close> and \<open>drop\<close>; its
    moves are moves of \<open>server_move\<close>. Proved: where every handle that was ever created is.
  \<^item> \<open>Volatility\<close>: \<open>volatility.rs\<close>; \<open>vol\<close> and the JSON parser are parameters.
  \<^item> \<open>Controller_Client\<close>: the protocol half of \<open>job.rs\<close>, proved against the two contracts.
  \<^item> \<open>Job_Run\<close>: \<open>run_job\<close> and \<open>run_job_inner\<close> with their awaits filled in by \<open>Vm\<close> and \<open>Controller_Client\<close>, and the
    pre- and postconditions (\<open>follows\<close>) by which they are reasoned about. Proved: every run is a run of the step
    relation of \<open>Run_Job\<close>, and when a job leaves the host as it found it.
  \<^item> \<open>Whole_Job\<close>: the task against the agent's bootstrap, upload and analysis, the guest as one state that meets the
    two contracts. Proved: a whole job from the submitted record to its result, and a file name with which it
    cannot succeed.
  \<^item> \<open>Grpc\<close>: the generated clients and servers of \<open>gen/malbox.rs\<close>, between the two; \<open>tonic\<close> and \<open>prost\<close> are
    parameters (\<open>tonic_docs\<close>, \<open>prost_ok\<close>), with an executable instance. Proved: each client method reaches the
    handler of its name, an upload over the wire is the upload into the handler, and calls of the other
    service are refused.
  \<^item> \<open>Wire_Job\<close>: the task of a job with these clients, on channels to these servers. Proved: it is the task against the
    handlers, as long as the report fits into a message of 4 MB.
  \<^item> \<open>Routes\<close>: \<open>routes.rs\<close>. Proved: where a submission is stored and what a subscriber sees.
  \<^item> \<open>Startup\<close>: \<open>config.rs\<close> and the controller's \<open>main.rs\<close> up to the server.
  \<^item> \<open>Http_Api\<close>: the requests that the server is sent, dispatched over the table of \<open>Startup.routes\<close> to the
    handlers of \<open>Routes\<close> on the shared state. Axum's router is the locale \<open>axum_router\<close>, with an executable
    instance. Proved: the life of a job as a client sees it.
  \<^item> this theory: the properties that span components.

  Conventions. A panic is a value and ends the thread or handler it happens in. A loop that need not
  end is a \<open>partial_function\<close> whose value \<open>None\<close> is "does not return", and that it returns is a theorem
  (\<open>Logserver.reader_returns\<close>, \<open>Vm.create_returns\<close>, \<open>Analysis.analysis_returns\<close>) or characterised
  (\<open>Controller_Client.bootstrap_waits_forever\<close>). The only fuel is the depth of
  \<open>Report.build_node\<close>: the number of processes is enough when parents are registered first, more never
  changes a result, and for a cyclic registration no depth is. Integers keep their width as words;
  \<open>usize\<close> arithmetic, which stays far below its bound, is on natural numbers. Random choices, clocks
  and failures of the environment are arguments. \<open>qemu-img\<close> and \<open>fs::copy\<close> are taken to leave no file
  when they fail, UUIDs to be fresh, and locks not to be poisoned; printing and logging are left out.

  The analysis and the thread of the command pipe share only \<open>do_run\<close> and the pipe, so the join is
  modelled in \<open>Command_Pipe\<close> and \<open>run_analysis\<close> is the run in which it returns. \<open>make_report\<close> takes the number
  of processes as the depth of the tree, which is enough for the one process that an analysis registers.

  Not modelled: serde, axum, tonic, TLS and libvirt themselves, whose functions are parameters; interceptors and
  origins of the generated clients, which nothing uses; in \<open>Job_Run\<close>, what other tasks do to the host while a job
  runs (they only touch the table; \<open>Run_Job\<close> interleaves tasks and only follows whether the machine of each is
  there); the crate roots and build scripts, which
  declare modules and run the code generator, and the front end, scripts and templates, which are not Rust.
\<close>

section \<open>From the log to the job's result\<close>

text \<open>From the monitor's bytes to the report: when the first process of an analysis is registered and
  its log names that process, the report lists exactly that process, with the calls of the log in
  order and the sorted set of their threads, however the pipe delivered the log.\<close>

theorem report_of_log:
  assumes "win_read_file rf queued code valid" and "valid p" and "code p = ERROR_BROKEN_PIPE"
    and "queued p = header_line h @ concat fs @ tail" and "CHR 0x0A \<notin> set h"
    and "frames_of bc fs ds" and "length tail < 4" and "snd (parse_header h) = pid"
    and "\<And>xs. mset (iter xs) = mset xs"
  shows "\<exists>coll' e. read_loop bc (np_read rf) (Ok ()) p
       (register_process empty_collector pid 0 name) pid = Some (coll', e) \<and>
     report_processes iter coll' =
       [\<lparr>pe_process_id = pid, pe_parent_id = 0, pe_process_name = name,
         pe_threads = sorted_list_of_set (call_thread_id ` set (fst (run_docs bc Map.empty ds))),
         pe_calls = map call_entry_of (fst (run_docs bc Map.empty ds))\<rparr>]"
proof -
  have fin: "pipe_fin code p = None" using assms(3) by (simp add: pipe_fin_def)
  show ?thesis
    using byte_reader.read_loop_docs [OF win_read_file.pipe_reader [OF assms(1)] assms(2,4,5)
        assms(6) [unfolded frames_of_def] assms(7) fin, of "register_process empty_collector pid 0 name" pid]
      single_report [where iter = iter, OF assms(9)] assms(8)
    by simp
qed

theorem report_of_log_witness:
  "\<exists>coll' e. read_loop example_crate (np_read queue_read_file) (Ok ()) example_pipe
       (register_process empty_collector 7 0 ''a.exe'') 7 = Some (coll', e) \<and>
     report_processes rev coll' =
       [\<lparr>pe_process_id = 7, pe_parent_id = 0, pe_process_name = ''a.exe'', pe_threads = [100],
         pe_calls = [call_entry_of example_call]\<rparr>]"
proof -
  have tid: "call_thread_id example_call = 100" by (simp add: example_call_def)
  have nl: "CHR 0x0A \<notin> set ''BSON 7''" by simp
  have hp: "snd (parse_header ''BSON 7'') = 7" by (simp add: example_header)
  have tl: "length [1, 2 :: u8] < 4" by simp
  show ?thesis
    using report_of_log [where iter = rev and name = "''a.exe''", OF win_pipe.win_read_file_axioms
        example_pipe(1,2,3) nl example_pipe(4) tl hp]
    by (simp add: example_run tid del: run_docs.simps)
qed

text \<open>From the monitor's bytes to the job's result: when an analysis succeeds, the monitor of the sample wrote
  a well-formed log under the sample's process identifier, and the reader was done with it in time, then
  the controller receives the JSON of a report that lists exactly one process, the sample, with the calls
  of the log in order and the sorted set of their threads, however the pipe delivered the log and whatever
  order the hash map iterates in.\<close>

theorem analysis_of_log:
  assumes "win_file_name name = Some n" and "run_analysis env (request_config n) os = Some (s, Ok res)"
    and "win_read_file rf queued code valid" and "valid p" and "code p = ERROR_BROKEN_PIPE"
    and "queued p = header_line h @ concat fs @ tail" and "CHR 0x0A \<notin> set h"
    and "frames_of bc fs ds" and "length tail < 4" and "snd (parse_header h) = pr_pid (rs_process s)"
    and "\<And>c. \<exists>e. read_loop bc (np_read rf) (Ok ()) p c (pr_pid (rs_process s)) = Some (re_readers env c, e)"
    and "\<And>xs. mset (re_iter env xs) = mset xs"
  shows "\<exists>report json. report_to_json (re_to_string env) report = Ok json \<and>
    run_analysis_client (analyze (agent_run env os) now) timeout name =
      Ok \<lparr>ar_exit_code = agr_exit_code res, ar_runtime_ms = agr_runtime_ms res, ar_features_json = json\<rparr> \<and>
    bh_processes (rp_behavior report) =
      [\<lparr>pe_process_id = pr_pid (rs_process s), pe_parent_id = 0,
        pe_process_name = sample_name_of (acf_sample_path (request_config n)),
        pe_threads = sorted_list_of_set (call_thread_id ` set (fst (run_docs bc Map.empty ds))),
        pe_calls = map call_entry_of (fst (run_docs bc Map.empty ds))\<rparr>]"
proof -
  let ?calls = "fst (run_docs bc Map.empty ds)"
  have fin: "pipe_fin code p = None" using assms(5) by (simp add: pipe_fin_def)
  have "re_readers env c = sink.push_all c (pr_pid (rs_process s)) ?calls" for c
    using byte_reader.read_loop_docs [OF win_read_file.pipe_reader [OF assms(3)] assms(4,6,7)
        assms(8) [unfolded frames_of_def] assms(9) fin, of c "pr_pid (rs_process s)"] assms(10) assms(11) [of c]
    by simp
  from report_of_run [where env = env, OF assms(2) this assms(12)] obtain report where
    "report_to_json (re_to_string env) report = Ok (agr_features_json res)" "bh_processes (rp_behavior report) =
      [\<lparr>pe_process_id = pr_pid (rs_process s), pe_parent_id = 0,
        pe_process_name = sample_name_of (acf_sample_path (request_config n)),
        pe_threads = sorted_list_of_set (call_thread_id ` set ?calls), pe_calls = map call_entry_of ?calls\<rparr>]"
    by blast
  then show ?thesis by (intro exI [of _ report] exI [of _ "agr_features_json res"])
    (simp add: client_result [OF assms(1)] agent_run_def assms(2))
qed

lemma example_reads:
  "read_loop example_crate (np_read queue_read_file) (Ok ()) example_pipe c 7 = Some (sink.push_all c 7 [example_call], PipeClosed)"
proof -
  have nl: "CHR 0x0A \<notin> set ''BSON 7''" and tl: "length [1, 2 :: u8] < 4" by simp_all
  have "pipe_fin pq_code example_pipe = None" using example_pipe(2) by (simp add: pipe_fin_def)
  from byte_reader.read_loop_docs [OF win_pipe.pipe.byte_reader_axioms example_pipe(1,3) nl
      example_pipe(4) [unfolded frames_of_def] tl this, of c]
  show ?thesis by (simp add: example_header example_run del: run_docs.simps)
qed

theorem analysis_of_log_witness:
  "\<exists>report :: json report. run_analysis_client (analyze (agent_run example_run_env example_os) 0) 60 ''a.exe'' =
      Ok \<lparr>ar_exit_code = - 1, ar_runtime_ms = 500, ar_features_json = ''{}''\<rparr> \<and>
    map pe_calls (bh_processes (rp_behavior report)) = [[call_entry_of example_call]]"
proof -
  obtain s where run: "run_analysis example_run_env (request_config ''a.exe'') example_os = Some (s, Ok
     \<lparr>agr_exit_code = - 1, agr_runtime_ms = 500, agr_features_json = ''{}''\<rparr>)" and pid: "pr_pid (rs_process s) = 7"
    using example_analysis unfolding example_request by blast
  have nl: "CHR 0x0A \<notin> set ''BSON 7''" and tl: "length [1, 2 :: u8] < 4" by simp_all
  have hp: "snd (parse_header ''BSON 7'') = pr_pid (rs_process s)" by (simp add: example_header pid)
  have rd: "\<exists>e. read_loop example_crate (np_read queue_read_file) (Ok ()) example_pipe c (pr_pid (rs_process s)) =
      Some (re_readers example_run_env c, e)" for c
    using example_reads [of c] by (simp add: pid example_run_env_def)
  have it: "\<And>xs. mset (re_iter example_run_env xs) = mset xs" and js: "\<And>r. report_to_json (re_to_string example_run_env) r = Ok ''{}''"
    by (simp_all add: example_run_env_def)
  obtain report json where a: "report_to_json (re_to_string example_run_env) report = Ok json"
    and b: "run_analysis_client (analyze (agent_run example_run_env example_os) 0) 60 ''a.exe'' =
      Ok \<lparr>ar_exit_code = agr_exit_code \<lparr>agr_exit_code = - 1, agr_runtime_ms = 500, agr_features_json = ''{}''\<rparr>,
         ar_runtime_ms = agr_runtime_ms \<lparr>agr_exit_code = - 1, agr_runtime_ms = 500, agr_features_json = ''{}''\<rparr>,
         ar_features_json = json\<rparr>"
    and c: "bh_processes (rp_behavior report) =
      [\<lparr>pe_process_id = pr_pid (rs_process s), pe_parent_id = 0,
        pe_process_name = sample_name_of (acf_sample_path (request_config ''a.exe'')),
        pe_threads = sorted_list_of_set (call_thread_id ` set (fst (run_docs example_crate Map.empty [0, 1]))),
        pe_calls = map call_entry_of (fst (run_docs example_crate Map.empty [0, 1]))\<rparr>]"
    using analysis_of_log [where env = example_run_env and now = 0 and timeout = 60, OF example_file_name run
      win_pipe.win_read_file_axioms example_pipe(1,2,3) nl example_pipe(4) tl hp rd it]
    by blast
  have "json = ''{}''" using a js by simp
  with b c show ?thesis
    by (intro exI [of _ report]) (simp add: example_run del: run_docs.simps)
qed


lemma example_printed_analysis:
  "\<exists>s v. run_analysis (example_run_env\<lparr>re_to_string := \<lambda>v. Ok (g v)\<rparr>) sample_cfg example_os = Some (s, Ok
     \<lparr>agr_exit_code = - 1, agr_runtime_ms = 500, agr_features_json = g v\<rparr>) \<and> pr_pid (rs_process s) = 7"
proof -
  let ?env = "example_run_env\<lparr>re_to_string := \<lambda>v. Ok (g v)\<rparr>" and ?nm = "sample_name_of (acf_sample_path sample_cfg)"
  let ?p = "\<lparr>pr_pid = 7, pr_tid = 8, pr_h_process = Some Null, pr_h_thread = None, pr_suspended = False\<rparr>"
  have same: "prepare_sample ?env = prepare_sample example_run_env"
    by (simp add: fun_eq_iff prepare_sample_def init_monitor_def [abs_def] restart_winmgmt_def run_command_def [abs_def]
        start_reader_def [abs_def])
  obtain s where s: "start_sample ?env sample_cfg (fresh_run example_os) = (s, Ok example_state)"
    "rs_process s = \<lparr>pr_pid = 7, pr_tid = 8, pr_h_process = None, pr_h_thread = None, pr_suspended = False\<rparr>"
    using example_start by (auto simp: start_sample_def same)
  have coll: "rs_collector (sample_ran ?env ?p (rs_os s) s) = register_process empty_collector 7 0 ?nm"
    using started(1) [OF s(1)] s(2) by (simp add: sample_ran_def)
  have poll: "poll_loop ?env t 0 (rs_process s) (rs_os s) = Some (?p, rs_os s, Ok ())" for t
    by (simp add: poll_loop.simps example_run_env_def s(2) gone_def example_simps)
  let ?c = "sink.push_all (register_process empty_collector 7 0 ?nm) 7 [example_call]"
  have tree: "build_tree (length (procs ?c)) (\<lambda>xs. xs) (procs ?c) (child_links ?c) = Some [TreeNode 7 ?nm []]"
    by (rule single_tree) simp_all
  have "rs_process (sample_ran ?env ?p (rs_os s) s) = ?p" by (simp add: sample_ran_def)
  with coll have "\<exists>s' v. finish ?env sample_cfg example_state (sample_ran ?env ?p (rs_os s) s) = (s', Ok
     \<lparr>agr_exit_code = - 1, agr_runtime_ms = 500, agr_features_json = g v\<rparr>) \<and> pr_pid (rs_process s') = 7"
    by (simp add: report_to_json_def finish_def bind_run_def ok_run_def signal_shutdown_def drain_logservers_def nudge_def make_report_def
        clean_up_def on_process_def example_run_env_def build_target_file_def detect_pe_type_def report_build_def tree
        gone_def example_simps) blast
  then show ?thesis using s(1) poll by (auto simp: run_analysis_def)
qed


text \<open>C25: A sample that deletes its own file is reported as a completed job with nothing in it: the analysis has run
  and its calls were collected, but the controller receives exit code 1, no running time and an empty
  report instead of a failure, and the monitor's files stay in the guest.\<close>

theorem deleted_sample_completes:
  assumes "win_file_name name = Some n" and "clock_ok env"
    and "start_sample env (request_config n) (fresh_run os) = (s1, Ok st)" and "re_metadata env = Err e"
  shows "run_analysis_client (analyze (agent_run env os) now) timeout name =
      Ok \<lparr>ar_exit_code = 1, ar_runtime_ms = 0, ar_features_json = []\<rparr> \<and>
    (\<exists>s. run_analysis env (request_config n) os = Some (s, Err e) \<and>
       os_files (rs_os s) = re_activity env (os_files (rs_os s1)))"
proof -
  obtain s r where run: "run_analysis env (request_config n) os = Some (s, r)"
    using returns [OF assms(2)] by blast
  from deleted_sample [OF run assms(3,4)] run show ?thesis
    by (simp add: client_result [OF assms(1)] agent_run_def)
qed

theorem deleted_sample_completes_witness:
  "run_analysis_client (analyze (agent_run (example_run_env\<lparr>re_metadata := Err ''not found''\<rparr>) example_os) 0) 60 ''a.exe'' =
     Ok \<lparr>ar_exit_code = 1, ar_runtime_ms = 0, ar_features_json = []\<rparr>"
proof -
  let ?env = "example_run_env\<lparr>re_metadata := Err ''not found''\<rparr>"
  obtain s1 where "start_sample ?env (request_config ''a.exe'') (fresh_run example_os) = (s1, Ok example_state)"
    using example_start_deleted unfolding example_request by blast
  moreover have "clock_ok ?env" "re_metadata ?env = Err ''not found''"
    by (simp_all add: clock_ok_def example_run_env_def)
  ultimately show ?thesis using deleted_sample_completes [OF example_file_name] by blast
qed

text \<open>C19: A long report is lost on its way: a report of more than 4 MB, which the analysis has made, is more than the
  controller's client decodes, so the controller gets an error of the stream and the job fails, although the
  analysis succeeded and has cleaned up after itself. What is used of the encoding is that a message is at
  least as long as the text in it.\<close>

theorem large_report_lost:
  assumes "tonic_docs tn size_of" and "prost_ok px" and "tn_ready tn = None"
    and "\<And>req. size_of (cd_encode (px_analysis_request px) req) \<le> 2 * length (arq_sample_name req) + 64"
    and "\<And>t d. length (acd_features_json d) \<le> size_of (cd_encode (px_event px) \<lparr>ev_timestamp = t, ev_kind = Some (Done d)\<rparr>)"
    and "win_file_name name = Some n" and "length name \<le> 1024 * 1024"
    and "run_analysis env (request_config n) os = Some (s, Ok res)" and "4 * 1024 * 1024 < length (agr_features_json res)"
  shows "\<exists>e. run_analysis_client (\<lambda>req. snd (client_analyze tn px agent_client_new
      (agent_channel tn px fe (agent_run env os) now) req fs)) timeout name = Err [e]"
proof -
  let ?req = "\<lparr>arq_timeout_secs = timeout, arq_sample_name = name\<rparr>"
  let ?d = "\<lparr>acd_exit_code = agr_exit_code res, acd_runtime_ms = agr_runtime_ms res, acd_features_json = agr_features_json res\<rparr>"
  have fits: "size_of (cd_encode (px_analysis_request px) ?req) \<le> 4 * 1024 * 1024"
    using assms(4) [of ?req] assms(7) by simp
  have done_event: "analyze (agent_run env os) now ?req = Ok (Ok \<lparr>ev_timestamp = now, ev_kind = Some (Done ?d)\<rparr> # [])"
    using assms(6,8) by (simp add: analyze_def analyze_config_def agent_run_def request_config_def analyze_events_def)
  have "4 * 1024 * 1024 < size_of (cd_encode (px_event px) \<lparr>ev_timestamp = now, ev_kind = Some (Done ?d)\<rparr>)"
    using assms(5) [of ?d now] assms(9) by simp
  from analyze_over_wire(2) [OF assms(1-3) fits done_event this, of fe fs] obtain e where
    "client_analyze tn px agent_client_new (agent_channel tn px fe (agent_run env os) now) ?req fs = (fs, Ok [Err e])" by blast
  then show ?thesis by (simp add: run_analysis_client_def over_wire_def)
qed

definition big_report :: string where "big_report = replicate (4 * 1024 * 1024 + 1) (CHR ''a'')"

lemma big_report: "4 * 1024 * 1024 < length big_report"
  unfolding big_report_def by (simp only: length_replicate)

theorem large_report_lost_witness:
  "\<exists>e. run_analysis_client (\<lambda>req. snd (client_analyze (model_tonic wire_size :: (wire, unit, files) tonic) wire_prost agent_client_new
      (agent_channel (model_tonic wire_size :: (wire, unit, files) tonic) wire_prost good_fs
        (agent_run (example_run_env\<lparr>re_to_string := \<lambda>_. Ok big_report\<rparr>) example_os) 0) req Map.empty)) 60 ''a.exe'' = Err [e]"
proof -
  have sizes: "\<And>req. wire_size (cd_encode (px_analysis_request wire_prost) req) \<le> 2 * length (arq_sample_name req) + 64"
    "\<And>t d. length (acd_features_json d) \<le> wire_size (cd_encode (px_event wire_prost) \<lparr>ev_timestamp = t, ev_kind = Some (Done d)\<rparr>)"
    by (simp_all add: wire_encode)
  have name: "length ''a.exe'' \<le> 1024 * 1024" by simp
  obtain s where run: "run_analysis (example_run_env\<lparr>re_to_string := \<lambda>_. Ok big_report\<rparr>) (request_config ''a.exe'') example_os =
      Some (s, Ok \<lparr>agr_exit_code = - 1, agr_runtime_ms = 500, agr_features_json = big_report\<rparr>)"
    using example_printed_analysis [of "\<lambda>_. big_report"] unfolding example_request by blast
  have big: "4 * 1024 * 1024 < length (agr_features_json \<lparr>agr_exit_code = - 1, agr_runtime_ms = 500, agr_features_json = big_report\<rparr>)"
    using big_report by (simp only: agent_result.simps)
  show ?thesis
    by (rule large_report_lost [OF model.tonic_docs_axioms wire_prost_ok model_ready sizes example_file_name name run big])
qed

section \<open>From the browser to the guest\<close>

text \<open>C35: A file name with a backslash survives the controller's sanitising, which knows only slashes, and
  is a path for the agent: a sample submitted under the name of a file one step up is sent with
  success and written outside the upload directory of the guest.\<close>

theorem submitted_name_escapes:
  assumes "byte_reader rd pending fin invar" and "invar s" and "pending s \<noteq> []" and "\<And>k. live k"
  shows "let field = \<lparr>mf_file_name = Some (''..'' @ [bslash] @ ''evil.exe''), mf_bytes = bytes\<rparr>;
         path = win_join upload_dir (safe_filename field)
     in upload_sample_client None rd live (upload_sample good_fs) (safe_filename field) s fs =
          Some (fs(path \<mapsto> pending s), Ok ()) \<and> \<not> inside_dir path"
proof -
  let ?f = "''..'' @ [bslash] @ ''evil.exe''"
  have "unix_file_name ?f = Some ?f"
    by (simp add: unix_file_name_def unix_components_def unix_sep_def leading_cur_dir_def
        body_components_def seg_component_def last_normal_def)
  then have safe: "safe_filename \<lparr>mf_file_name = Some ?f, mf_bytes = bytes\<rparr> = ?f"
    unfolding safe_filename_def by (simp only: Let_def multipart_field.simps option.case)
  have ne: "trim ?f \<noteq> []" by (simp only: example_trim(2)) simp
  have sent: "upload_sample_client None rd live (upload_sample good_fs) ?f s fs =
      Some (fs(win_join upload_dir ?f \<mapsto> pending s), Ok ())"
    using client_good [where live = live and name = ?f, OF assms(1,2,4) ne] example_relative(3,4) assms(3)
    by (simp only: example_trim(2) simp_thms if_False)
  have "body_components False win_sep ?f = [ParentDir, Normal ''evil.exe'']"
    by (simp add: body_components_def win_sep_def seg_component_def)
  then have "\<not> inside_dir (win_join upload_dir ?f)"
    unfolding upload_join [OF example_relative(3,4)]
    by (simp add: inside_dir_def resolve_upload resolve_step_def upload_dir_components last_normal_def)
  with sent show ?thesis unfolding Let_def safe by blast
qed

theorem submitted_name_escapes_witness:
  "let field = \<lparr>mf_file_name = Some (''..'' @ [bslash] @ ''evil.exe''), mf_bytes = Ok [77, 90, 1]\<rparr>;
       path = win_join upload_dir (safe_filename field)
   in upload_sample_client None (np_read queue_read_file) (\<lambda>_. True) (upload_sample good_fs)
        (safe_filename field) short_sample Map.empty =
        Some (Map.empty(path \<mapsto> queue_bytes short_sample), Ok ()) \<and> \<not> inside_dir path"
  by (rule submitted_name_escapes [where live = "\<lambda>_. True", OF win_pipe.pipe.byte_reader_axioms short_sample(1)])
    (simp_all add: short_sample(2))

end
